(* ===== verification/Prelude.thy ===== *)
theory Prelude
  imports Main "HOL-Library.Word" "HOL-Library.Sublist"
begin

text \<open>
  Shared vocabulary of the development: the outcome of running a Go function, the
  fixed-width integers, the named collections that carry the automation, and generic
  lemmas on lists and maps.

  A Go string is a sequence of bytes, and an Isabelle \<^typ>\<open>char\<close> is a byte, so Go
  strings are modelled by \<^typ>\<open>string\<close> as they are.
\<close>

section \<open>Outcomes of Go functions\<close>

text \<open>
  A Go function returns (\<open>Ok\<close>), panics (\<open>Panic\<close>), or does not come back in the situation it
  is called in (\<open>NoReturn\<close>: a send on a full channel, a rejection loop that runs out of draws).
\<close>

datatype go_panic =
    IndexOutOfRange
  | NilDereference
  | CloseOfClosedChannel
  | InvalidArgument
  | SendOnClosedChannel

datatype 'a go = Ok 'a | Panic go_panic | NoReturn

primrec go_bind :: "'a go \<Rightarrow> ('a \<Rightarrow> 'b go) \<Rightarrow> 'b go" where
  "go_bind (Ok x) f = f x"
| "go_bind (Panic p) f = Panic p"
| "go_bind NoReturn f = NoReturn"

lemma go_bind_assoc: "go_bind (go_bind x f) g = go_bind x (\<lambda>y. go_bind (f y) g)"
  by (cases x) auto

lemma go_bind_Ok_right [simp]: "go_bind x Ok = x"
  by (cases x) auto

lemma go_bind_eq_Ok: "go_bind x f = Ok r \<longleftrightarrow> (\<exists>y. x = Ok y \<and> f y = Ok r)"
  by (cases x) auto

lemma go_bind_eq_Panic:
  "go_bind x f = Panic p \<longleftrightarrow> x = Panic p \<or> (\<exists>y. x = Ok y \<and> f y = Panic p)"
  by (cases x) auto

text \<open>Running a fallible operation over a list, left to right, as a \<open>for range\<close> loop does.\<close>

primrec go_fold :: "('a \<Rightarrow> 's \<Rightarrow> 's go) \<Rightarrow> 'a list \<Rightarrow> 's \<Rightarrow> 's go" where
  "go_fold f [] s = Ok s"
| "go_fold f (x # xs) s = go_bind (f x s) (\<lambda>s'. go_fold f xs s')"

lemma go_fold_append: "go_fold f (xs @ ys) s = go_bind (go_fold f xs s) (\<lambda>t. go_fold f ys t)"
  by (induction xs arbitrary: s) (simp_all only: append.simps go_fold.simps go_bind.simps go_bind_assoc)

text \<open>A property kept by every iteration of the loop is kept by the loop.\<close>

lemma go_fold_invariant:
  assumes "go_fold f xs s = Ok t" and "P s"
    and "\<And>x s t. x \<in> set xs \<Longrightarrow> P s \<Longrightarrow> f x s = Ok t \<Longrightarrow> P t"
  shows "P t"
  using assms
proof (induction xs arbitrary: s)
  case Nil
  then show ?case by simp
next
  case (Cons x xs)
  then obtain s' where "f x s = Ok s'" and rest: "go_fold f xs s' = Ok t"
    by (auto simp: go_bind_eq_Ok)
  then have "P s'"
    using Cons.prems by auto
  then show ?case
    using Cons.IH [OF rest] Cons.prems(3) by auto
qed

section \<open>Machine integers\<close>

text \<open>Go's \<open>int64\<close> and \<open>uint64\<close> are 64 bit words, read with \<^const>\<open>sint\<close> and \<^const>\<open>uint\<close>.\<close>

type_synonym int64 = "64 word"
type_synonym uint64 = "64 word"
type_synonym uint16 = "16 word"

lemma sint_int64_bounds: "- (2 ^ 63) \<le> sint (x :: int64)" "sint (x :: int64) < 2 ^ 63"
  using sint_range_size [of x] by (simp_all add: word_size)

lemma sint_of_int64:
  assumes "- (2 ^ 63) \<le> i" and "i < 2 ^ 63"
  shows "sint (word_of_int i :: int64) = i"
  using assms by (simp add: int_word_sint)

section \<open>Collections of facts\<close>

text \<open>
  \<open>frame\<close> collects the equations that say which parts of the state an operation leaves alone,
  and \<open>inv_intros\<close> the preservation lemmas of the invariants.
\<close>

named_theorems frame
named_theorems inv_intros

section \<open>Lists and maps\<close>

lemma distinct_append_disjoint:
  "distinct xs \<Longrightarrow> distinct ys \<Longrightarrow> (\<And>y. y \<in> set ys \<Longrightarrow> y \<notin> set xs) \<Longrightarrow> distinct (xs @ ys)"
  by auto

lemma map_of_distinct_eq:
  "distinct (map fst xs) \<Longrightarrow> (k, v) \<in> set xs \<Longrightarrow> map_of xs k = Some v"
  by simp

end
