(* ===== verification/GoStrings.thy ===== *)
theory GoStrings
  imports Prelude
begin

text \<open>
  The parts of Go's \<open>strings\<close> and \<open>path/filepath\<close> packages (the Unix build) that the webhook
  calls: \<open>strings.Contains\<close>, \<open>strings.HasPrefix\<close>, \<open>strings.Split\<close> and \<open>strings.Join\<close> on a
  one-byte separator, \<open>strings.Replace\<close> of one byte by another, \<open>strings.TrimSpace\<close>,
  \<open>filepath.Clean\<close> and \<open>filepath.Join\<close>.
\<close>

section \<open>Searching\<close>

definition HasPrefix :: "string \<Rightarrow> string \<Rightarrow> bool" where
  "HasPrefix s p = (take (length p) s = p)"

fun Contains :: "string \<Rightarrow> string \<Rightarrow> bool" where
  "Contains [] sub = (sub = [])"
| "Contains (c # s) sub = (HasPrefix (c # s) sub \<or> Contains s sub)"

lemma HasPrefix_iff: "HasPrefix s p \<longleftrightarrow> prefix p s"
  by (metis HasPrefix_def append_eq_conv_conj prefix_def)

lemma Contains_iff_sublist: "Contains s sub \<longleftrightarrow> sublist sub s"
  by (induction s) (auto simp: HasPrefix_iff sublist_Cons_right)

section \<open>Splitting and joining\<close>

fun Split :: "char \<Rightarrow> string \<Rightarrow> string list" where
  "Split c [] = [[]]"
| "Split c (x # xs) =
     (if x = c then [] # Split c xs
      else (case Split c xs of [] \<Rightarrow> [[x]] | p # ps \<Rightarrow> (x # p) # ps))"

fun Join :: "char \<Rightarrow> string list \<Rightarrow> string" where
  "Join c [] = []"
| "Join c [p] = p"
| "Join c (p # q # ps) = p @ c # Join c (q # ps)"

lemma Split_nonempty [simp]: "Split c s \<noteq> []"
  by (induction s) (auto split: list.splits)

lemma Join_Split [simp]: "Join c (Split c s) = s"
proof (induction s)
  case Nil
  then show ?case by simp
next
  case (Cons x xs)
  obtain p ps where ps: "Split c xs = p # ps"
    by (cases "Split c xs") auto
  with Cons show ?case by (cases ps) auto
qed

lemma Split_no_sep: "c \<notin> set s \<Longrightarrow> Split c s = [s]"
  by (induction s) auto

lemma Split_append_sep: "c \<notin> set a \<Longrightarrow> Split c (a @ c # b) = a # Split c b"
  by (induction a) auto

lemma Split_pieces: "p \<in> set (Split c s) \<Longrightarrow> c \<notin> set p"
proof (induction s arbitrary: p)
  case Nil
  then show ?case by simp
next
  case (Cons x xs)
  obtain q qs where "Split c xs = q # qs"
    by (cases "Split c xs") auto
  with Cons show ?case by (auto split: if_splits)
qed

lemma length_Split: "length (Split c s) = Suc (count_list s c)"
proof (induction s)
  case Nil
  then show ?case by simp
next
  case (Cons x xs)
  obtain q qs where "Split c xs = q # qs"
    by (cases "Split c xs") auto
  with Cons show ?case by auto
qed

lemma Split_Join:
  "ps \<noteq> [] \<Longrightarrow> (\<And>p. p \<in> set ps \<Longrightarrow> c \<notin> set p) \<Longrightarrow> Split c (Join c ps) = ps"
  by (induction c ps rule: Join.induct) (auto simp: Split_no_sep Split_append_sep)

section \<open>Replacing a byte\<close>

definition ReplaceAll :: "char \<Rightarrow> char \<Rightarrow> string \<Rightarrow> string" where
  "ReplaceAll a b s = map (\<lambda>c. if c = a then b else c) s"

lemma ReplaceAll_absent: "a \<noteq> b \<Longrightarrow> a \<notin> set (ReplaceAll a b s)"
  by (auto simp: ReplaceAll_def)

section \<open>Trimming white space\<close>

text \<open>
  The UTF-8 encodings of the code points for which \<open>unicode.IsSpace\<close> holds: the six ASCII
  ones, U+0085, U+00A0, U+1680, U+2000 to U+200A, U+2028, U+2029, U+202F, U+205F, U+3000.
\<close>

definition space_runes :: "string list" where
  "space_runes =
     [[CHR 0x09], [CHR 0x0A], [CHR 0x0B], [CHR 0x0C], [CHR 0x0D], [CHR 0x20],
      [CHR 0xC2, CHR 0x85], [CHR 0xC2, CHR 0xA0], [CHR 0xE1, CHR 0x9A, CHR 0x80],
      [CHR 0xE2, CHR 0x80, CHR 0x80], [CHR 0xE2, CHR 0x80, CHR 0x81], [CHR 0xE2, CHR 0x80, CHR 0x82],
      [CHR 0xE2, CHR 0x80, CHR 0x83], [CHR 0xE2, CHR 0x80, CHR 0x84], [CHR 0xE2, CHR 0x80, CHR 0x85],
      [CHR 0xE2, CHR 0x80, CHR 0x86], [CHR 0xE2, CHR 0x80, CHR 0x87], [CHR 0xE2, CHR 0x80, CHR 0x88],
      [CHR 0xE2, CHR 0x80, CHR 0x89], [CHR 0xE2, CHR 0x80, CHR 0x8A], [CHR 0xE2, CHR 0x80, CHR 0xA8],
      [CHR 0xE2, CHR 0x80, CHR 0xA9], [CHR 0xE2, CHR 0x80, CHR 0xAF], [CHR 0xE2, CHR 0x81, CHR 0x9F],
      [CHR 0xE3, CHR 0x80, CHR 0x80]]"

lemma space_runes_nonempty: "r \<in> set space_runes \<Longrightarrow> 0 < length r"
  by (auto simp: space_runes_def)

definition leading_rune :: "string list \<Rightarrow> string \<Rightarrow> string option" where
  "leading_rune rs s = find (\<lambda>r. HasPrefix s r) rs"

lemma leading_rune_in: "leading_rune rs s = Some r \<Longrightarrow> r \<in> set rs \<and> prefix r s"
  by (auto simp: leading_rune_def find_Some_iff HasPrefix_iff)

function trim_runes :: "string list \<Rightarrow> string \<Rightarrow> string" where
  "trim_runes rs s =
     (case leading_rune rs s of
        None \<Rightarrow> s
      | Some r \<Rightarrow> if r = [] then s else trim_runes rs (drop (length r) s))"
  by pat_completeness auto
termination
proof (relation "measure (\<lambda>(rs, s). length s)", goal_cases)
  case (2 rs s r)
  then have "prefix r s"
    using leading_rune_in by blast
  with 2 show ?case
    by (auto simp: prefix_def)
qed simp

declare trim_runes.simps [simp del]

definition TrimLeftSpace :: "string \<Rightarrow> string" where
  "TrimLeftSpace s = trim_runes space_runes s"

definition TrimRightSpace :: "string \<Rightarrow> string" where
  "TrimRightSpace s = rev (trim_runes (map rev space_runes) (rev s))"

definition TrimSpace :: "string \<Rightarrow> string" where
  "TrimSpace s = TrimRightSpace (TrimLeftSpace s)"

lemma trim_runes_suffix: "suffix (trim_runes rs s) s"
proof (induction rs s rule: trim_runes.induct)
  case (1 rs s)
  then show ?case
    by (subst trim_runes.simps)
       (auto split: option.splits intro: suffix_order.trans suffix_drop)
qed

lemma trim_runes_stops:
  assumes "[] \<notin> set rs"
  shows "leading_rune rs (trim_runes rs s) = None"
  using assms
proof (induction rs s rule: trim_runes.induct)
  case (1 rs s)
  show ?case
  proof (cases "leading_rune rs s")
    case None
    then show ?thesis by (subst trim_runes.simps) simp
  next
    case (Some r)
    then have "r \<noteq> []"
      using leading_rune_in 1 by metis
    with 1 Some show ?thesis by (subst trim_runes.simps) simp
  qed
qed

lemma TrimSpace_sublist: "sublist (TrimSpace s) s"
proof -
  have "suffix (TrimLeftSpace s) s"
    by (simp add: TrimLeftSpace_def trim_runes_suffix)
  moreover have "prefix (TrimSpace s) (TrimLeftSpace s)"
    unfolding TrimSpace_def TrimRightSpace_def
    by (metis rev_rev_ident suffix_to_prefix trim_runes_suffix)
  ultimately show ?thesis
    by (meson prefix_imp_sublist sublist_order.order_trans suffix_imp_sublist)
qed

section \<open>Paths\<close>

text \<open>
  \<open>filepath.Clean\<close> works through the elements between slashes: empty elements and \<open>.\<close> are
  dropped, \<open>..\<close> removes the last kept element that is not itself \<open>..\<close>; at the root it is
  dropped, and at the start of a relative path it is kept. The kept elements are a stack, last
  one first.
\<close>

fun clean_elems :: "bool \<Rightarrow> string list \<Rightarrow> string list \<Rightarrow> string list" where
  "clean_elems rooted st [] = rev st"
| "clean_elems rooted st (e # es) =
     (if e = [] \<or> e = ''.'' then clean_elems rooted st es
      else if e = ''..'' then
        (case st of
           [] \<Rightarrow> if rooted then clean_elems rooted [] es else clean_elems rooted [''..''] es
         | t # ts \<Rightarrow> if t = ''..'' then clean_elems rooted (''..'' # st) es
                    else clean_elems rooted ts es)
      else clean_elems rooted (e # st) es)"

definition Clean :: "string \<Rightarrow> string" where
  "Clean p =
     (if p = [] then ''.''
      else let rooted = (hd p = CHR ''/'');
               out = (if rooted then ''/'' else []) @ Join CHR ''/'' (clean_elems rooted [] (Split CHR ''/'' p))
           in if out = [] then ''.'' else out)"

text \<open>\<open>filepath.Join\<close> of two elements: empty leading elements are dropped.\<close>

definition PathJoin :: "string \<Rightarrow> string \<Rightarrow> string" where
  "PathJoin a b =
     (if a \<noteq> [] then Clean (a @ CHR ''/'' # b)
      else if b \<noteq> [] then Clean b
      else [])"

lemma clean_elems_plain:
  assumes "\<And>e. e \<in> set es \<Longrightarrow> e \<noteq> [] \<and> e \<noteq> ''.'' \<and> e \<noteq> ''..''"
  shows "clean_elems rooted st es = rev st @ es"
  using assms by (induction es arbitrary: st) auto

text \<open>
  An absolute path whose elements are ordinary names is already clean; joining a plain file
  name to it appends the name.
\<close>

definition plain_elem :: "string \<Rightarrow> bool" where
  "plain_elem e \<longleftrightarrow> e \<noteq> [] \<and> e \<noteq> ''.'' \<and> e \<noteq> ''..'' \<and> CHR ''/'' \<notin> set e"

lemma Join_append_single: "ps \<noteq> [] \<Longrightarrow> Join c (ps @ [q]) = Join c ps @ c # q"
  by (induction c ps rule: Join.induct) auto

lemma PathJoin_plain:
  assumes "es \<noteq> []" and "list_all plain_elem es" and "plain_elem f"
  shows "PathJoin (CHR ''/'' # Join CHR ''/'' es) f = CHR ''/'' # Join CHR ''/'' es @ CHR ''/'' # f"
proof -
  have all: "\<And>e. e \<in> set (es @ [f]) \<Longrightarrow> plain_elem e"
    using assms by (auto simp: list_all_iff)
  have joined: "Join CHR ''/'' es @ CHR ''/'' # f = Join CHR ''/'' (es @ [f])"
    using assms by (simp add: Join_append_single)
  have "Split CHR ''/'' (CHR ''/'' # Join CHR ''/'' (es @ [f])) = [] # es @ [f]"
    using Split_Join [of "es @ [f]" "CHR ''/''"] all by (auto simp: plain_elem_def)
  moreover have "clean_elems True [] ([] # es @ [f]) = es @ [f]"
    using clean_elems_plain [of "es @ [f]" True "[]"] all by (auto simp: plain_elem_def)
  ultimately have "Clean (CHR ''/'' # Join CHR ''/'' (es @ [f])) = CHR ''/'' # Join CHR ''/'' (es @ [f])"
    by (simp add: Clean_def)
  then show ?thesis
    by (simp add: PathJoin_def joined)
qed

lemma clean_elems_rooted_no_dotdot:
  assumes "''..'' \<notin> set st" and "[] \<notin> set st" and "''.'' \<notin> set st"
    and "\<And>e. e \<in> set st \<union> set es \<Longrightarrow> CHR ''/'' \<notin> set e"
  shows "list_all plain_elem (clean_elems True st es)"
  using assms
proof (induction True st es rule: clean_elems.induct)
  case (1 st)
  then show ?case by (auto simp: list_all_iff plain_elem_def)
next
  case (2 st e es)
  then show ?case by (cases st) auto
qed

end
