(* ===== verification/Csv.thy ===== *)
theory Csv
  imports GoStrings
begin

text \<open>
  One \<open>Read\<close> of Go's \<open>encoding/csv\<close> reader with the default settings (comma separated, no
  comment character, strict quotes, leading space kept) on a fresh reader: the first record
  of the text. The library works on lines: \<open>readLine\<close> keeps the terminating newline, turns
  a final carriage return and newline into a newline, and drops a carriage return before the
  end of the file; \<open>readRecord\<close> skips empty lines and then takes the line field by field,
  reading on into the next lines inside a quoted field.
\<close>

datatype csv_error = CsvEOF | ErrBareQuote | ErrQuote

abbreviation NL :: char where "NL \<equiv> CHR 0x0A"
abbreviation CR :: char where "CR \<equiv> CHR 0x0D"
abbreviation QUOTE :: char where "QUOTE \<equiv> CHR 0x22"
abbreviation COMMA :: char where "COMMA \<equiv> CHR 0x2C"

section \<open>Lines\<close>

text \<open>The lines of a text, each with its newline; the last one may have none.\<close>

fun raw_lines :: "string \<Rightarrow> string list" where
  "raw_lines [] = []"
| "raw_lines (c # cs) =
     (if c = NL then [c] # raw_lines cs
      else (case raw_lines cs of [] \<Rightarrow> [[c]] | l # ls \<Rightarrow> (c # l) # ls))"

definition readLine :: "string \<Rightarrow> string" where
  "readLine l =
     (let n = length l in
      if n = 0 then l
      else if l ! (n - 1) \<noteq> NL then (if l ! (n - 1) = CR then take (n - 1) l else l)
      else if n \<ge> 2 \<and> l ! (n - 2) = CR then take (n - 2) l @ [NL]
      else l)"

definition lengthNL :: "string \<Rightarrow> nat" where
  "lengthNL l = (if l \<noteq> [] \<and> last l = NL then 1 else 0)"

section \<open>Fields\<close>

text \<open>
  \<open>takeField\<close> and \<open>restAfter\<close> are \<open>line[:i]\<close> and \<open>line[i+1:]\<close> for the index \<open>i\<close> of the
  first occurrence of a byte.
\<close>

definition takeField :: "char \<Rightarrow> string \<Rightarrow> string" where
  "takeField c l = takeWhile (\<lambda>x. x \<noteq> c) l"

definition restAfter :: "char \<Rightarrow> string \<Rightarrow> string" where
  "restAfter c l = tl (dropWhile (\<lambda>x. x \<noteq> c) l)"

text \<open>
  The state of \<open>readRecord\<close>: the fields read so far (newest first), the rest of the current
  line, the lines after it. \<open>parse_quoted\<close> also carries the bytes of the quoted field read so
  far. The current line and the lines after it get shorter with every round.
\<close>

lemma length_restAfter: "c \<in> set l \<Longrightarrow> length (restAfter c l) < length l"
  by (induction l) (auto simp: restAfter_def)

function (sequential)
  parse_field :: "string list \<Rightarrow> string \<Rightarrow> string list \<Rightarrow> csv_error + string list" and
  parse_quoted :: "string list \<Rightarrow> string \<Rightarrow> string \<Rightarrow> string list \<Rightarrow> csv_error + string list"
where
  "parse_field fs line more =
     (if line \<noteq> [] \<and> hd line = QUOTE then parse_quoted fs [] (tl line) more
      else if COMMA \<in> set line then
        (if QUOTE \<in> set (takeField COMMA line) then Inl ErrBareQuote
         else parse_field (takeField COMMA line # fs) (restAfter COMMA line) more)
      else (let field = take (length line - lengthNL line) line
            in if QUOTE \<in> set field then Inl ErrBareQuote else Inr (rev (field # fs))))"
| "parse_quoted fs buf line more =
     (if QUOTE \<in> set line then
        (let buf' = buf @ takeField QUOTE line; line' = restAfter QUOTE line
         in if line' \<noteq> [] \<and> hd line' = QUOTE then parse_quoted fs (buf' @ [QUOTE]) (tl line') more
            else if line' \<noteq> [] \<and> hd line' = COMMA then parse_field (buf' # fs) (tl line') more
            else if lengthNL line' = length line' then Inr (rev (buf' # fs))
            else Inl ErrQuote)
      else if line \<noteq> [] then
        (case more of
           [] \<Rightarrow> parse_quoted fs (buf @ line) [] []
         | l # ls \<Rightarrow> parse_quoted fs (buf @ line) l ls)
      else Inl ErrQuote)"
  by pat_completeness auto
termination
proof (relation "measure (\<lambda>x. case x of
      Inl (fs, line, more) \<Rightarrow> length line + sum_list (map (\<lambda>l. Suc (length l)) more)
    | Inr (fs, buf, line, more) \<Rightarrow> length line + sum_list (map (\<lambda>l. Suc (length l)) more))", goal_cases)
  case (4 fs buf line more x xa)
  then show ?case
    using length_restAfter [of QUOTE line] by simp
next
  case (5 fs buf line more x xa)
  then show ?case
    using length_restAfter [of QUOTE line] by simp
qed (auto simp: length_restAfter)

declare parse_field.simps [simp del] parse_quoted.simps [simp del]

section \<open>The first record\<close>

definition csv_Read :: "string \<Rightarrow> csv_error + string list" where
  "csv_Read s =
     (case dropWhile (\<lambda>l. length l = lengthNL l) (map readLine (raw_lines s)) of
        [] \<Rightarrow> Inl CsvEOF
      | l # ls \<Rightarrow> parse_field [] l ls)"

section \<open>Reading plain names\<close>

text \<open>
  A list of names without a comma, a quote or a line break is read back as it was written.
\<close>

definition plain_field :: "string \<Rightarrow> bool" where
  "plain_field f \<longleftrightarrow> COMMA \<notin> set f \<and> QUOTE \<notin> set f \<and> NL \<notin> set f \<and> CR \<notin> set f"

lemma raw_lines_no_NL: "NL \<notin> set s \<Longrightarrow> s \<noteq> [] \<Longrightarrow> raw_lines s = [s]"
proof (induction s)
  case (Cons c s)
  then show ?case by (cases "s = []") auto
qed simp

lemma readLine_plain: "NL \<notin> set s \<Longrightarrow> CR \<notin> set s \<Longrightarrow> readLine s = s"
  by (auto simp: readLine_def Let_def) (metis diff_Suc_1 length_greater_0_conv lessI nth_mem Suc_pred)+

lemma takeField_append: "c \<notin> set a \<Longrightarrow> takeField c (a @ c # b) = a"
  by (simp add: takeField_def takeWhile_append)

lemma restAfter_append: "c \<notin> set a \<Longrightarrow> restAfter c (a @ c # b) = b"
  by (simp add: restAfter_def dropWhile_append)

lemma set_Join: "set (Join c fs) \<subseteq> insert c (\<Union> (set ` set fs))"
  by (induction c fs rule: Join.induct) auto

lemma parse_field_plain_last:
  assumes "plain_field f"
  shows "parse_field gs f [] = Inr (rev gs @ [f])"
proof -
  have "f = [] \<or> hd f \<noteq> QUOTE"
    using assms by (cases f) (auto simp: plain_field_def)
  moreover have "lengthNL f = 0"
    using assms by (auto simp: lengthNL_def plain_field_def dest: last_in_set)
  ultimately show ?thesis
    using assms by (subst parse_field.simps) (auto simp: plain_field_def)
qed

lemma parse_field_plain_step:
  assumes "plain_field f"
  shows "parse_field gs (f @ COMMA # r) [] = parse_field (f # gs) r []"
proof -
  have "hd (f @ COMMA # r) \<noteq> QUOTE"
    using assms by (cases f) (auto simp: plain_field_def)
  then show ?thesis
    using assms
    by (subst parse_field.simps) (auto simp: plain_field_def takeField_append restAfter_append)
qed

lemma parse_field_plain:
  assumes "fs \<noteq> []" and "list_all plain_field fs"
  shows "parse_field gs (Join COMMA fs) [] = Inr (rev gs @ fs)"
  using assms
  by (induction COMMA fs arbitrary: gs rule: Join.induct)
     (auto simp: parse_field_plain_last parse_field_plain_step)

lemma csv_Read_plain:
  assumes "fs \<noteq> []" and "list_all plain_field fs" and "fs \<noteq> [[]]"
  shows "csv_Read (Join COMMA fs) = Inr fs"
proof -
  let ?s = "Join COMMA fs"
  have no: "NL \<notin> set ?s" "CR \<notin> set ?s"
    using set_Join [of COMMA fs] assms by (auto simp: list_all_iff plain_field_def)
  have "?s \<noteq> []"
    using assms by (cases "(COMMA, fs)" rule: Join.cases) auto
  moreover have "lengthNL ?s = 0"
    using no by (auto simp: lengthNL_def dest: last_in_set)
  ultimately have "csv_Read ?s = parse_field [] ?s []"
    using no by (simp add: csv_Read_def raw_lines_no_NL readLine_plain)
  then show ?thesis
    using parse_field_plain [OF assms(1,2)] by simp
qed

lemma csv_Read_Nil: "csv_Read [] = Inl CsvEOF"
  by (simp add: csv_Read_def)

end
