(* ===== verification/Json.thy ===== *)
theory Json
  imports Strconv "HOL-Library.AList"
begin

text \<open>
  Go's \<open>encoding/json\<close>, as far as \<open>json.Unmarshal\<close> into the webhook's own types needs it.
  The syntax is checked by a byte-at-a-time machine with a stack of open arrays and objects,
  as the library's \<open>scanner\<close> is; it builds the tree while it goes. \<open>unquote\<close> resolves escapes
  and replaces invalid UTF-8. The decoders then follow the library's rules: \<open>null\<close> leaves a
  scalar alone, a value of the wrong type is an error, member names match without regard to
  case, unknown members are ignored, and the last of several equal members wins.
\<close>

datatype json =
    JNull
  | JBool bool
  | JNum string
  | JStr string
  | JArr "json list"
  | JObj "(string \<times> json) list"

section \<open>Strings\<close>

definition byte :: "char \<Rightarrow> nat" where
  "byte c = of_char c"

definition cont :: "nat \<Rightarrow> nat \<Rightarrow> char \<Rightarrow> bool" where
  "cont lo hi c \<longleftrightarrow> lo \<le> byte c \<and> byte c \<le> hi"

text \<open>The length of the well-formed UTF-8 sequence at the front, 0 if there is none.\<close>

fun rune_len :: "string \<Rightarrow> nat" where
  "rune_len [] = 0"
| "rune_len (a # r) =
     (if cont 0 0x7F a then 1
      else if cont 0xC2 0xDF a then (case r of b # _ \<Rightarrow> if cont 0x80 0xBF b then 2 else 0 | _ \<Rightarrow> 0)
      else if cont 0xE0 0xEF a then
        (case r of b # c # _ \<Rightarrow>
             if cont (if byte a = 0xE0 then 0xA0 else 0x80) (if byte a = 0xED then 0x9F else 0xBF) b
                \<and> cont 0x80 0xBF c then 3 else 0
           | _ \<Rightarrow> 0)
      else if cont 0xF0 0xF4 a then
        (case r of b # c # d # _ \<Rightarrow>
             if cont (if byte a = 0xF0 then 0x90 else 0x80) (if byte a = 0xF4 then 0x8F else 0xBF) b
                \<and> cont 0x80 0xBF c \<and> cont 0x80 0xBF d then 4 else 0
           | _ \<Rightarrow> 0)
      else 0)"

declare rune_len.simps [simp del]

definition replacement :: string where
  "replacement = [CHR 0xEF, CHR 0xBF, CHR 0xBD]"

definition encode_rune :: "nat \<Rightarrow> string" where
  "encode_rune r =
     (if r < 0x80 then [char_of r]
      else if r < 0x800 then [char_of (0xC0 + r div 0x40), char_of (0x80 + r mod 0x40)]
      else if 0xD800 \<le> r \<and> r < 0xE000 then replacement
      else if r < 0x10000 then
        [char_of (0xE0 + r div 0x1000), char_of (0x80 + r div 0x40 mod 0x40), char_of (0x80 + r mod 0x40)]
      else [char_of (0xF0 + r div 0x40000), char_of (0x80 + r div 0x1000 mod 0x40),
            char_of (0x80 + r div 0x40 mod 0x40), char_of (0x80 + r mod 0x40)])"

definition hex_val :: "char \<Rightarrow> nat option" where
  "hex_val c =
     (if is_digit c then Some (digit_val c)
      else if cont 97 102 c then Some (byte c - 87)
      else if cont 65 70 c then Some (byte c - 55)
      else None)"

text \<open>\<open>getu4\<close>: the value of an escape \<open>\uXXXX\<close> at the front.\<close>

fun getu4 :: "string \<Rightarrow> nat option" where
  "getu4 (s # u # a # b # c # d # _) =
     (if s = CHR 0x5C \<and> u = CHR ''u'' then
        (case (hex_val a, hex_val b, hex_val c, hex_val d) of
           (Some w, Some x, Some y, Some z) \<Rightarrow> Some (((w * 16 + x) * 16 + y) * 16 + z)
         | _ \<Rightarrow> None)
      else None)"
| "getu4 _ = None"

definition unescape :: "char \<Rightarrow> char" where
  "unescape c =
     (if c = CHR ''b'' then CHR 0x08 else if c = CHR ''f'' then CHR 0x0C
      else if c = CHR ''n'' then CHR 0x0A else if c = CHR ''r'' then CHR 0x0D
      else if c = CHR ''t'' then CHR 0x09 else c)"

definition high_surrogate :: "nat \<Rightarrow> bool" where
  "high_surrogate r \<longleftrightarrow> 0xD800 \<le> r \<and> r < 0xDC00"

definition low_surrogate :: "nat \<Rightarrow> bool" where
  "low_surrogate r \<longleftrightarrow> 0xDC00 \<le> r \<and> r < 0xE000"

text \<open>
  One round of the loop of \<open>unquote\<close>: the bytes written and the rest of the input. The
  scanner has let only complete escapes through.
\<close>

definition unquote_round :: "string \<Rightarrow> string \<times> string" where
  "unquote_round s =
     (case s of
        [] \<Rightarrow> ([], [])
      | c # cs \<Rightarrow>
          if c = CHR 0x5C then
            (case getu4 s of
               Some r \<Rightarrow>
                 (case getu4 (drop 6 s) of
                    Some r1 \<Rightarrow>
                      if high_surrogate r \<and> low_surrogate r1
                      then (encode_rune (0x10000 + (r - 0xD800) * 0x400 + (r1 - 0xDC00)), drop 12 s)
                      else (encode_rune r, drop 6 s)
                  | None \<Rightarrow> (encode_rune r, drop 6 s))
             | None \<Rightarrow> (case cs of [] \<Rightarrow> ([], []) | e # es \<Rightarrow> ([unescape e], es)))
          else if rune_len s = 0 then (replacement, cs)
          else (take (rune_len s) s, drop (rune_len s) s))"

lemma unquote_round_less: "s \<noteq> [] \<Longrightarrow> length (snd (unquote_round s)) < length s"
  by (auto simp: unquote_round_def split: list.splits option.splits)

function unquote :: "string \<Rightarrow> string" where
  "unquote s = (if s = [] then [] else fst (unquote_round s) @ unquote (snd (unquote_round s)))"
  by pat_completeness auto
termination
  by (relation "measure length") (auto simp: unquote_round_less)

declare unquote.simps [simp del]

section \<open>The scanner\<close>

text \<open>An open array with its elements, or an open object with its members and the pending name.\<close>

datatype frame = FArr "json list" | FObj "(string \<times> json) list" "string option"

datatype numst = NMinus | NZero | NInt | NDot | NFrac | NE | NESign | NExp

datatype lex =
    BeginValue
  | BeginValueOrEmpty
  | BeginStringOrEmpty
  | BeginString
  | InStr string
  | InStrEsc string
  | InStrU nat string
  | AfterKey
  | EndValue
  | InNum numst string
  | InLit string json

datatype jstate = JSt lex "frame list" | JDone json | JFail

definition is_ws :: "char \<Rightarrow> bool" where
  "is_ws c \<longleftrightarrow> c = CHR '' '' \<or> c = CHR 0x09 \<or> c = CHR 0x0D \<or> c = CHR 0x0A"

definition max_depth :: nat where
  "max_depth = 10000"

definition push :: "frame \<Rightarrow> lex \<Rightarrow> frame list \<Rightarrow> jstate" where
  "push f l st = (if max_depth < Suc (length st) then JFail else JSt l (f # st))"

fun put_value :: "json \<Rightarrow> frame list \<Rightarrow> jstate" where
  "put_value v [] = JDone v"
| "put_value v (FArr vs # st) = JSt EndValue (FArr (v # vs) # st)"
| "put_value v (FObj kvs (Some k) # st) = JSt EndValue (FObj ((k, v) # kvs) None # st)"
| "put_value v (FObj kvs None # st) = JFail"

fun end_string :: "string \<Rightarrow> frame list \<Rightarrow> jstate" where
  "end_string s (FObj kvs None # st) = JSt AfterKey (FObj kvs (Some s) # st)"
| "end_string s st = put_value (JStr s) st"

definition begin_value :: "char \<Rightarrow> frame list \<Rightarrow> jstate" where
  "begin_value c st =
     (if is_ws c then JSt BeginValue st
      else if c = CHR ''{'' then push (FObj [] None) BeginStringOrEmpty st
      else if c = CHR ''['' then push (FArr []) BeginValueOrEmpty st
      else if c = CHR 0x22 then JSt (InStr []) st
      else if c = CHR ''-'' then JSt (InNum NMinus [c]) st
      else if c = CHR ''0'' then JSt (InNum NZero [c]) st
      else if c = CHR ''t'' then JSt (InLit ''rue'' (JBool True)) st
      else if c = CHR ''f'' then JSt (InLit ''alse'' (JBool False)) st
      else if c = CHR ''n'' then JSt (InLit ''ull'' JNull) st
      else if is_digit c then JSt (InNum NInt [c]) st
      else JFail)"

definition begin_string :: "char \<Rightarrow> frame list \<Rightarrow> jstate" where
  "begin_string c st =
     (if is_ws c then JSt BeginString st
      else if c = CHR 0x22 then JSt (InStr []) st else JFail)"

fun end_value :: "char \<Rightarrow> frame list \<Rightarrow> jstate" where
  "end_value c (FArr vs # st) =
     (if is_ws c then JSt EndValue (FArr vs # st)
      else if c = CHR '','' then JSt BeginValue (FArr vs # st)
      else if c = CHR '']'' then put_value (JArr (rev vs)) st
      else JFail)"
| "end_value c (FObj kvs None # st) =
     (if is_ws c then JSt EndValue (FObj kvs None # st)
      else if c = CHR '','' then JSt BeginString (FObj kvs None # st)
      else if c = CHR ''}'' then put_value (JObj (rev kvs)) st
      else JFail)"
| "end_value c st = JFail"

text \<open>The byte after a number belongs to whatever surrounds it.\<close>

definition after_value :: "jstate \<Rightarrow> char \<Rightarrow> jstate" where
  "after_value s c =
     (case s of
        JDone v \<Rightarrow> if is_ws c then JDone v else JFail
      | JSt l st \<Rightarrow> end_value c st
      | JFail \<Rightarrow> JFail)"

definition end_num :: "string \<Rightarrow> frame list \<Rightarrow> char \<Rightarrow> jstate" where
  "end_num raw st c = after_value (put_value (JNum (rev raw)) st) c"

fun num_step :: "numst \<Rightarrow> string \<Rightarrow> frame list \<Rightarrow> char \<Rightarrow> jstate" where
  "num_step NMinus raw st c =
     (if c = CHR ''0'' then JSt (InNum NZero (c # raw)) st
      else if is_digit c then JSt (InNum NInt (c # raw)) st else JFail)"
| "num_step NZero raw st c =
     (if c = CHR ''.'' then JSt (InNum NDot (c # raw)) st
      else if c = CHR ''e'' \<or> c = CHR ''E'' then JSt (InNum NE (c # raw)) st
      else end_num raw st c)"
| "num_step NInt raw st c =
     (if is_digit c then JSt (InNum NInt (c # raw)) st
      else if c = CHR ''.'' then JSt (InNum NDot (c # raw)) st
      else if c = CHR ''e'' \<or> c = CHR ''E'' then JSt (InNum NE (c # raw)) st
      else end_num raw st c)"
| "num_step NDot raw st c = (if is_digit c then JSt (InNum NFrac (c # raw)) st else JFail)"
| "num_step NFrac raw st c =
     (if is_digit c then JSt (InNum NFrac (c # raw)) st
      else if c = CHR ''e'' \<or> c = CHR ''E'' then JSt (InNum NE (c # raw)) st
      else end_num raw st c)"
| "num_step NE raw st c =
     (if c = CHR ''+'' \<or> c = CHR ''-'' then JSt (InNum NESign (c # raw)) st
      else if is_digit c then JSt (InNum NExp (c # raw)) st else JFail)"
| "num_step NESign raw st c = (if is_digit c then JSt (InNum NExp (c # raw)) st else JFail)"
| "num_step NExp raw st c =
     (if is_digit c then JSt (InNum NExp (c # raw)) st else end_num raw st c)"

definition escapable :: "char \<Rightarrow> bool" where
  "escapable c \<longleftrightarrow> c \<in> {CHR ''b'', CHR ''f'', CHR ''n'', CHR ''r'', CHR ''t'', CHR 0x5C, CHR ''/'', CHR 0x22}"

fun lex_step :: "lex \<Rightarrow> frame list \<Rightarrow> char \<Rightarrow> jstate" where
  "lex_step BeginValue st c = begin_value c st"
| "lex_step BeginValueOrEmpty st c =
     (if is_ws c then JSt BeginValueOrEmpty st
      else if c = CHR '']'' then put_value (JArr []) (tl st)
      else begin_value c st)"
| "lex_step BeginStringOrEmpty st c =
     (if is_ws c then JSt BeginStringOrEmpty st
      else if c = CHR ''}'' then put_value (JObj []) (tl st)
      else begin_string c st)"
| "lex_step BeginString st c = begin_string c st"
| "lex_step (InStr raw) st c =
     (if c = CHR 0x22 then end_string (unquote (rev raw)) st
      else if c = CHR 0x5C then JSt (InStrEsc (c # raw)) st
      else if byte c < 0x20 then JFail
      else JSt (InStr (c # raw)) st)"
| "lex_step (InStrEsc raw) st c =
     (if escapable c then JSt (InStr (c # raw)) st
      else if c = CHR ''u'' then JSt (InStrU 3 (c # raw)) st
      else JFail)"
| "lex_step (InStrU n raw) st c =
     (if hex_val c = None then JFail
      else if n = 0 then JSt (InStr (c # raw)) st
      else JSt (InStrU (n - 1) (c # raw)) st)"
| "lex_step AfterKey st c =
     (if is_ws c then JSt AfterKey st
      else if c = CHR '':'' then JSt BeginValue st else JFail)"
| "lex_step EndValue st c = end_value c st"
| "lex_step (InNum n raw) st c = num_step n raw st c"
| "lex_step (InLit [] v) st c = JFail"
| "lex_step (InLit (x # xs) v) st c =
     (if c \<noteq> x then JFail
      else if xs = [] then put_value v st else JSt (InLit xs v) st)"

fun json_step :: "jstate \<Rightarrow> char \<Rightarrow> jstate" where
  "json_step (JSt l st) c = lex_step l st c"
| "json_step (JDone v) c = (if is_ws c then JDone v else JFail)"
| "json_step JFail c = JFail"

text \<open>At the end of the input the scanner is given one more space, which ends a number.\<close>

definition json_parse :: "string \<Rightarrow> json option" where
  "json_parse s =
     (case foldl json_step (JSt BeginValue []) (s @ '' '') of JDone v \<Rightarrow> Some v | _ \<Rightarrow> None)"

section \<open>Decoding\<close>

datatype unmarshal_error = SyntaxError | UnmarshalTypeError

text \<open>
  Member names are compared after folding; the only characters outside ASCII that fold to
  ASCII letters are U+017F (long s) and U+212A (the Kelvin sign).
\<close>

definition fold_char :: "char \<Rightarrow> char" where
  "fold_char c = (if cont 97 122 c then char_of (byte c - 32) else c)"

fun foldName :: "string \<Rightarrow> string" where
  "foldName [] = []"
| "foldName (a # s) =
     (case s of
        b # t \<Rightarrow>
          if a = CHR 0xC5 \<and> b = CHR 0xBF then CHR ''S'' # foldName t
          else (case t of
                  c # u \<Rightarrow>
                    if a = CHR 0xE2 \<and> b = CHR 0x84 \<and> c = CHR 0xAA then CHR ''K'' # foldName u
                    else fold_char a # foldName s
                | [] \<Rightarrow> fold_char a # foldName s)
      | [] \<Rightarrow> [fold_char a])"

definition names_field :: "string \<Rightarrow> string \<Rightarrow> bool" where
  "names_field key field \<longleftrightarrow> foldName key = foldName field"

definition decode_string :: "json \<Rightarrow> string \<Rightarrow> string option" where
  "decode_string j old = (case j of JNull \<Rightarrow> Some old | JStr s \<Rightarrow> Some s | _ \<Rightarrow> None)"

definition decode_bool :: "json \<Rightarrow> bool \<Rightarrow> bool option" where
  "decode_bool j old = (case j of JNull \<Rightarrow> Some old | JBool b \<Rightarrow> Some b | _ \<Rightarrow> None)"

definition decode_int64 :: "json \<Rightarrow> int64 \<Rightarrow> int64 option" where
  "decode_int64 j old =
     (case j of
        JNull \<Rightarrow> Some old
      | JNum n \<Rightarrow> (case ParseInt n of Inl _ \<Rightarrow> None | Inr x \<Rightarrow> Some x)
      | _ \<Rightarrow> None)"

text \<open>A struct is filled member by member, in the order of the text.\<close>

fun decode_fields :: "(string \<Rightarrow> json \<Rightarrow> 'r \<Rightarrow> 'r option) \<Rightarrow> (string \<times> json) list \<Rightarrow> 'r \<Rightarrow> 'r option" where
  "decode_fields f [] r = Some r"
| "decode_fields f ((k, j) # kvs) r =
     (case f k j r of None \<Rightarrow> None | Some r' \<Rightarrow> decode_fields f kvs r')"

text \<open>A \<open>map[string]T\<close>: every member decodes into a fresh element, and a later one replaces an earlier one.\<close>

fun decode_map :: "(json \<Rightarrow> 'v option) \<Rightarrow> (string \<times> json) list \<Rightarrow> (string \<times> 'v) list \<Rightarrow> (string \<times> 'v) list option" where
  "decode_map f [] m = Some m"
| "decode_map f ((k, j) # kvs) m =
     (case f j of None \<Rightarrow> None | Some v \<Rightarrow> decode_map f kvs (AList.update k v m))"

lemma decode_map_distinct:
  "decode_map f kvs m = Some m' \<Longrightarrow> distinct (map fst m) \<Longrightarrow> distinct (map fst m')"
  by (induction f kvs m rule: decode_map.induct)
     (auto split: option.splits simp: distinct_update)

lemma decode_map_keys:
  "decode_map f kvs m = Some m' \<Longrightarrow> dom (map_of m') = fst ` set kvs \<union> dom (map_of m)"
  by (induction f kvs m rule: decode_map.induct)
     (auto split: option.splits simp: update_conv')

end
