(* ===== verification/JsonEncode.thy ===== *)
theory JsonEncode
  imports Json "HOL-Library.Char_ord" "HOL-Library.List_Lexorder"
begin

text \<open>
  The encoder of Go's \<open>encoding/json\<close>: \<open>json.Marshal\<close> and \<open>json.MarshalIndent\<close> on a tree, with the string encoder
  that escapes control characters, the characters HTML gives a meaning, and the two line
  separators of Unicode, and that replaces invalid UTF-8. The main result is the round
  trip: the scanner of theory \<open>Json\<close> reads back what the encoder writes.

  The orders of the library theories on characters and lists make \<open>\<le>\<close> on strings the bytewise order
  that Go's \<open>sort\<close> of map keys uses.
\<close>

section \<open>Strings\<close>

definition hex_digit :: "nat \<Rightarrow> char" where
  "hex_digit n = (if n < 10 then char_of (48 + n) else char_of (87 + n))"

definition html_safe :: "char \<Rightarrow> bool" where
  "html_safe c \<longleftrightarrow> 0x20 \<le> byte c \<and> byte c < 0x80 \<and>
     c \<notin> {CHR 0x22, CHR 0x5C, CHR ''<'', CHR ''>'', CHR ''&''}"

definition escape_byte :: "char \<Rightarrow> string" where
  "escape_byte c =
     (if c = CHR 0x5C \<or> c = CHR 0x22 then [CHR 0x5C, c]
      else if c = CHR 0x08 then [CHR 0x5C, CHR ''b'']
      else if c = CHR 0x0C then [CHR 0x5C, CHR ''f'']
      else if c = CHR 0x0A then [CHR 0x5C, CHR ''n'']
      else if c = CHR 0x0D then [CHR 0x5C, CHR ''r'']
      else if c = CHR 0x09 then [CHR 0x5C, CHR ''t'']
      else [CHR 0x5C, CHR ''u'', CHR ''0'', CHR ''0'', hex_digit (byte c div 16), hex_digit (byte c mod 16)])"

text \<open>One round of the loop of \<open>appendString\<close>: the bytes written and the rest of the input.\<close>

definition quote_round :: "string \<Rightarrow> string \<times> string" where
  "quote_round s =
     (case s of
        [] \<Rightarrow> ([], [])
      | c # cs \<Rightarrow>
          if byte c < 0x80 then (if html_safe c then [c] else escape_byte c, cs)
          else if rune_len s = 0 then (CHR 0x5C # ''ufffd'', cs)
          else if take 3 s = [CHR 0xE2, CHR 0x80, CHR 0xA8] then (CHR 0x5C # ''u2028'', drop 3 s)
          else if take 3 s = [CHR 0xE2, CHR 0x80, CHR 0xA9] then (CHR 0x5C # ''u2029'', drop 3 s)
          else (take (rune_len s) s, drop (rune_len s) s))"

lemma quote_round_less: "s \<noteq> [] \<Longrightarrow> length (snd (quote_round s)) < length s"
  by (auto simp: quote_round_def split: list.splits)

function quote_body :: "string \<Rightarrow> string" where
  "quote_body s = (if s = [] then [] else fst (quote_round s) @ quote_body (snd (quote_round s)))"
  by pat_completeness auto
termination
  by (relation "measure length") (auto simp: quote_round_less)

declare quote_body.simps [simp del]

definition appendString :: "string \<Rightarrow> string" where
  "appendString s = CHR 0x22 # quote_body s @ [CHR 0x22]"

text \<open>The string with every byte that is not part of a well-formed sequence replaced by U+FFFD.\<close>

function to_valid :: "string \<Rightarrow> string" where
  "to_valid s =
     (if s = [] then []
      else if rune_len s = 0 then replacement @ to_valid (tl s)
      else take (rune_len s) s @ to_valid (drop (rune_len s) s))"
  by pat_completeness auto
termination
  by (relation "measure length") auto

declare to_valid.simps [simp del]

definition valid_utf8 :: "string \<Rightarrow> bool" where
  "valid_utf8 s \<longleftrightarrow> to_valid s = s"

section \<open>Trees\<close>

text \<open>The layout is compact (\<open>None\<close>) or indented by a string per level.\<close>

definition newline :: "string option \<Rightarrow> nat \<Rightarrow> string" where
  "newline ind d = (case ind of None \<Rightarrow> [] | Some s \<Rightarrow> CHR 0x0A # concat (replicate d s))"

definition colon :: "string option \<Rightarrow> string" where
  "colon ind = (case ind of None \<Rightarrow> '':'' | Some _ \<Rightarrow> '': '')"

definition separated :: "string \<Rightarrow> string list \<Rightarrow> string" where
  "separated sep xs = (case xs of [] \<Rightarrow> [] | x # ys \<Rightarrow> x @ concat (map (\<lambda>y. sep @ y) ys))"

fun marshal_at :: "string option \<Rightarrow> nat \<Rightarrow> json \<Rightarrow> string" where
  "marshal_at ind d JNull = ''null''"
| "marshal_at ind d (JBool b) = (if b then ''true'' else ''false'')"
| "marshal_at ind d (JNum n) = n"
| "marshal_at ind d (JStr s) = appendString s"
| "marshal_at ind d (JArr vs) =
     (if vs = [] then ''[]''
      else ''['' @ newline ind (Suc d) @
        separated ('','' @ newline ind (Suc d)) (map (marshal_at ind (Suc d)) vs) @
        newline ind d @ '']'')"
| "marshal_at ind d (JObj kvs) =
     (if kvs = [] then ''{}''
      else ''{'' @ newline ind (Suc d) @
        separated ('','' @ newline ind (Suc d))
          (map (\<lambda>kv. appendString (fst kv) @ colon ind @ marshal_at ind (Suc d) (snd kv)) kvs) @
        newline ind d @ ''}'')"

definition Marshal :: "json \<Rightarrow> string" where
  "Marshal j = marshal_at None 0 j"

definition MarshalIndent :: "string \<Rightarrow> json \<Rightarrow> string" where
  "MarshalIndent ind j = marshal_at (Some ind) 0 j"

section \<open>Strings are read back\<close>

lemma byte_less: "byte c < 256"
  by (simp add: byte_def)

lemma byte_inj: "byte c = byte c' \<longleftrightarrow> c = c'"
  by (simp add: byte_def)

lemma char_of_byte [simp]: "char_of (byte c) = c"
  by (simp add: byte_def)

lemma hex_digit_val: "n < 16 \<Longrightarrow> hex_val (hex_digit n) = Some n"
  by (auto simp: hex_val_def hex_digit_def is_digit_def digit_val_def cont_def byte_def)

lemma rune_len_ascii: "byte c < 0x80 \<Longrightarrow> rune_len (c # cs) = 1"
  by (simp add: rune_len.simps cont_def)

text \<open>
  The length depends on the bytes of the sequence only, and a sequence that begins above
  ASCII stays there.
\<close>

definition lead3 :: "char \<Rightarrow> char \<Rightarrow> bool" where
  "lead3 a b \<longleftrightarrow> cont (if byte a = 0xE0 then 0xA0 else 0x80) (if byte a = 0xED then 0x9F else 0xBF) b"

definition lead4 :: "char \<Rightarrow> char \<Rightarrow> bool" where
  "lead4 a b \<longleftrightarrow> cont (if byte a = 0xF0 then 0x90 else 0x80) (if byte a = 0xF4 then 0x8F else 0xBF) b"

lemma lead_high: "lead3 a b \<Longrightarrow> 0x80 \<le> byte b" "lead4 a b \<Longrightarrow> 0x80 \<le> byte b"
  by (auto simp: lead3_def lead4_def cont_def split: if_splits)

lemma rune_len_Cons:
  "rune_len (a # r) =
     (if cont 0 0x7F a then 1
      else if cont 0xC2 0xDF a then (case r of b # _ \<Rightarrow> if cont 0x80 0xBF b then 2 else 0 | _ \<Rightarrow> 0)
      else if cont 0xE0 0xEF a then
        (case r of b # c # _ \<Rightarrow> if lead3 a b \<and> cont 0x80 0xBF c then 3 else 0 | _ \<Rightarrow> 0)
      else if cont 0xF0 0xF4 a then
        (case r of b # c # d # _ \<Rightarrow> if lead4 a b \<and> cont 0x80 0xBF c \<and> cont 0x80 0xBF d then 4 else 0 | _ \<Rightarrow> 0)
      else 0)"
  unfolding rune_len.simps lead3_def lead4_def ..

lemma rune_len_prefix:
  assumes "rune_len s \<noteq> 0"
  shows "rune_len (take (rune_len s) s @ t) = rune_len s" and "rune_len s \<le> length s"
  using assms
  by (cases s; simp add: rune_len.simps(1); auto simp: rune_len_Cons split: list.splits if_splits)+

lemma rune_high_bytes:
  assumes "0x80 \<le> byte (hd s)" and "x \<in> set (take (rune_len s) s)"
  shows "0x80 \<le> byte x"
proof (cases s)
  case Nil
  then show ?thesis using assms by simp
next
  case (Cons a r)
  have "cont 0x80 0xBF y \<Longrightarrow> 0x80 \<le> byte y" for y
    by (simp add: cont_def)
  with Cons show ?thesis
    using assms lead_high by (auto simp: rune_len_Cons split: list.splits if_splits)
qed

lemma unquote_Nil [simp]: "unquote [] = []"
  by (simp add: unquote.simps)

lemma unquote_step: "s \<noteq> [] \<Longrightarrow> unquote s = fst (unquote_round s) @ unquote (snd (unquote_round s))"
  by (simp add: unquote.simps [of s])

lemma unquote_u4:
  assumes "hex_val a = Some w" "hex_val b = Some x" "hex_val c = Some y" "hex_val d = Some z"
    and "r = ((w * 16 + x) * 16 + y) * 16 + z" and "\<not> high_surrogate r"
  shows "unquote (CHR 0x5C # CHR ''u'' # a # b # c # d # t) = encode_rune r @ unquote t"
proof -
  have "getu4 (CHR 0x5C # CHR ''u'' # a # b # c # d # t) = Some r"
    using assms(1-5) by simp
  then have "unquote_round (CHR 0x5C # CHR ''u'' # a # b # c # d # t) = (encode_rune r, t)"
    using assms(6) by (simp add: unquote_round_def split: option.split del: getu4.simps)
  then show ?thesis
    by (simp add: unquote_step)
qed

lemma unquote_short:
  assumes "e \<noteq> CHR ''u''"
  shows "unquote (CHR 0x5C # e # t) = unescape e # unquote t"
proof -
  have "getu4 (CHR 0x5C # e # t) = None"
    using assms by (cases "CHR 0x5C # e # t" rule: getu4.cases) auto
  then have "unquote_round (CHR 0x5C # e # t) = ([unescape e], t)"
    by (simp add: unquote_round_def)
  then show ?thesis
    by (simp add: unquote_step)
qed

lemma unquote_rune:
  assumes "rune_len s \<noteq> 0" and "hd s \<noteq> CHR 0x5C"
  shows "unquote (take (rune_len s) s @ t) = take (rune_len s) s @ unquote t"
proof -
  let ?u = "take (rune_len s) s"
  have u: "?u \<noteq> []" and len: "length ?u = rune_len s" and hd: "hd ?u \<noteq> CHR 0x5C"
    using assms rune_len_prefix(2) [OF assms(1)] by (cases s; auto)+
  then obtain c cs where cs: "?u = c # cs"
    by (cases ?u) auto
  have "take (rune_len s) (?u @ t) = ?u" "drop (rune_len s) (?u @ t) = t"
    using len by simp_all
  then have "unquote_round (?u @ t) = (?u, t)"
    using rune_len_prefix(1) [OF assms(1), of t] assms(1) hd cs
    by (simp add: unquote_round_def)
  then show ?thesis
    using u by (simp add: unquote_step)
qed

lemma unquote_escape:
  assumes "byte c < 0x80" and "\<not> html_safe c"
  shows "unquote (escape_byte c @ t) = c # unquote t"
proof -
  consider "c \<in> {CHR 0x5C, CHR 0x22, CHR 0x08, CHR 0x0C, CHR 0x0A, CHR 0x0D, CHR 0x09}"
    | "escape_byte c = [CHR 0x5C, CHR ''u'', CHR ''0'', CHR ''0'', hex_digit (byte c div 16), hex_digit (byte c mod 16)]"
    unfolding escape_byte_def by (cases "c \<in> {CHR 0x5C, CHR 0x22, CHR 0x08, CHR 0x0C, CHR 0x0A, CHR 0x0D, CHR 0x09}") auto
  then show ?thesis
  proof cases
    case 1
    then show ?thesis
      by (auto simp: escape_byte_def unquote_short unescape_def)
  next
    case 2
    have "unquote (escape_byte c @ t) = encode_rune (byte c) @ unquote t"
      unfolding 2 append.simps
      by (rule unquote_u4 [OF _ _ hex_digit_val hex_digit_val, where w = 0 and x = 0])
         (use assms in \<open>auto simp: hex_val_def is_digit_def digit_val_def high_surrogate_def\<close>)
    then show ?thesis
      using assms by (simp add: encode_rune_def)
  qed
qed

lemma encode_rune_values:
  "encode_rune 0xFFFD = replacement"
  "encode_rune 0x2028 = [CHR 0xE2, CHR 0x80, CHR 0xA8]"
  "encode_rune 0x2029 = [CHR 0xE2, CHR 0x80, CHR 0xA9]"
  by (simp_all add: encode_rune_def replacement_def char_of_def bit_0)

text \<open>Every round writes something that reads back as what it consumed, repaired.\<close>

lemma quote_round_read:
  assumes "s \<noteq> []"
  shows "unquote (fst (quote_round s) @ t) =
    (if rune_len s = 0 then replacement else take (rune_len s) s) @ unquote t"
    and "snd (quote_round s) = (if rune_len s = 0 then tl s else drop (rune_len s) s)"
proof -
  obtain c cs where s: "s = c # cs"
    using assms by (cases s) auto
  have fffd: "unquote (CHR 0x5C # ''ufffd'' @ t) = replacement @ unquote t"
    using unquote_u4 [where a = "CHR ''f''" and w = 15 and b = "CHR ''f''" and x = 15 and c = "CHR ''f''" and y = 15 and d = "CHR ''d''" and z = 13
      and r = "0xFFFD" and t = t]
    by (simp add: hex_val_def is_digit_def cont_def byte_def high_surrogate_def encode_rune_values)
  have u2028: "unquote (CHR 0x5C # ''u2028'' @ t) = [CHR 0xE2, CHR 0x80, CHR 0xA8] @ unquote t"
    using unquote_u4 [where a = "CHR ''2''" and w = 2 and b = "CHR ''0''" and x = 0 and c = "CHR ''2''" and y = 2 and d = "CHR ''8''" and z = 8
      and r = "0x2028" and t = t]
    by (simp add: hex_val_def is_digit_def digit_val_def high_surrogate_def encode_rune_values)
  have u2029: "unquote (CHR 0x5C # ''u2029'' @ t) = [CHR 0xE2, CHR 0x80, CHR 0xA9] @ unquote t"
    using unquote_u4 [where a = "CHR ''2''" and w = 2 and b = "CHR ''0''" and x = 0 and c = "CHR ''2''" and y = 2 and d = "CHR ''9''" and z = 9
      and r = "0x2029" and t = t]
    by (simp add: hex_val_def is_digit_def digit_val_def high_surrogate_def encode_rune_values)
  have three: "rune_len s = 3" if "take 3 s = [CHR 0xE2, CHR 0x80, x]" "x \<in> {CHR 0xA8, CHR 0xA9}" for x
    using that unfolding s by (cases cs; cases "tl cs") (auto simp: rune_len.simps cont_def byte_def)
  have ascii: "unquote (c # t) = c # unquote t" if "html_safe c"
    using that unquote_rune [of "[c]" t] rune_len_ascii [of c "[]"] by (auto simp: html_safe_def)
  show "unquote (fst (quote_round s) @ t) =
    (if rune_len s = 0 then replacement else take (rune_len s) s) @ unquote t"
  proof (cases "byte c < 0x80")
    case True
    then show ?thesis
      using ascii unquote_escape [OF True, of t] rune_len_ascii [OF True, of cs]
      by (simp add: quote_round_def s)
  next
    case False
    then have "hd s \<noteq> CHR 0x5C"
      by (auto simp: s byte_def)
    then show ?thesis
      using False fffd u2028 u2029 three unquote_rune [of s t] s
      by (simp add: quote_round_def split: if_splits)
  qed
  show "snd (quote_round s) = (if rune_len s = 0 then tl s else drop (rune_len s) s)"
    using three rune_len_ascii [of c cs] by (auto simp: quote_round_def s)
qed

lemma unquote_quote: "unquote (quote_body s) = to_valid s"
proof (induction s rule: quote_body.induct)
  case (1 s)
  then show ?case
    by (subst quote_body.simps, subst to_valid.simps) (auto simp: quote_round_read)
qed

section \<open>The scanner on strings\<close>

definition plain :: "char \<Rightarrow> bool" where
  "plain c \<longleftrightarrow> c \<noteq> CHR 0x22 \<and> c \<noteq> CHR 0x5C \<and> 0x20 \<le> byte c"

abbreviation scan :: "jstate \<Rightarrow> string \<Rightarrow> jstate" where
  "scan \<equiv> foldl json_step"

lemma scan_plain: "list_all plain xs \<Longrightarrow> scan (JSt (InStr raw) st) xs = JSt (InStr (rev xs @ raw)) st"
  by (induction xs arbitrary: raw) (auto simp: plain_def)

lemma scan_u4:
  assumes "hex_val a \<noteq> None" "hex_val b \<noteq> None" "hex_val c \<noteq> None" "hex_val d \<noteq> None"
  shows "scan (JSt (InStr raw) st) [CHR 0x5C, CHR ''u'', a, b, c, d] =
    JSt (InStr (rev [CHR 0x5C, CHR ''u'', a, b, c, d] @ raw)) st"
  using assms by (simp add: escapable_def)

lemma scan_escape:
  assumes "byte c < 0x80" and "\<not> html_safe c"
  shows "scan (JSt (InStr raw) st) (escape_byte c) = JSt (InStr (rev (escape_byte c) @ raw)) st"
proof -
  consider "c \<in> {CHR 0x5C, CHR 0x22, CHR 0x08, CHR 0x0C, CHR 0x0A, CHR 0x0D, CHR 0x09}"
    | "escape_byte c = [CHR 0x5C, CHR ''u'', CHR ''0'', CHR ''0'', hex_digit (byte c div 16), hex_digit (byte c mod 16)]"
    unfolding escape_byte_def by (cases "c \<in> {CHR 0x5C, CHR 0x22, CHR 0x08, CHR 0x0C, CHR 0x0A, CHR 0x0D, CHR 0x09}") auto
  then show ?thesis
  proof cases
    case 1
    then show ?thesis by (auto simp: escape_byte_def escapable_def)
  next
    case 2
    show ?thesis
      unfolding 2 by (rule scan_u4) (use assms(1) in \<open>simp_all add: hex_digit_val, simp_all add: hex_val_def is_digit_def\<close>)
  qed
qed

lemma scan_quote_round:
  assumes "s \<noteq> []"
  shows "scan (JSt (InStr raw) st) (fst (quote_round s)) = JSt (InStr (rev (fst (quote_round s)) @ raw)) st"
proof -
  obtain c cs where s: "s = c # cs"
    using assms by (cases s) auto
  show ?thesis
  proof (cases "byte c < 0x80")
    case True
    then show ?thesis
      using scan_escape [OF True] scan_plain [of "[c]" raw st]
      by (simp add: quote_round_def s html_safe_def plain_def)
  next
    case False
    have "list_all plain (take (rune_len s) s)"
      using rune_high_bytes [of s] False by (force simp: s list_all_iff plain_def byte_def)
    moreover have "hex_val x \<noteq> None" if "x \<in> set ''ufd20289''" "x \<noteq> CHR ''u''" for x
      using that by (auto simp: hex_val_def is_digit_def cont_def byte_def)
    ultimately show ?thesis
      using False scan_plain [of "take (rune_len s) s" raw st] scan_u4 [of _ _ _ _ raw st]
      by (simp add: quote_round_def s del: foldl.simps rev.simps)
  qed
qed

lemma scan_quote_body: "scan (JSt (InStr raw) st) (quote_body s) = JSt (InStr (rev (quote_body s) @ raw)) st"
proof (induction s arbitrary: raw rule: quote_body.induct)
  case (1 s)
  then show ?case
    by (cases "s = []")
       (simp add: quote_body.simps, subst (1 2) quote_body.simps, simp add: scan_quote_round)
qed

lemma scan_string:
  "scan (JSt (InStr []) st) (quote_body s @ CHR 0x22 # t) = scan (end_string (to_valid s) st) t"
  by (simp add: scan_quote_body unquote_quote)

section \<open>Numbers\<close>

lemma decimal_0: "decimal 0 = ''0''"
  by (simp add: decimal.simps char_of_def bit_0)

lemma digit_char: "n < 10 \<Longrightarrow> is_digit (char_of (48 + n))" "n < 10 \<Longrightarrow> digit_val (char_of (48 + n)) = n"
  by (simp_all add: is_digit_def digit_val_def)

lemma decimal_numeral: "is_numeral (decimal n)" "numeral_val (decimal n) = n"
proof (induction n rule: decimal.induct)
  case (1 n)
  {
    case 1
    then show ?case
      using "1.IH"(1) by (subst decimal.simps) (auto simp: is_numeral_def digit_char)
  next
    case 2
    then show ?case
      using "1.IH"(2) by (subst decimal.simps) (auto simp: numeral_val_def digit_char)
  }
qed

lemma decimal_head: "0 < n \<Longrightarrow> hd (decimal n) \<noteq> CHR ''0'' \<and> is_digit (hd (decimal n))"
proof (induction n rule: decimal.induct)
  case (1 n)
  show ?case
  proof (cases "n < 10")
    case True
    have "digit_val (CHR ''0'') = 0"
      by (simp add: digit_val_def)
    then have "char_of (48 + n) \<noteq> CHR ''0''"
      using digit_char(2) [OF True] 1 by (metis less_irrefl)
    then show ?thesis
      using True by (simp add: decimal.simps [of n] digit_char)
  next
    case False
    then have "decimal n = decimal (n div 10) @ [char_of (48 + n mod 10)]" "decimal (n div 10) \<noteq> []"
      using decimal_numeral(1) [of "n div 10"] by (simp_all add: decimal.simps [of n] is_numeral_def)
    then show ?thesis
      using 1 False by simp
  qed
qed

lemma ParseInt_Itoa: "ParseInt (Itoa (sint x)) = Inr (x :: int64)"
proof -
  have head: "hd (decimal n) \<noteq> CHR ''-'' \<and> hd (decimal n) \<noteq> CHR ''+''" "decimal n \<noteq> []" for n
    using decimal_numeral(1) [of n] by (cases "decimal n"; auto simp: is_numeral_def is_digit_def)+
  have "parses_as (Itoa (sint x)) (sint x)"
    using sint_int64_bounds [of x] head decimal_numeral
    by (auto simp: parses_as_def Itoa_def int_val_def strip_sign_def)
  from parses_as_ParseInt [OF this] show ?thesis by simp
qed

definition num_char :: "char \<Rightarrow> bool" where
  "num_char c \<longleftrightarrow> is_digit c \<or> c = CHR ''.'' \<or> c = CHR ''e'' \<or> c = CHR ''E''"

lemma after_put: "after_value (put_value v st) c = json_step (put_value v st) c"
  by (cases "(v, st)" rule: put_value.cases) (auto simp: after_value_def)

lemma scan_digits:
  "list_all is_digit ds \<Longrightarrow> scan (JSt (InNum NInt raw) st) ds = JSt (InNum NInt (rev ds @ raw)) st"
  by (induction ds arbitrary: raw) auto

lemma scan_int_end:
  assumes "n \<in> {NInt, NZero}" and "rest \<noteq> []" and "\<not> num_char (hd rest)"
  shows "scan (JSt (InNum n raw) st) rest = scan (put_value (JNum (rev raw)) st) rest"
  using assms by (cases rest) (auto simp: num_char_def end_num_def after_put)

lemma scan_decimal:
  assumes "rest \<noteq> []" and "\<not> num_char (hd rest)" and "l = BeginValue \<and> raw = [] \<or> l = InNum NMinus raw"
  shows "scan (JSt l st) (decimal n @ rest) = scan (put_value (JNum (rev raw @ decimal n)) st) rest"
proof (cases "n = 0")
  case True
  have "json_step (JSt l st) (CHR ''0'') = JSt (InNum NZero (CHR ''0'' # raw)) st"
    using assms(3) by (auto simp: begin_value_def is_ws_def)
  then show ?thesis
    using scan_int_end [OF _ assms(1,2), of NZero "CHR ''0'' # raw" st] by (simp add: True decimal_0)
next
  case False
  obtain c cs where dec: "decimal n = c # cs"
    using decimal_numeral(1) [of n] by (cases "decimal n") (auto simp: is_numeral_def)
  have c: "c \<noteq> CHR ''0''" "is_digit c" and cs: "list_all is_digit cs"
    using decimal_head [of n] decimal_numeral(1) [of n] False by (auto simp: dec is_numeral_def)
  have "\<not> is_ws c" "c \<noteq> CHR ''{''" "c \<noteq> CHR ''[''" "c \<noteq> CHR 0x22" "c \<noteq> CHR ''-''" "c \<noteq> CHR ''t''" "c \<noteq> CHR ''f''"
    "c \<noteq> CHR ''n''"
    using c(2) by (auto simp: is_ws_def is_digit_def)
  then have "json_step (JSt l st) c = JSt (InNum NInt (c # raw)) st"
    using assms(3) c by (elim disjE) (simp_all add: begin_value_def)
  then show ?thesis
    using scan_int_end [OF _ assms(1,2), of NInt "rev cs @ c # raw" st] by (simp add: dec scan_digits [OF cs])
qed

lemma scan_Itoa:
  assumes "rest \<noteq> []" and "\<not> num_char (hd rest)"
  shows "scan (JSt BeginValue st) (Itoa i @ rest) = scan (put_value (JNum (Itoa i)) st) rest"
proof (cases "i < 0")
  case True
  have "json_step (JSt BeginValue st) (CHR ''-'') = JSt (InNum NMinus ''-'') st"
    by (simp add: begin_value_def is_ws_def)
  then show ?thesis
    using True scan_decimal [OF assms, of "InNum NMinus ''-''" "''-''" st "nat (- i)"] by (simp add: Itoa_def)
next
  case False
  then show ?thesis
    using scan_decimal [OF assms, of BeginValue "[]" st "nat i"] by (simp add: Itoa_def)
qed

section \<open>Values\<close>

text \<open>
  The trees the encoder is given: numbers are integers, strings are valid UTF-8, and at most
  \<open>n\<close> arrays and objects are nested.
\<close>

fun json_ok :: "nat \<Rightarrow> json \<Rightarrow> bool" where
  "json_ok n (JNum s) \<longleftrightarrow> (\<exists>i. s = Itoa i)"
| "json_ok n (JStr s) \<longleftrightarrow> valid_utf8 s"
| "json_ok n (JArr vs) \<longleftrightarrow> 0 < n \<and> (\<forall>v \<in> set vs. json_ok (n - 1) v)"
| "json_ok n (JObj kvs) \<longleftrightarrow> 0 < n \<and> (\<forall>kv \<in> set kvs. valid_utf8 (fst kv) \<and> json_ok (n - 1) (snd kv))"
| "json_ok n j \<longleftrightarrow> True"

lemma json_ok_mono: "json_ok n j \<Longrightarrow> n \<le> m \<Longrightarrow> json_ok m j"
proof (induction n j arbitrary: m rule: json_ok.induct)
  case (3 n vs)
  then show ?case by (auto intro: diff_le_mono)
next
  case (4 n kvs)
  then show ?case by (auto intro: diff_le_mono)
qed auto

definition value_pos :: "frame list \<Rightarrow> bool" where
  "value_pos st \<longleftrightarrow> (\<forall>kvs st'. st \<noteq> FObj kvs None # st')"

lemma end_string_value: "value_pos st \<Longrightarrow> end_string s st = put_value (JStr s) st"
  by (cases "(s, st)" rule: end_string.cases) (auto simp: value_pos_def)

lemma value_pos_intros [simp]: "value_pos (FArr vs # st)" "value_pos (FObj kvs (Some k) # st)" "value_pos []"
  by (simp_all add: value_pos_def)

definition ws_layout :: "string option \<Rightarrow> bool" where
  "ws_layout ind \<longleftrightarrow> (\<forall>s. ind = Some s \<longrightarrow> list_all is_ws s)"

lemma newline_ws: "ws_layout ind \<Longrightarrow> list_all is_ws (newline ind d)"
  by (cases ind; induction d) (simp_all add: newline_def ws_layout_def is_ws_def)

lemma colon_split: "\<exists>w. colon ind = CHR '':'' # w \<and> list_all is_ws w"
  by (cases ind) (simp_all add: colon_def is_ws_def)

definition keeps_ws :: "jstate \<Rightarrow> bool" where
  "keeps_ws s \<longleftrightarrow> (\<forall>c. is_ws c \<longrightarrow> json_step s c = s)"

lemma keeps_ws:
  "keeps_ws (JSt BeginValue st)" "keeps_ws (JSt BeginValueOrEmpty st)" "keeps_ws (JSt BeginString st)"
  "keeps_ws (JSt BeginStringOrEmpty st)" "keeps_ws (JSt EndValue (FArr vs # st))"
  "keeps_ws (JSt EndValue (FObj kvs None # st))"
  by (simp_all add: keeps_ws_def begin_value_def begin_string_def)

lemma scan_keeps: "keeps_ws s \<Longrightarrow> list_all is_ws w \<Longrightarrow> scan s w = s"
  by (induction w) (simp_all add: keeps_ws_def)

lemmas scan_ws = keeps_ws [THEN scan_keeps]

lemma valid_read: "valid_utf8 s \<Longrightarrow> json_step (scan (JSt (InStr []) st) (quote_body s)) (CHR 0x22) = end_string s st"
  using scan_string [of st s "[]"] by (simp add: valid_utf8_def del: json_step.simps)

text \<open>What the scanner does with the text of a value at the place where a value may begin.\<close>

definition reads_back :: "(json \<Rightarrow> string) \<Rightarrow> nat \<Rightarrow> json \<Rightarrow> bool" where
  "reads_back m n j \<longleftrightarrow>
     (\<forall>st rest. n + length st \<le> max_depth \<longrightarrow> value_pos st \<longrightarrow> rest \<noteq> [] \<longrightarrow> \<not> num_char (hd rest) \<longrightarrow>
        scan (JSt BeginValue st) (m j @ rest) = scan (put_value j st) rest)"

lemma reads_backD:
  "reads_back m n j \<Longrightarrow> n + length st \<le> max_depth \<Longrightarrow> value_pos st \<Longrightarrow> rest \<noteq> [] \<Longrightarrow> \<not> num_char (hd rest) \<Longrightarrow>
     scan (JSt BeginValue st) (m j @ rest) = scan (put_value j st) rest"
  by (auto simp: reads_back_def)

lemma list_rest_head:
  assumes "hd sep = CHR '',''" and "sep \<noteq> []" and "c = CHR '']'' \<or> c = CHR ''}''"
  shows "concat (map (\<lambda>y. sep @ f y) ys) @ newline ind d @ c # t \<noteq> []"
    and "\<not> num_char (hd (concat (map (\<lambda>y. sep @ f y) ys) @ newline ind d @ c # t))"
  using assms by (cases ys; cases sep; cases ind; auto simp: newline_def num_char_def is_digit_def)+

lemma scan_elements:
  assumes "ws_layout ind" and "Suc n + length st \<le> max_depth" and "\<forall>v \<in> set vs. reads_back m n v"
  shows "scan (JSt EndValue (FArr acc # st))
      (concat (map (\<lambda>v. ('','' @ newline ind e) @ m v) vs) @ newline ind d @ CHR '']'' # t) =
    scan (put_value (JArr (rev acc @ vs)) st) t"
  using assms(3)
proof (induction vs arbitrary: acc)
  case Nil
  show ?case
    using newline_ws [OF assms(1), of d] by (simp add: scan_ws is_ws_def)
next
  case (Cons v vs)
  let ?rest = "concat (map (\<lambda>v. ('','' @ newline ind e) @ m v) vs) @ newline ind d @ CHR '']'' # t"
  have "scan (JSt BeginValue (FArr acc # st)) (m v @ ?rest) = scan (put_value v (FArr acc # st)) ?rest"
    by (rule reads_backD [OF _ _ _ list_rest_head]) (use Cons.prems assms(2) in auto)
  with Cons show ?case
    using newline_ws [OF assms(1), of e] by (simp add: scan_ws is_ws_def)
qed

lemma scan_member:
  assumes "valid_utf8 k" and "reads_back m n v" and "Suc n + length st \<le> max_depth"
    and "rest \<noteq> []" and "\<not> num_char (hd rest)"
  shows "scan (JSt (InStr []) (FObj acc None # st)) (quote_body k @ CHR 0x22 # colon ind @ m v @ rest) =
    scan (JSt EndValue (FObj ((k, v) # acc) None # st)) rest"
proof -
  obtain w where w: "colon ind = CHR '':'' # w" "list_all is_ws w"
    using colon_split by blast
  show ?thesis
    using reads_backD [OF assms(2) _ _ assms(4,5), of "FObj acc (Some k) # st"] assms(3)
    by (simp add: valid_read [OF assms(1)] w(1) scan_ws(1) [OF w(2)] is_ws_def)
qed

lemma scan_members:
  assumes "ws_layout ind" and "Suc n + length st \<le> max_depth"
    and "\<forall>kv \<in> set kvs. valid_utf8 (fst kv) \<and> reads_back m n (snd kv)"
  shows "scan (JSt EndValue (FObj acc None # st))
      (concat (map (\<lambda>kv. ('','' @ newline ind e) @ appendString (fst kv) @ colon ind @ m (snd kv)) kvs) @
        newline ind d @ CHR ''}'' # t) =
    scan (put_value (JObj (rev acc @ kvs)) st) t"
  using assms(3)
proof (induction kvs arbitrary: acc)
  case Nil
  show ?case
    using newline_ws [OF assms(1), of d] by (simp add: scan_ws is_ws_def)
next
  case (Cons kv kvs)
  obtain k v where kv: "kv = (k, v)"
    by (cases kv)
  let ?rest = "concat (map (\<lambda>kv. ('','' @ newline ind e) @ appendString (fst kv) @ colon ind @ m (snd kv)) kvs) @
        newline ind d @ CHR ''}'' # t"
  have "scan (JSt (InStr []) (FObj acc None # st)) (quote_body k @ CHR 0x22 # colon ind @ m v @ ?rest) =
    scan (JSt EndValue (FObj ((k, v) # acc) None # st)) ?rest"
    by (rule scan_member [OF _ _ assms(2) list_rest_head]) (use Cons.prems kv in auto)
  also have "\<dots> = scan (put_value (JObj (rev ((k, v) # acc) @ kvs)) st) t"
    by (rule Cons.IH) (use Cons.prems in auto)
  finally show ?case
    using newline_ws [OF assms(1), of e] by (simp add: kv scan_ws is_ws_def begin_string_def appendString_def)
qed

lemma separated_Cons: "separated sep (x # xs) = x @ concat (map (\<lambda>y. sep @ y) xs)"
  by (simp add: separated_def)

lemma scan_push:
  assumes "Suc (length st) \<le> max_depth"
  shows "json_step (JSt BeginValue st) (CHR ''{'') = JSt BeginStringOrEmpty (FObj [] None # st)"
    and "json_step (JSt BeginValue st) (CHR ''['') = JSt BeginValueOrEmpty (FArr [] # st)"
  using assms by (simp_all add: begin_value_def is_ws_def push_def)

text \<open>The first element: the empty list was possible up to here, so the state differs from that after a comma.\<close>

lemma begin_or_empty:
  "c \<noteq> CHR '']'' \<Longrightarrow> \<not> is_ws c \<Longrightarrow> json_step (JSt BeginValueOrEmpty st) c = json_step (JSt BeginValue st) c"
  by simp

lemma is_ws_simps [simp]: "\<not> is_ws (CHR 0x22)" "\<not> is_ws (CHR ''{'')" "\<not> is_ws (CHR ''['')" "\<not> is_ws (CHR ''}'')" "\<not> is_ws (CHR '']'')"
  by (simp_all add: is_ws_def)

definition starts_value :: "string \<Rightarrow> bool" where
  "starts_value s \<longleftrightarrow> s \<noteq> [] \<and> hd s \<noteq> CHR '']'' \<and> \<not> is_ws (hd s)"

lemma Itoa_starts: "starts_value (Itoa i)"
proof -
  have "decimal n \<noteq> [] \<and> is_digit (hd (decimal n))" for n
    using decimal_numeral(1) [of n] by (cases "decimal n") (auto simp: is_numeral_def)
  moreover have "c \<noteq> CHR '']'' \<and> \<not> is_ws c" if "is_digit c" for c
    using that by (auto simp: is_digit_def is_ws_def)
  ultimately show ?thesis
    by (auto simp: starts_value_def Itoa_def is_ws_def)
qed

lemma marshal_starts: "json_ok n j \<Longrightarrow> starts_value (marshal_at ind d j)"
  by (cases j) (auto simp: Itoa_starts, auto simp: starts_value_def appendString_def is_ws_def)

lemma scan_first:
  "starts_value s \<Longrightarrow> scan (JSt BeginValueOrEmpty st) (s @ t) = scan (JSt BeginValue st) (s @ t)"
  by (cases s) (simp_all add: starts_value_def)

lemma array_reads_back:
  assumes ind: "ws_layout ind"
    and vs: "\<forall>v \<in> set vs. json_ok n v \<and> reads_back (marshal_at ind (Suc d)) n v"
  shows "reads_back (marshal_at ind d) (Suc n) (JArr vs)"
proof (unfold reads_back_def, intro allI impI)
  fix st :: "frame list" and rest :: string
  assume st: "Suc n + length st \<le> max_depth"
  note push = scan_push(2) [of st]
  show "scan (JSt BeginValue st) (marshal_at ind d (JArr vs) @ rest) = scan (put_value (JArr vs) st) rest"
  proof (cases vs)
    case Nil
    then show ?thesis using push st by simp
  next
    case (Cons v ws)
    let ?sep = "'','' @ newline ind (Suc d)" and ?m = "marshal_at ind (Suc d)"
    let ?tail = "concat (map (\<lambda>v. ?sep @ ?m v) ws) @ newline ind d @ CHR '']'' # rest"
    have "scan (JSt BeginValueOrEmpty (FArr [] # st)) (?m v @ ?tail) = scan (JSt BeginValue (FArr [] # st)) (?m v @ ?tail)"
      by (rule scan_first, rule marshal_starts [where n = n]) (use vs Cons in simp)
    also have "\<dots> = scan (put_value v (FArr [] # st)) ?tail"
      by (rule reads_backD [OF _ _ _ list_rest_head]) (use vs Cons st in auto)
    also have "\<dots> = scan (put_value (JArr vs) st) rest"
      using scan_elements [OF ind, of n st ws ?m "[v]" "Suc d" d rest] vs Cons st by simp
    finally show ?thesis
      using push st newline_ws [OF ind, of "Suc d"] by (simp add: Cons separated_Cons scan_ws comp_def)
  qed
qed

lemma object_reads_back:
  assumes ind: "ws_layout ind"
    and kvs: "\<forall>kv \<in> set kvs. valid_utf8 (fst kv) \<and> reads_back (marshal_at ind (Suc d)) n (snd kv)"
  shows "reads_back (marshal_at ind d) (Suc n) (JObj kvs)"
proof (unfold reads_back_def, intro allI impI)
  fix st :: "frame list" and rest :: string
  assume st: "Suc n + length st \<le> max_depth"
  note push = scan_push(1) [of st]
  show "scan (JSt BeginValue st) (marshal_at ind d (JObj kvs) @ rest) = scan (put_value (JObj kvs) st) rest"
  proof (cases kvs)
    case Nil
    then show ?thesis using push st by simp
  next
    case (Cons kv ws)
    obtain k v where kv: "kv = (k, v)"
      by (cases kv)
    let ?m = "marshal_at ind (Suc d)"
    let ?tail = "concat (map (\<lambda>kv. ('','' @ newline ind (Suc d)) @ appendString (fst kv) @ colon ind @ ?m (snd kv)) ws) @
      newline ind d @ CHR ''}'' # rest"
    have "scan (JSt (InStr []) (FObj [] None # st)) (quote_body k @ CHR 0x22 # colon ind @ ?m v @ ?tail) =
      scan (JSt EndValue (FObj [(k, v)] None # st)) ?tail"
      by (rule scan_member [OF _ _ _ list_rest_head]) (use kvs Cons kv st in auto)
    also have "\<dots> = scan (put_value (JObj kvs) st) rest"
      using scan_members [OF ind, of n st ws ?m "[(k, v)]" "Suc d" d rest] kvs Cons kv st by simp
    finally show ?thesis
      using push st newline_ws [OF ind, of "Suc d"]
      by (simp add: Cons kv separated_Cons scan_ws comp_def begin_string_def appendString_def)
  qed
qed

lemma marshal_reads_back:
  assumes "ws_layout ind" and "json_ok n j"
  shows "reads_back (marshal_at ind d) n j"
  using assms
proof (induction ind d j arbitrary: n rule: marshal_at.induct)
  case (1 ind d)
  show ?case by (simp add: reads_back_def begin_value_def is_ws_def)
next
  case (2 ind d b)
  show ?case by (simp add: reads_back_def begin_value_def is_ws_def)
next
  case (3 ind d s)
  then show ?case by (auto simp: reads_back_def scan_Itoa simp del: foldl_append)
next
  case (4 ind d s)
  then show ?case
    by (simp add: reads_back_def begin_value_def appendString_def valid_read end_string_value)
next
  case (5 ind d vs)
  then obtain n' where "n = Suc n'" "\<forall>v \<in> set vs. json_ok n' v"
    by (cases n) auto
  moreover from this have "\<forall>v \<in> set vs. reads_back (marshal_at ind (Suc d)) n' v"
    using 5(1) [OF _ _ 5(2)] by (cases "vs = []") auto
  ultimately show ?case
    by (auto intro!: array_reads_back [OF 5(2)])
next
  case (6 ind d kvs)
  then obtain n' where "n = Suc n'" "\<forall>kv \<in> set kvs. valid_utf8 (fst kv) \<and> json_ok n' (snd kv)"
    by (cases n) auto
  moreover from this have "\<forall>kv \<in> set kvs. reads_back (marshal_at ind (Suc d)) n' (snd kv)"
    using 6(1) [OF _ _ 6(2)] by (cases "kvs = []") auto
  ultimately show ?case
    by (auto intro!: object_reads_back [OF 6(2)])
qed

lemma parse_marshal_at:
  assumes "ws_layout ind" and "json_ok max_depth j"
  shows "json_parse (marshal_at ind 0 j) = Some j"
  using reads_backD [OF marshal_reads_back [OF assms, of 0], where st = "[]" and rest = "'' ''"]
  by (simp add: json_parse_def num_char_def is_digit_def is_ws_def del: foldl_append)

lemma parse_marshal: "list_all is_ws ind \<Longrightarrow> json_ok max_depth j \<Longrightarrow> json_parse (MarshalIndent ind j) = Some j"
  unfolding MarshalIndent_def by (rule parse_marshal_at) (simp_all add: ws_layout_def)

lemma parse_compact: "json_ok max_depth j \<Longrightarrow> json_parse (Marshal j) = Some j"
  unfolding Marshal_def by (rule parse_marshal_at) (simp_all add: ws_layout_def)

end
