(* ===== verification/Pkg.thy ===== *)
theory Pkg
  imports Strconv
begin

text \<open>
  Package \<open>pkg\<close>: the annotation names (\<open>pkg/annotations.go\<close>), the constants
  (\<open>pkg/constants.go\<close>) and the validators (\<open>pkg/validation.go\<close>). The cipher suites that
  \<open>crypto/tls\<close> offers depend on the Go release, so the two tables are arguments of
  \<open>ValidateTLSCipherSuites\<close>.
\<close>

section \<open>Annotations\<close>

definition AudienceAnnotation :: string where "AudienceAnnotation = ''audience''"
definition RoleARNAnnotation :: string where "RoleARNAnnotation = ''role-arn''"
definition UseRegionalSTSAnnotation :: string where "UseRegionalSTSAnnotation = ''sts-regional-endpoints''"
definition TokenExpirationAnnotation :: string where "TokenExpirationAnnotation = ''token-expiration''"
definition SkipContainersAnnotation :: string where "SkipContainersAnnotation = ''skip-containers''"

lemmas annotation_defs = AudienceAnnotation_def RoleARNAnnotation_def UseRegionalSTSAnnotation_def
  TokenExpirationAnnotation_def SkipContainersAnnotation_def

section \<open>Constants\<close>

definition MaxTokenExpiration :: int64 where "MaxTokenExpiration = 86400"
definition DefaultTokenExpiration :: int64 where "DefaultTokenExpiration = 86400"
definition DefaultMinTokenExpiration :: int64 where "DefaultMinTokenExpiration = 79200"
definition MinTokenExpiration :: int64 where "MinTokenExpiration = 600"

definition AwsEnvVarContainerCredentialsFullUri :: string where
  "AwsEnvVarContainerCredentialsFullUri = ''AWS_CONTAINER_CREDENTIALS_FULL_URI''"

definition AwsEnvVarContainerAuthorizationTokenFile :: string where
  "AwsEnvVarContainerAuthorizationTokenFile = ''AWS_CONTAINER_AUTHORIZATION_TOKEN_FILE''"

lemmas expiration_defs = MaxTokenExpiration_def DefaultTokenExpiration_def
  DefaultMinTokenExpiration_def MinTokenExpiration_def

section \<open>Validation\<close>

definition ValidateMinTokenExpiration :: "int64 \<Rightarrow> int64" where
  "ValidateMinTokenExpiration expiration =
     (if sint expiration < sint MinTokenExpiration then MinTokenExpiration else expiration)"

datatype validation_error = UnsupportedCipherSuite string | UnsupportedVersion string

text \<open>
  The table of available suites is built from the secure list and then the insecure one, so a
  name of the insecure list wins.
\<close>

definition availableSuites :: "(string \<times> uint16) list \<Rightarrow> (string \<times> uint16) list \<Rightarrow> (string \<rightharpoonup> uint16)" where
  "availableSuites suites insecure = (Map.empty(map fst suites [\<mapsto>] map snd suites))(map fst insecure [\<mapsto>] map snd insecure)"

fun collect_ids :: "(string \<rightharpoonup> uint16) \<Rightarrow> string list \<Rightarrow> uint16 list \<Rightarrow> validation_error + uint16 list" where
  "collect_ids av [] ids = Inr ids"
| "collect_ids av (n # ns) ids =
     (let name = TrimSpace n in
      if name = [] then collect_ids av ns ids
      else (case av name of
              None \<Rightarrow> Inl (UnsupportedCipherSuite name)
            | Some i \<Rightarrow> collect_ids av ns (ids @ [i])))"

definition ValidateTLSCipherSuites ::
  "(string \<times> uint16) list \<Rightarrow> (string \<times> uint16) list \<Rightarrow> string list \<Rightarrow> validation_error + uint16 list" where
  "ValidateTLSCipherSuites suites insecure cipherNames =
     (if cipherNames = [] then Inr []
      else collect_ids (availableSuites suites insecure) cipherNames [])"

definition ValidateTLSMinVersion :: "string \<Rightarrow> validation_error + uint16" where
  "ValidateTLSMinVersion version =
     (if version = ''1.0'' \<or> version = ''VersionTLS10'' then Inr 0x0301
      else if version = ''1.1'' \<or> version = ''VersionTLS11'' then Inr 0x0302
      else if version = ''1.2'' \<or> version = ''VersionTLS12'' then Inr 0x0303
      else if version = ''1.3'' \<or> version = ''VersionTLS13'' then Inr 0x0304
      else Inl (UnsupportedVersion version))"

section \<open>Properties\<close>

lemma sint_MinTokenExpiration [simp]: "sint MinTokenExpiration = 600"
  by (simp add: MinTokenExpiration_def)

lemma sint_DefaultTokenExpiration [simp]: "sint DefaultTokenExpiration = 86400"
  by (simp add: DefaultTokenExpiration_def)

lemma ValidateMin_sint: "sint (ValidateMinTokenExpiration e) = max 600 (sint e)"
  by (auto simp: ValidateMinTokenExpiration_def)

lemma ValidateMin_lower: "600 \<le> sint (ValidateMinTokenExpiration e)"
  by (simp add: ValidateMin_sint)

lemma ValidateMin_idem [simp]:
  "ValidateMinTokenExpiration (ValidateMinTokenExpiration e) = ValidateMinTokenExpiration e"
  by (simp add: ValidateMinTokenExpiration_def)

text \<open>The names that count: trimmed, and not blank.\<close>

definition effective_names :: "string list \<Rightarrow> string list" where
  "effective_names ns = filter (\<lambda>n. n \<noteq> []) (map TrimSpace ns)"

lemma effective_names_simps [simp]:
  "effective_names [] = []"
  "effective_names (n # ns) =
     (if TrimSpace n = [] then effective_names ns else TrimSpace n # effective_names ns)"
  by (auto simp: effective_names_def)

lemma collect_ids_spec:
  "collect_ids av ns ids =
     (case find (\<lambda>n. av n = None) (effective_names ns) of
        Some n \<Rightarrow> Inl (UnsupportedCipherSuite n)
      | None \<Rightarrow> Inr (ids @ map (\<lambda>n. the (av n)) (effective_names ns)))"
  by (induction av ns ids rule: collect_ids.induct)
     (auto simp: Let_def split: option.splits)

section \<open>Claims\<close>

text \<open>
  C38. The list of cipher suites is validated as a whole: blank entries are ignored and names are
  trimmed; if every remaining name is known, the result is the list of their identifiers in
  the order given, duplicates included; otherwise the first unknown name is reported and no
  list is returned. A name is known when it is in the secure or in the insecure table; the last
  entry for a name counts, and the insecure table before the secure one.
\<close>

theorem cipher_suites_validated:
  "ValidateTLSCipherSuites suites insecure names =
     (case find (\<lambda>n. n \<notin> fst ` set suites \<union> fst ` set insecure) (effective_names names) of
        Some n \<Rightarrow> Inl (UnsupportedCipherSuite n)
      | None \<Rightarrow> Inr (map (\<lambda>n. the (availableSuites suites insecure n)) (effective_names names))) \<and>
   availableSuites suites insecure = map_of (rev suites) ++ map_of (rev insecure)"
proof -
  have table: "availableSuites suites insecure = map_of (rev suites) ++ map_of (rev insecure)"
    by (simp add: availableSuites_def map_upds_def zip_map_fst_snd)
  then have "availableSuites suites insecure n = None \<longleftrightarrow> n \<notin> fst ` set suites \<union> fst ` set insecure" for n
    by (auto simp: map_add_None map_of_eq_None_iff)
  with table show ?thesis
    by (cases "names = []") (auto simp: ValidateTLSCipherSuites_def collect_ids_spec split: option.split)
qed

end
