(* ===== verification/Notifications.thy ===== *)
theory Notifications
  imports GoStrings
begin

text \<open>
  \<open>pkg/cache/notifications.go\<close> and the request type of \<open>pkg/cache/cache.go\<close>. A notifier is a
  channel that is never sent on and only closed; channels are numbered in the order they
  are made, and the closed ones are remembered. The channel of fetch requests is a bounded
  queue: a send on a full queue does not return.

  The lemmas show the contract the cache relies on: a handler is registered at most once per
  key and then asked for only once, a broadcast closes exactly the registered channel and
  forgets it, and a channel is never closed twice.
\<close>

section \<open>Requests\<close>

record Request =
  reqName :: string
  reqNamespace :: string
  RequestNotification :: bool

definition cache_key :: "string \<Rightarrow> string \<Rightarrow> string" where
  "cache_key namespace name = namespace @ ''/'' @ name"

definition CacheKey :: "Request \<Rightarrow> string" where
  "CacheKey r = cache_key (reqNamespace r) (reqName r)"

text \<open>Namespaces have no slash, so different accounts have different keys.\<close>

lemma cache_key_inject:
  assumes "CHR ''/'' \<notin> set ns" and "CHR ''/'' \<notin> set ns'"
  shows "cache_key ns n = cache_key ns' n' \<longleftrightarrow> ns = ns' \<and> n = n'"
  using assms
  by (auto simp: cache_key_def append_eq_append_conv2 Cons_eq_append_conv append_eq_Cons_conv)

lemma cache_key_Split:
  assumes "CHR ''/'' \<notin> set ns" and "CHR ''/'' \<notin> set n"
  shows "Split CHR ''/'' (cache_key ns n) = [ns, n]"
  using assms by (simp add: cache_key_def Split_append_sep Split_no_sep)

lemma Split_two_cache_key: "Split CHR ''/'' k = [ns, n] \<Longrightarrow> k = cache_key ns n"
  using Join_Split [of "CHR ''/''" k] by (simp add: cache_key_def)

section \<open>State\<close>

type_synonym chan = nat

record notifications =
  handlers :: "string \<rightharpoonup> chan"
  fetchRequests :: "Request list"
  fetchCap :: nat
  nextChan :: chan
  closedChans :: "chan set"

definition newNotifications :: "nat \<Rightarrow> notifications" where
  "newNotifications capacity =
     \<lparr>handlers = Map.empty, fetchRequests = [], fetchCap = capacity, nextChan = 0, closedChans = {}\<rparr>"

section \<open>Operations\<close>

definition create :: "notifications \<Rightarrow> Request \<Rightarrow> (notifications \<times> chan) go" where
  "create n req =
     (case handlers n (CacheKey req) of
        Some notifier \<Rightarrow> Ok (n, notifier)
      | None \<Rightarrow>
          if length (fetchRequests n) < fetchCap n
          then Ok (n\<lparr>handlers := (handlers n)(CacheKey req \<mapsto> nextChan n),
                     nextChan := Suc (nextChan n),
                     fetchRequests := fetchRequests n @ [req]\<rparr>, nextChan n)
          else NoReturn)"

definition broadcast :: "notifications \<Rightarrow> string \<Rightarrow> notifications go" where
  "broadcast n key =
     (case handlers n key of
        None \<Rightarrow> Ok n
      | Some handler \<Rightarrow>
          if handler \<in> closedChans n then Panic CloseOfClosedChannel
          else Ok (n\<lparr>closedChans := insert handler (closedChans n),
                     handlers := (handlers n)(key := None)\<rparr>))"

text \<open>The goroutine of \<open>New\<close> receives the requests in the order they were sent.\<close>

definition receive :: "notifications \<Rightarrow> (Request \<times> notifications) option" where
  "receive n =
     (case fetchRequests n of [] \<Rightarrow> None | r # rs \<Rightarrow> Some (r, n\<lparr>fetchRequests := rs\<rparr>))"

section \<open>Invariant\<close>

text \<open>
  Registered channels have been made, are open, and belong to one key; closed channels have
  been made.
\<close>

definition notif_inv :: "notifications \<Rightarrow> bool" where
  "notif_inv n \<longleftrightarrow>
     (\<forall>k ch. handlers n k = Some ch \<longrightarrow> ch < nextChan n \<and> ch \<notin> closedChans n) \<and>
     (\<forall>k k' ch. handlers n k = Some ch \<longrightarrow> handlers n k' = Some ch \<longrightarrow> k = k') \<and>
     (\<forall>ch \<in> closedChans n. ch < nextChan n)"

lemma notif_inv_handler: "notif_inv n \<Longrightarrow> handlers n k = Some ch \<Longrightarrow> ch < nextChan n \<and> ch \<notin> closedChans n"
  by (auto simp: notif_inv_def)

lemma notif_inv_inj: "notif_inv n \<Longrightarrow> handlers n k = Some ch \<Longrightarrow> handlers n k' = Some ch \<Longrightarrow> k = k'"
  unfolding notif_inv_def by blast

lemma notif_inv_closed: "notif_inv n \<Longrightarrow> ch \<in> closedChans n \<Longrightarrow> ch < nextChan n"
  by (auto simp: notif_inv_def)

lemma notif_inv_fresh:
  "notif_inv n \<Longrightarrow> nextChan n \<notin> closedChans n" "notif_inv n \<Longrightarrow> handlers n k \<noteq> Some (nextChan n)"
  using notif_inv_closed notif_inv_handler by blast+

lemma newNotifications_inv [inv_intros]: "notif_inv (newNotifications c)"
  by (simp add: notif_inv_def newNotifications_def)

lemma create_inv [inv_intros]:
  assumes "notif_inv n" and "create n req = Ok (n', ch)"
  shows "notif_inv n'"
proof (cases "handlers n (CacheKey req)")
  case None
  then have n': "n' = n\<lparr>handlers := (handlers n)(CacheKey req \<mapsto> nextChan n),
      nextChan := Suc (nextChan n), fetchRequests := fetchRequests n @ [req]\<rparr>"
    using assms(2) by (auto simp: create_def split: if_splits)
  show ?thesis
    unfolding notif_inv_def n'
    using notif_inv_handler [OF assms(1)] notif_inv_closed [OF assms(1)]
      notif_inv_fresh [OF assms(1)] notif_inv_inj [OF assms(1)]
    by (auto simp: less_Suc_eq)
next
  case (Some c)
  with assms show ?thesis by (simp add: create_def)
qed

lemma broadcast_inv [inv_intros]:
  assumes "notif_inv n" and "broadcast n key = Ok n'"
  shows "notif_inv n'"
proof (cases "handlers n key")
  case None
  with assms show ?thesis by (simp add: broadcast_def)
next
  case (Some h)
  then have n': "n' = n\<lparr>closedChans := insert h (closedChans n), handlers := (handlers n)(key := None)\<rparr>"
    using assms by (auto simp: broadcast_def split: if_splits)
  show ?thesis
    unfolding notif_inv_def n'
    using Some notif_inv_handler [OF assms(1)] notif_inv_closed [OF assms(1)] notif_inv_inj [OF assms(1)]
    by auto
qed

lemma receive_inv [inv_intros]: "notif_inv n \<Longrightarrow> receive n = Some (r, n') \<Longrightarrow> notif_inv n'"
  by (auto simp: receive_def notif_inv_def split: list.splits)

section \<open>Behaviour\<close>

lemma broadcast_no_panic: "notif_inv n \<Longrightarrow> \<exists>n'. broadcast n key = Ok n'"
  by (auto simp: broadcast_def dest: notif_inv_handler split: option.splits)

lemma broadcast_handlers: "broadcast n key = Ok n' \<Longrightarrow> handlers n' = (handlers n)(key := None)"
  by (auto simp: broadcast_def fun_upd_idem split: option.splits if_splits)

lemma broadcast_closes:
  "broadcast n key = Ok n' \<Longrightarrow>
     closedChans n' = closedChans n \<union> set_option (handlers n key)"
  by (auto simp: broadcast_def split: option.splits if_splits)

lemma broadcast_frame [frame]:
  assumes "broadcast n key = Ok n'"
  shows "fetchRequests n' = fetchRequests n" and "fetchCap n' = fetchCap n" and "nextChan n' = nextChan n"
  using assms by (auto simp: broadcast_def split: option.splits if_splits)

lemma create_registers: "create n req = Ok (n', ch) \<Longrightarrow> handlers n' (CacheKey req) = Some ch"
  by (auto simp: create_def split: option.splits if_splits)

lemma create_handlers:
  "create n req = Ok (n', ch) \<Longrightarrow> handlers n' = (handlers n)(CacheKey req \<mapsto> ch)"
  by (auto simp: create_def fun_upd_idem split: option.splits if_splits)

lemma create_frame [frame]:
  assumes "create n req = Ok (n', ch)"
  shows "closedChans n' = closedChans n" and "fetchCap n' = fetchCap n" and "nextChan n \<le> nextChan n'"
  using assms by (auto simp: create_def split: option.splits if_splits)

lemma create_requests:
  "create n req = Ok (n', ch) \<Longrightarrow>
     fetchRequests n' = fetchRequests n @ (if handlers n (CacheKey req) = None then [req] else [])"
  by (auto simp: create_def split: option.splits if_splits)

lemma create_returns:
  "length (fetchRequests n) < fetchCap n \<Longrightarrow> \<exists>n' ch. create n req = Ok (n', ch)"
  by (auto simp: create_def split: option.splits)

lemma create_no_panic: "create n req \<noteq> Panic p"
  by (auto simp: create_def split: option.splits)

section \<open>The interface\<close>

text \<open>
  What the cache relies on: a registry in which looking a key up after registering it finds the
  channel, registering an already registered key changes nothing, and a broadcast wakes
  exactly the channel of its key, under an invariant that every operation keeps.
\<close>

locale notifier =
  fixes register :: "'n \<Rightarrow> Request \<Rightarrow> ('n \<times> chan) go"
    and wake :: "'n \<Rightarrow> string \<Rightarrow> 'n go"
    and waiting :: "'n \<Rightarrow> string \<Rightarrow> chan option"
    and woken :: "'n \<Rightarrow> chan set"
    and inv :: "'n \<Rightarrow> bool"
  assumes register_waiting:
      "register n r = Ok (n', ch) \<Longrightarrow> waiting n' = (waiting n)(CacheKey r \<mapsto> ch)"
    and register_again: "waiting n (CacheKey r) = Some ch \<Longrightarrow> register n r = Ok (n, ch)"
    and register_woken: "register n r = Ok (n', ch) \<Longrightarrow> woken n' = woken n"
    and register_inv: "inv n \<Longrightarrow> register n r = Ok (n', ch) \<Longrightarrow> inv n'"
    and wake_ok: "inv n \<Longrightarrow> \<exists>n'. wake n k = Ok n'"
    and wake_waiting: "wake n k = Ok n' \<Longrightarrow> waiting n' = (waiting n)(k := None)"
    and wake_woken: "wake n k = Ok n' \<Longrightarrow> woken n' = woken n \<union> set_option (waiting n k)"
    and wake_inv: "inv n \<Longrightarrow> wake n k = Ok n' \<Longrightarrow> inv n'"
    and waiting_asleep: "inv n \<Longrightarrow> waiting n k = Some ch \<Longrightarrow> ch \<notin> woken n"
    and waiting_inj: "inv n \<Longrightarrow> waiting n k = Some ch \<Longrightarrow> waiting n k' = Some ch \<Longrightarrow> k = k'"
begin

text \<open>Waking a key wakes the channel that was registered for it, and no other registered one.\<close>

lemma wake_exactly:
  assumes "inv n" and "wake n k = Ok n'" and "waiting n k' = Some ch"
  shows "ch \<in> woken n' \<longleftrightarrow> k' = k"
  using assms wake_woken waiting_asleep waiting_inj by fastforce

lemma register_then_wake:
  assumes "inv n" and "register n r = Ok (n', ch)" and "wake n' (CacheKey r) = Ok n''"
  shows "ch \<in> woken n'' \<and> waiting n'' (CacheKey r) = None"
  using register_waiting [OF assms(2)] wake_woken [OF assms(3)] wake_waiting [OF assms(3)]
  by (simp add: assms)

text \<open>Two registrations for one key share the channel.\<close>

lemma register_shared:
  assumes "register n r = Ok (n', ch)" and "CacheKey r' = CacheKey r"
  shows "register n' r' = Ok (n', ch)"
  using register_waiting [OF assms(1)] assms(2) by (intro register_again) simp

end

interpretation nt: notifier create broadcast handlers closedChans notif_inv
proof (unfold_locales, goal_cases)
  case (1 n r n' ch) then show ?case by (rule create_handlers)
next
  case (2 n r ch) then show ?case by (simp add: create_def)
next
  case (3 n r n' ch) then show ?case by (rule create_frame)
next
  case (4 n r n' ch) then show ?case by (rule create_inv)
next
  case (5 n k) then show ?case by (rule broadcast_no_panic)
next
  case (6 n k n') then show ?case by (rule broadcast_handlers)
next
  case (7 n k n') then show ?case by (rule broadcast_closes)
next
  case (8 n k n') then show ?case by (rule broadcast_inv)
next
  case (9 n k ch) then show ?case by (simp add: notif_inv_handler)
next
  case (10 n k ch k') then show ?case by (rule notif_inv_inj)
qed

section \<open>Claims\<close>

definition exampleRequest :: Request where
  "exampleRequest = \<lparr>reqName = ''sa'', reqNamespace = ''ns'', RequestNotification = True\<rparr>"

text \<open>
  C32. One fetch and one broadcast serve everyone who waits. In a state that satisfies the invariant
  let a request be registered. A further request for the account, whatever its other fields are, gets
  the same channel and adds no fetch request. The broadcast for the account then returns (it never
  closes a channel that is closed), closes that channel and none of the channels registered for
  other accounts, and leaves the other registrations in place; a second broadcast changes
  nothing.
\<close>

theorem one_broadcast_serves_all:
  assumes "notif_inv n" and "create n req = Ok (n', ch)" and "CacheKey req' = CacheKey req"
  shows "create n' req' = Ok (n', ch) \<and>
    fetchRequests n' = fetchRequests n @ (if handlers n (CacheKey req) = None then [req] else []) \<and>
    (\<exists>n''. broadcast n' (CacheKey req) = Ok n'' \<and> notif_inv n'' \<and> ch \<in> closedChans n'' \<and>
       handlers n'' = (handlers n)(CacheKey req := None) \<and>
       (\<forall>k ch'. handlers n k = Some ch' \<and> k \<noteq> CacheKey req \<longrightarrow> ch' \<notin> closedChans n'') \<and>
       broadcast n'' (CacheKey req) = Ok n'')"
proof -
  have h: "handlers n' = (handlers n)(CacheKey req := Some ch)"
    by (rule create_handlers [OF assms(2)])
  have inv: "notif_inv n'"
    by (rule create_inv [OF assms(1,2)])
  obtain n'' where b: "broadcast n' (CacheKey req) = Ok n''"
    using nt.wake_ok [OF inv] by blast
  have woken: "handlers n'' = (handlers n)(CacheKey req := None)"
    using nt.wake_waiting [OF b] h by simp
  have exactly: "ch' \<in> closedChans n'' \<longleftrightarrow> k = CacheKey req" if "handlers n' k = Some ch'" for k ch'
    using nt.wake_exactly [OF inv b that] .
  have "ch \<in> closedChans n''"
    using exactly [of "CacheKey req" ch] h by simp
  moreover have "ch' \<notin> closedChans n''" if "handlers n k = Some ch'" "k \<noteq> CacheKey req" for k ch'
    using exactly [of k ch'] h that by simp
  moreover have "broadcast n'' (CacheKey req) = Ok n''"
    using woken by (simp add: broadcast_def)
  ultimately show ?thesis
    using nt.register_shared [OF assms(2,3)] create_requests [OF assms(2)] b nt.wake_inv [OF inv b] woken by blast
qed

theorem one_broadcast_serves_all_witness:
  "\<exists>n' ch n''. create (newNotifications 1000) exampleRequest = Ok (n', ch) \<and>
     create n' (exampleRequest\<lparr>RequestNotification := False\<rparr>) = Ok (n', ch) \<and>
     fetchRequests n' = [exampleRequest] \<and> broadcast n' ''ns/sa'' = Ok n'' \<and> ch \<in> closedChans n''"
proof -
  obtain n' ch where c: "create (newNotifications 1000) exampleRequest = Ok (n', ch)"
    using create_returns [of "newNotifications 1000" exampleRequest]
    by (auto simp: newNotifications_def)
  moreover have "CacheKey exampleRequest = ''ns/sa''"
    by (simp add: exampleRequest_def CacheKey_def cache_key_def)
  ultimately show ?thesis
    using one_broadcast_serves_all [OF newNotifications_inv c, of "exampleRequest\<lparr>RequestNotification := False\<rparr>"]
    by (auto simp: CacheKey_def newNotifications_def)
qed

end
