(* ===== verification/Cache.thy ===== *)
theory Cache
  imports Notifications Pkg Json
begin

text \<open>
  \<open>pkg/cache/cache.go\<close>: the cache of service accounts. Two maps are kept, one filled from the
  annotations of the service accounts the informer reports (\<open>saCache\<close>), one from the
  \<open>pod-identity-webhook\<close> ConfigMap (\<open>cmCache\<close>), both keyed by \<open>namespace/name\<close>, together with
  the registry of waiting requests (theory \<open>Notifications\<close>). \<open>getSA\<close>, \<open>getCM\<close>, \<open>setSA\<close>, \<open>popSA\<close>,
  \<open>setCM\<close> and \<open>popCM\<close> hold the cache's lock for their whole body, so each is one state
  transformer; \<open>Get\<close> and \<open>populateCacheFromCM\<close> are composed of them, here as they run with
  nothing in between, and theory \<open>System\<close> interleaves the pieces. \<open>klog\<close> output and the regular
  expression whose result is only logged have no effect on the state.

  Go iterates over a map in an unspecified order: the operations that do so take the order as an
  argument \<open>ord\<close>, and the theorems hold for every permutation of the keys.
\<close>

section \<open>Data\<close>

record Entry =
  eRoleARN :: string
  eAudience :: string
  eUseRegionalSTS :: bool
  eTokenExpiration :: int64

record Response =
  rRoleARN :: string
  rAudience :: string
  rUseRegionalSTS :: bool
  rTokenExpiration :: int64
  FoundInCache :: bool
  Notifier :: "chan option"

record ComposeRoleArn =
  Enabled :: bool
  AccountID :: string
  Partition :: string
  arnRegion :: string

record serviceAccountCache =
  saCache :: "string \<rightharpoonup> Entry"
  cmCache :: "string \<rightharpoonup> Entry"
  annotationPrefix :: string
  defaultAudience :: string
  defaultRegionalSTS :: bool
  composeRoleArn :: ComposeRoleArn
  defaultTokenExpiration :: int64
  webhookUsage :: nat
  notifs :: notifications

text \<open>The parts of the Kubernetes objects that the cache reads.\<close>

record ServiceAccount =
  saName :: string
  saNamespace :: string
  saAnnotations :: "string \<rightharpoonup> string"

record ConfigMap =
  cmName :: string
  cmData :: "string \<rightharpoonup> string"

definition zeroEntry :: Entry where
  "zeroEntry = \<lparr>eRoleARN = [], eAudience = [], eUseRegionalSTS = False, eTokenExpiration = 0\<rparr>"

section \<open>Lookups\<close>

definition getSA :: "serviceAccountCache \<Rightarrow> Request \<Rightarrow> (serviceAccountCache \<times> Entry option \<times> chan option) go" where
  "getSA c req =
     (if saCache c (CacheKey req) = None \<and> RequestNotification req
      then go_bind (create (notifs c) req) (\<lambda>(n, ch). Ok (c\<lparr>notifs := n\<rparr>, None, Some ch))
      else Ok (c, saCache c (CacheKey req), None))"

definition getCM :: "serviceAccountCache \<Rightarrow> string \<Rightarrow> string \<Rightarrow> Entry option" where
  "getCM c name namespace = cmCache c (cache_key namespace name)"

definition emptyResponse :: Response where
  "emptyResponse = \<lparr>rRoleARN = [], rAudience = [], rUseRegionalSTS = False,
     rTokenExpiration = DefaultTokenExpiration, FoundInCache = False, Notifier = None\<rparr>"

definition fromEntry :: "Entry \<Rightarrow> Response \<Rightarrow> Response" where
  "fromEntry e r = r\<lparr>rRoleARN := eRoleARN e, rAudience := eAudience e,
     rUseRegionalSTS := eUseRegionalSTS e, rTokenExpiration := eTokenExpiration e\<rparr>"

text \<open>The ConfigMap entry of the account itself, or else the one for every namespace.\<close>

definition cm_lookup :: "serviceAccountCache \<Rightarrow> Request \<Rightarrow> Entry option" where
  "cm_lookup c req =
     (case getCM c (reqName req) (reqNamespace req) of
        None \<Rightarrow> getCM c (reqName req) ''*''
      | Some e \<Rightarrow> Some e)"

definition Get :: "serviceAccountCache \<Rightarrow> Request \<Rightarrow> (serviceAccountCache \<times> Response) go" where
  "Get c req =
     go_bind (getSA c req) (\<lambda>(c', entry, notifier).
       let result = emptyResponse\<lparr>Notifier := notifier, FoundInCache := (entry \<noteq> None)\<rparr>;
           from_cm = (case cm_lookup c' req of
                        Some e \<Rightarrow> fromEntry e (result\<lparr>FoundInCache := True\<rparr>)
                      | None \<Rightarrow> result)
       in case entry of
            Some e \<Rightarrow> if eRoleARN e \<noteq> [] then Ok (c', fromEntry e result) else Ok (c', from_cm)
          | None \<Rightarrow> Ok (c', from_cm))"

text \<open>\<open>getSA\<close> is called without a notification here, so it returns at once and changes nothing.\<close>

definition GetCommonConfigurations :: "serviceAccountCache \<Rightarrow> string \<Rightarrow> string \<Rightarrow> bool \<times> int64" where
  "GetCommonConfigurations c name namespace =
     (case getSA c \<lparr>reqName = name, reqNamespace = namespace, RequestNotification = False\<rparr> of
        Ok (_, Some entry, _) \<Rightarrow> (eUseRegionalSTS entry, eTokenExpiration entry)
      | _ \<Rightarrow> (case getCM c name namespace of
                Some entry \<Rightarrow> (eUseRegionalSTS entry, eTokenExpiration entry)
              | None \<Rightarrow> (False, DefaultTokenExpiration)))"

section \<open>Updates\<close>

definition popSA :: "serviceAccountCache \<Rightarrow> string \<Rightarrow> string \<Rightarrow> serviceAccountCache" where
  "popSA c name namespace = c\<lparr>saCache := (saCache c)(cache_key namespace name := None)\<rparr>"

definition popCM :: "serviceAccountCache \<Rightarrow> string \<Rightarrow> string \<Rightarrow> serviceAccountCache" where
  "popCM c name namespace = c\<lparr>cmCache := (cmCache c)(cache_key namespace name := None)\<rparr>"

definition setSA :: "serviceAccountCache \<Rightarrow> string \<Rightarrow> string \<Rightarrow> Entry \<Rightarrow> serviceAccountCache go" where
  "setSA c name namespace entry =
     (let key = cache_key namespace name;
          c1 = c\<lparr>saCache := (saCache c)(key \<mapsto> entry)\<rparr>
      in go_bind (broadcast (notifs c1) key) (\<lambda>n. Ok (c1\<lparr>notifs := n\<rparr>)))"

definition setCM :: "serviceAccountCache \<Rightarrow> string \<Rightarrow> string \<Rightarrow> Entry \<Rightarrow> serviceAccountCache" where
  "setCM c name namespace entry = c\<lparr>cmCache := (cmCache c)(cache_key namespace name \<mapsto> entry)\<rparr>"

text \<open>The role of a service account: the annotation, completed to an ARN if that is switched on.\<close>

definition composeArn :: "ComposeRoleArn \<Rightarrow> string \<Rightarrow> string" where
  "composeArn cfg arn =
     (if \<not> Contains arn ''arn:'' \<and> Enabled cfg
      then ''arn:'' @ Partition cfg @ '':iam::'' @ AccountID cfg @ '':role/'' @ arn
      else arn)"

definition annotation_key :: "serviceAccountCache \<Rightarrow> string \<Rightarrow> string" where
  "annotation_key c a = annotationPrefix c @ ''/'' @ a"

text \<open>The entry that \<open>addSA\<close> builds before it stores it.\<close>

definition entry_of_SA :: "serviceAccountCache \<Rightarrow> ServiceAccount \<Rightarrow> Entry" where
  "entry_of_SA c sa =
     (let ann = (\<lambda>a. saAnnotations sa (annotation_key c a)) in
      \<lparr>eRoleARN = (case ann RoleARNAnnotation of
                     Some arn \<Rightarrow> composeArn (composeRoleArn c) arn
                   | None \<Rightarrow> []),
       eAudience = (case ann AudienceAnnotation of
                     Some audience \<Rightarrow> audience
                   | None \<Rightarrow> defaultAudience c),
       eUseRegionalSTS = (case ann UseRegionalSTSAnnotation of
                     Some str \<Rightarrow> (case ParseBool str of Inr b \<Rightarrow> b | Inl _ \<Rightarrow> defaultRegionalSTS c)
                   | None \<Rightarrow> defaultRegionalSTS c),
       eTokenExpiration = (case ann TokenExpirationAnnotation of
                     Some str \<Rightarrow> (case ParseInt str of
                                    Inr e \<Rightarrow> ValidateMinTokenExpiration e
                                  | Inl _ \<Rightarrow> defaultTokenExpiration c)
                   | None \<Rightarrow> defaultTokenExpiration c)\<rparr>)"

definition addSA :: "serviceAccountCache \<Rightarrow> ServiceAccount \<Rightarrow> serviceAccountCache go" where
  "addSA c sa =
     (let entry = entry_of_SA c sa
      in setSA (c\<lparr>webhookUsage := 1\<rparr>) (saName sa) (saNamespace sa) entry)"

definition Clear :: "serviceAccountCache \<Rightarrow> serviceAccountCache" where
  "Clear c = c\<lparr>saCache := Map.empty, cmCache := Map.empty\<rparr>"

section \<open>The ConfigMap\<close>

text \<open>\<open>json.Unmarshal\<close> into \<open>map[string]*Entry\<close>; a \<open>null\<close> member is a nil pointer.\<close>

definition decode_Entry_field :: "string \<Rightarrow> json \<Rightarrow> Entry \<Rightarrow> Entry option" where
  "decode_Entry_field k j e =
     (if names_field k ''RoleARN'' then map_option (\<lambda>s. e\<lparr>eRoleARN := s\<rparr>) (decode_string j (eRoleARN e))
      else if names_field k ''Audience'' then map_option (\<lambda>s. e\<lparr>eAudience := s\<rparr>) (decode_string j (eAudience e))
      else if names_field k ''UseRegionalSTS''
        then map_option (\<lambda>b. e\<lparr>eUseRegionalSTS := b\<rparr>) (decode_bool j (eUseRegionalSTS e))
      else if names_field k ''TokenExpiration''
        then map_option (\<lambda>n. e\<lparr>eTokenExpiration := n\<rparr>) (decode_int64 j (eTokenExpiration e))
      else Some e)"

definition decode_Entry :: "json \<Rightarrow> Entry option option" where
  "decode_Entry j =
     (case j of
        JNull \<Rightarrow> Some None
      | JObj kvs \<Rightarrow> map_option Some (decode_fields decode_Entry_field kvs zeroEntry)
      | _ \<Rightarrow> None)"

type_synonym sas = "(string \<times> Entry option) list"

definition unmarshal_SAs :: "string \<Rightarrow> unmarshal_error + sas" where
  "unmarshal_SAs s =
     (case json_parse s of
        None \<Rightarrow> Inl SyntaxError
      | Some JNull \<Rightarrow> Inr []
      | Some (JObj kvs) \<Rightarrow>
          (case decode_map decode_Entry kvs [] of
             None \<Rightarrow> Inl UnmarshalTypeError | Some m \<Rightarrow> Inr m)
      | Some _ \<Rightarrow> Inl UnmarshalTypeError)"

datatype cm_error = NewConfigError unmarshal_error | OldConfigError unmarshal_error

definition config_of :: "ConfigMap \<Rightarrow> string" where
  "config_of cm = (case cmData cm ''config'' of Some s \<Rightarrow> s | None \<Rightarrow> [])"

definition default_expiration :: "serviceAccountCache \<Rightarrow> Entry \<Rightarrow> Entry" where
  "default_expiration c e =
     (if eTokenExpiration e = 0 then e\<lparr>eTokenExpiration := defaultTokenExpiration c\<rparr> else e)"

text \<open>The bodies of the two loops. \<open>parts[1]\<close> panics when the key has no slash.\<close>

definition cm_set_key :: "sas \<Rightarrow> string \<Rightarrow> serviceAccountCache \<Rightarrow> serviceAccountCache go" where
  "cm_set_key sas key c =
     (case map_of sas key of
        None \<Rightarrow> Ok c
      | Some None \<Rightarrow> Panic NilDereference
      | Some (Some entry) \<Rightarrow>
          (case Split CHR ''/'' key of
             p0 # p1 # _ \<Rightarrow> Ok (setCM c p1 p0 (default_expiration c entry))
           | _ \<Rightarrow> Panic IndexOutOfRange))"

definition cm_pop_key :: "sas \<Rightarrow> string \<Rightarrow> serviceAccountCache \<Rightarrow> serviceAccountCache go" where
  "cm_pop_key sas key c =
     (if map_of sas key \<noteq> None then Ok c
      else (case Split CHR ''/'' key of
              p0 # p1 # _ \<Rightarrow> Ok (popCM c p1 p0)
            | _ \<Rightarrow> Panic IndexOutOfRange))"

definition populateCacheFromCM ::
  "(string list \<Rightarrow> string list) \<Rightarrow> serviceAccountCache \<Rightarrow> ConfigMap option \<Rightarrow> ConfigMap
     \<Rightarrow> (serviceAccountCache \<times> cm_error option) go" where
  "populateCacheFromCM ord c oldCM newCM =
     (if cmName newCM \<noteq> ''pod-identity-webhook'' then Ok (c, None)
      else case unmarshal_SAs (config_of newCM) of
        Inl err \<Rightarrow> Ok (c, Some (NewConfigError err))
      | Inr sas \<Rightarrow>
          go_bind (go_fold (cm_set_key sas) (ord (map fst sas)) c) (\<lambda>c1.
            case oldCM of
              None \<Rightarrow> Ok (c1, None)
            | Some old \<Rightarrow>
                (case unmarshal_SAs (config_of old) of
                   Inl err \<Rightarrow> Ok (c1, Some (OldConfigError err))
                 | Inr oldCache \<Rightarrow>
                     go_bind (go_fold (cm_pop_key sas) (ord (map fst oldCache)) c1) (\<lambda>c2. Ok (c2, None)))))"

section \<open>Construction and informer events\<close>

definition New ::
  "string \<Rightarrow> string \<Rightarrow> bool \<Rightarrow> int64 \<Rightarrow> ComposeRoleArn \<Rightarrow> serviceAccountCache" where
  "New aud pfx regional expiration compose =
     \<lparr>saCache = Map.empty, cmCache = Map.empty, annotationPrefix = pfx, defaultAudience = aud,
      defaultRegionalSTS = regional, composeRoleArn = compose, defaultTokenExpiration = expiration,
      webhookUsage = 0, notifs = newNotifications 1000\<rparr>"

text \<open>What the delete handler can be given: the account, a tombstone (with or without one), or something else.\<close>

datatype informer_obj = ObjSA ServiceAccount | Tombstone "ServiceAccount option" | ObjOther

datatype informer_event =
    SAAdded ServiceAccount
  | SAUpdated ServiceAccount ServiceAccount
  | SADeleted informer_obj
  | CMAdded ConfigMap
  | CMUpdated ConfigMap ConfigMap

fun on_event :: "(string list \<Rightarrow> string list) \<Rightarrow> serviceAccountCache \<Rightarrow> informer_event \<Rightarrow> serviceAccountCache go" where
  "on_event ord c (SAAdded sa) = addSA c sa"
| "on_event ord c (SAUpdated old sa) = addSA c sa"
| "on_event ord c (SADeleted (ObjSA sa)) = Ok (popSA c (saName sa) (saNamespace sa))"
| "on_event ord c (SADeleted (Tombstone (Some sa))) = Ok (popSA c (saName sa) (saNamespace sa))"
| "on_event ord c (SADeleted (Tombstone None)) = Ok c"
| "on_event ord c (SADeleted ObjOther) = Ok c"
| "on_event ord c (CMAdded cm) = go_bind (populateCacheFromCM ord c None cm) (\<lambda>(c', _). Ok c')"
| "on_event ord c (CMUpdated old cm) = go_bind (populateCacheFromCM ord c (Some old) cm) (\<lambda>(c', _). Ok c')"

text \<open>
  A fetch goroutine: the API server's answer to the request, stored when there is one and dropped
  when the fetch failed.
\<close>

definition on_fetched :: "serviceAccountCache \<Rightarrow> ServiceAccount option \<Rightarrow> serviceAccountCache go" where
  "on_fetched c res = (case res of None \<Rightarrow> Ok c | Some sa \<Rightarrow> addSA c sa)"

end
