(* ===== verification/CacheProps.thy ===== *)
theory CacheProps
  imports Cache
begin

text \<open>
  Properties of the service account cache: what a lookup returns after an update (through the
  interface \<open>account_table\<close>, interpreted for the annotation cache and for the ConfigMap
  cache), the order of precedence between the two, the entry computed from the annotations,
  the effect of ConfigMap events against a reference table, and the invariant that no
  request waits for an account that is already in the cache.
\<close>

section \<open>Tables of accounts\<close>

text \<open>
  A store of values per namespace and name. Namespaces that Kubernetes admits have no slash; the
  laws are about those, since the key of the store is \<open>namespace/name\<close>.
\<close>

definition ns_ok :: "string \<Rightarrow> bool" where
  "ns_ok ns \<longleftrightarrow> CHR ''/'' \<notin> set ns"

lemma cache_key_eq_iff:
  "ns_ok ns \<Longrightarrow> ns_ok ns' \<Longrightarrow> cache_key ns n = cache_key ns' n' \<longleftrightarrow> ns = ns' \<and> n = n'"
  unfolding ns_ok_def by (rule cache_key_inject)

locale account_table =
  fixes look :: "'s \<Rightarrow> string \<Rightarrow> string \<Rightarrow> 'e option"
    and put :: "'s \<Rightarrow> string \<Rightarrow> string \<Rightarrow> 'e \<Rightarrow> 's go"
    and del :: "'s \<Rightarrow> string \<Rightarrow> string \<Rightarrow> 's"
    and inv :: "'s \<Rightarrow> bool"
  assumes put_ok: "inv s \<Longrightarrow> \<exists>t. put s ns n e = Ok t"
    and put_inv: "inv s \<Longrightarrow> put s ns n e = Ok t \<Longrightarrow> inv t"
    and del_inv: "inv s \<Longrightarrow> inv (del s ns n)"
    and look_put: "put s ns n e = Ok t \<Longrightarrow> ns_ok ns \<Longrightarrow> ns_ok ns' \<Longrightarrow>
        look t ns' n' = (if ns' = ns \<and> n' = n then Some e else look s ns' n')"
    and look_del: "ns_ok ns \<Longrightarrow> ns_ok ns' \<Longrightarrow>
        look (del s ns n) ns' n' = (if ns' = ns \<and> n' = n then None else look s ns' n')"
begin

text \<open>A run of updates, and the table it stands for: the last update of an account decides.\<close>

primrec run :: "(string \<times> string \<times> 'e option) list \<Rightarrow> 's \<Rightarrow> 's go" where
  "run [] s = Ok s"
| "run (u # us) s =
     (case u of (ns, n, v) \<Rightarrow>
        go_bind (case v of Some e \<Rightarrow> put s ns n e | None \<Rightarrow> Ok (del s ns n)) (\<lambda>t. run us t))"

primrec table :: "(string \<times> string \<times> 'e option) list \<Rightarrow> (string \<Rightarrow> string \<Rightarrow> 'e option) \<Rightarrow> string \<Rightarrow> string \<Rightarrow> 'e option" where
  "table [] T = T"
| "table (u # us) T =
     (case u of (ns, n, v) \<Rightarrow> table us (\<lambda>ns' n'. if ns' = ns \<and> n' = n then v else T ns' n'))"

lemma run_total:
  assumes "inv s"
  shows "\<exists>t. run us s = Ok t \<and> inv t"
  using assms
proof (induction us arbitrary: s)
  case Nil
  then show ?case by simp
next
  case (Cons u us)
  obtain ns n v where u: "u = (ns, n, v)" by (cases u) auto
  obtain t where "(case v of Some e \<Rightarrow> put s ns n e | None \<Rightarrow> Ok (del s ns n)) = Ok t" and "inv t"
    using Cons.prems put_ok put_inv del_inv by (cases v) (simp, metis option.case(2))
  then show ?case
    using Cons.IH [of t] u by simp
qed

lemma table_cong:
  assumes "\<And>ns n. ns_ok ns \<Longrightarrow> T ns n = T' ns n" and "ns_ok ns"
  shows "table us T ns n = table us T' ns n"
  using assms
proof (induction us arbitrary: T T')
  case (Cons u us)
  obtain a b v where u: "u = (a, b, v)" by (cases u) auto
  have "table us (\<lambda>ns' n'. if ns' = a \<and> n' = b then v else T ns' n') ns n =
        table us (\<lambda>ns' n'. if ns' = a \<and> n' = b then v else T' ns' n') ns n"
    by (rule Cons.IH) (use Cons.prems in auto)
  then show ?case
    by (simp add: u)
qed simp

lemma run_refines_table:
  assumes "run us s = Ok t" and "\<And>u. u \<in> set us \<Longrightarrow> ns_ok (fst u)" and "ns_ok ns"
  shows "look t ns n = table us (look s) ns n"
  using assms
proof (induction us arbitrary: s)
  case (Cons u us)
  obtain a b v where u: "u = (a, b, v)" by (cases u) auto
  obtain s' where s': "(case v of Some e \<Rightarrow> put s a b e | None \<Rightarrow> Ok (del s a b)) = Ok s'"
    and run: "run us s' = Ok t"
    using Cons.prems(1) u by (auto simp: go_bind_eq_Ok)
  have "ns_ok a" using Cons.prems(2) [of u] u by simp
  then have upd: "\<And>ns n. ns_ok ns \<Longrightarrow> look s' ns n = (if ns = a \<and> n = b then v else look s ns n)"
    using s' look_put look_del by (cases v) auto
  have "look t ns n = table us (look s') ns n"
    using Cons.IH [OF run] Cons.prems(2,3) by simp
  also have "\<dots> = table us (\<lambda>ns' n'. if ns' = a \<and> n' = b then v else look s ns' n') ns n"
    by (rule table_cong) (auto simp: upd Cons.prems(3))
  finally show ?case
    by (simp add: u)
qed simp

end

section \<open>The annotation cache and the ConfigMap cache are tables\<close>

definition cache_inv :: "serviceAccountCache \<Rightarrow> bool" where
  "cache_inv c \<longleftrightarrow>
     notif_inv (notifs c) \<and> (\<forall>k. handlers (notifs c) k \<noteq> None \<longrightarrow> saCache c k = None)"

lemma setSA_Ok:
  assumes "setSA c name ns e = Ok c'"
  obtains n where "broadcast (notifs c) (cache_key ns name) = Ok n"
    and "c' = c\<lparr>saCache := (saCache c)(cache_key ns name \<mapsto> e), notifs := n\<rparr>"
  using assms by (auto simp: setSA_def Let_def go_bind_eq_Ok)

lemma setSA_total: "cache_inv c \<Longrightarrow> \<exists>c'. setSA c name ns e = Ok c'"
  unfolding setSA_def Let_def cache_inv_def
  using nt.wake_ok [of "notifs c" "cache_key ns name"] by auto

lemma setSA_inv [inv_intros]: "cache_inv c \<Longrightarrow> setSA c name ns e = Ok c' \<Longrightarrow> cache_inv c'"
  by (erule setSA_Ok) (auto simp: cache_inv_def nt.wake_waiting intro: nt.wake_inv)

lemma popSA_inv [inv_intros]: "cache_inv c \<Longrightarrow> cache_inv (popSA c name ns)"
  by (auto simp: cache_inv_def popSA_def)

lemma setCM_inv [inv_intros]: "cache_inv c \<Longrightarrow> cache_inv (setCM c name ns e)"
  by (simp add: cache_inv_def setCM_def)

lemma popCM_inv [inv_intros]: "cache_inv c \<Longrightarrow> cache_inv (popCM c name ns)"
  by (simp add: cache_inv_def popCM_def)

lemma Clear_inv [inv_intros]: "cache_inv c \<Longrightarrow> cache_inv (Clear c)"
  by (simp add: cache_inv_def Clear_def)

interpretation sa: account_table
  "\<lambda>c ns n. saCache c (cache_key ns n)" "\<lambda>c ns n e. setSA c n ns e" "\<lambda>c ns n. popSA c n ns" cache_inv
proof (unfold_locales, goal_cases)
  case (1 s ns n e) then show ?case by (rule setSA_total)
next
  case (2 s ns n e t) then show ?case by (rule setSA_inv)
next
  case (3 s ns n) then show ?case by (rule popSA_inv)
next
  case (4 s ns n e t ns' n') then show ?case
    by (auto elim!: setSA_Ok simp: cache_key_eq_iff)
next
  case (5 ns ns' s n n') then show ?case
    by (auto simp: popSA_def cache_key_eq_iff)
qed

interpretation cm: account_table
  "\<lambda>c ns n. getCM c n ns" "\<lambda>c ns n e. Ok (setCM c n ns e)" "\<lambda>c ns n. popCM c n ns" cache_inv
proof (unfold_locales, goal_cases)
  case (4 s ns n e t ns' n') then show ?case
    by (auto simp: setCM_def getCM_def cache_key_eq_iff)
next
  case (5 ns ns' s n n') then show ?case
    by (auto simp: popCM_def getCM_def cache_key_eq_iff)
qed (auto intro: inv_intros)

section \<open>Lookups\<close>

lemma getSA_quiet: "\<not> RequestNotification req \<Longrightarrow> getSA c req = Ok (c, saCache c (CacheKey req), None)"
  by (simp add: getSA_def)

lemma getSA_found: "saCache c (CacheKey req) = Some e \<Longrightarrow> getSA c req = Ok (c, Some e, None)"
  by (simp add: getSA_def)

text \<open>The entry that decides: the annotated one if it names a role, else the ConfigMap's.\<close>

definition effective :: "serviceAccountCache \<Rightarrow> Request \<Rightarrow> Entry option" where
  "effective c req =
     (case saCache c (CacheKey req) of
        Some e \<Rightarrow> if eRoleARN e \<noteq> [] then Some e else cm_lookup c req
      | None \<Rightarrow> cm_lookup c req)"

definition response_of :: "Entry option \<Rightarrow> bool \<Rightarrow> chan option \<Rightarrow> Response" where
  "response_of eff found ch =
     (let base = emptyResponse\<lparr>Notifier := ch, FoundInCache := found\<rparr>
      in case eff of Some e \<Rightarrow> fromEntry e base | None \<Rightarrow> base)"

definition found_in :: "serviceAccountCache \<Rightarrow> Request \<Rightarrow> bool" where
  "found_in c req \<longleftrightarrow> saCache c (CacheKey req) \<noteq> None \<or> cm_lookup c req \<noteq> None"

lemma getSA_cases:
  assumes "getSA c req = Ok (c', entry, ch)"
  shows "entry = saCache c (CacheKey req)" and "saCache c' = saCache c" and "cmCache c' = cmCache c"
    and "ch \<noteq> None \<longleftrightarrow> saCache c (CacheKey req) = None \<and> RequestNotification req"
  using assms by (auto simp: getSA_def go_bind_eq_Ok split: if_splits prod.splits)

lemma cm_lookup_cong: "cmCache c' = cmCache c \<Longrightarrow> cm_lookup c' req = cm_lookup c req"
  unfolding cm_lookup_def getCM_def by (simp split: option.split)

lemma Get_Ok:
  assumes "Get c req = Ok (c', resp)"
  obtains entry ch where "getSA c req = Ok (c', entry, ch)"
    and "resp = response_of (effective c req) (found_in c req) ch"
proof -
  obtain entry ch where g: "getSA c req = Ok (c', entry, ch)"
    using assms by (auto simp: Get_def go_bind_eq_Ok Let_def split: prod.splits option.splits if_splits)
  have "resp = response_of (effective c req) (found_in c req) ch"
    using assms getSA_cases [OF g] cm_lookup_cong [of c' c req] g
    by (auto simp: Get_def Let_def response_of_def effective_def found_in_def fromEntry_def
             split: option.splits if_splits)
  with g show ?thesis using that by blast
qed

lemma Get_quiet:
  "\<not> RequestNotification req \<Longrightarrow> Get c req = Ok (c, response_of (effective c req) (found_in c req) None)"
  by (auto simp: Get_def getSA_quiet Let_def response_of_def effective_def found_in_def fromEntry_def
           split: option.splits)

lemma response_of_Notifier: "response_of eff found (Some ch) = (response_of eff found None)\<lparr>Notifier := Some ch\<rparr>"
  by (simp add: response_of_def fromEntry_def emptyResponse_def Let_def split: option.split)

lemma Get_by_registration:
  "Get c req =
     (if RequestNotification req \<and> saCache c (CacheKey req) = None
      then go_bind (create (notifs c) req) (\<lambda>(n, ch). Ok (c\<lparr>notifs := n\<rparr>, (response_of (effective c req) (found_in c req) None)\<lparr>Notifier := Some ch\<rparr>))
      else Ok (c, response_of (effective c req) (found_in c req) None))"
proof (cases "RequestNotification req \<and> saCache c (CacheKey req) = None")
  case True
  show ?thesis
  proof (cases "create (notifs c) req")
    case (Ok x)
    obtain n ch where "x = (n, ch)" by (cases x)
    then have g: "getSA c req = Ok (c\<lparr>notifs := n\<rparr>, None, Some ch)"
      using True Ok by (simp add: getSA_def)
    have "Get c req = Ok (c\<lparr>notifs := n\<rparr>, response_of (effective c req) (found_in c req) (Some ch))"
      using True cm_lookup_cong [of "c\<lparr>notifs := n\<rparr>" c req]
      by (simp add: Get_def g Let_def response_of_def effective_def found_in_def fromEntry_def split: option.split)
    then show ?thesis
      using True Ok \<open>x = (n, ch)\<close> by (simp add: response_of_Notifier)
  qed (use True in \<open>simp_all add: Get_def getSA_def\<close>)
next
  case False
  then have "getSA c req = Ok (c, saCache c (CacheKey req), None)"
    by (auto simp: getSA_def)
  with False show ?thesis
    by (auto simp: Get_def Let_def response_of_def effective_def found_in_def fromEntry_def split: option.splits)
qed

lemma Get_frame [frame]:
  assumes "Get c req = Ok (c', resp)"
  shows "saCache c' = saCache c" and "cmCache c' = cmCache c"
  using assms by (auto elim!: Get_Ok dest: getSA_cases)

lemma getSA_inv [inv_intros]: "cache_inv c \<Longrightarrow> getSA c req = Ok (c', x) \<Longrightarrow> cache_inv c'"
  by (auto simp: getSA_def cache_inv_def go_bind_eq_Ok nt.register_waiting
           intro: nt.register_inv split: if_splits)

lemma Get_inv [inv_intros]: "cache_inv c \<Longrightarrow> Get c req = Ok (c', resp) \<Longrightarrow> cache_inv c'"
  by (erule Get_Ok) (rule getSA_inv)

lemma Get_no_panic: "Get c req \<noteq> Panic p"
  by (auto simp: Get_def getSA_def go_bind_eq_Panic Let_def create_no_panic
           split: prod.splits option.splits if_splits)

lemma Get_returns:
  assumes "length (fetchRequests (notifs c)) < fetchCap (notifs c) \<or> \<not> RequestNotification req"
  shows "\<exists>c' resp. Get c req = Ok (c', resp)"
proof -
  obtain c' entry ch where "getSA c req = Ok (c', entry, ch)"
    using assms create_returns [of "notifs c" req] by (fastforce simp: getSA_def)
  then show ?thesis
    by (auto simp: Get_def Let_def split: option.splits)
qed

section \<open>Adding a service account\<close>

lemma addSA_total: "cache_inv c \<Longrightarrow> \<exists>c'. addSA c sa = Ok c'"
  unfolding addSA_def Let_def by (rule setSA_total) (simp add: cache_inv_def)

lemma addSA_inv [inv_intros]: "cache_inv c \<Longrightarrow> addSA c sa = Ok c' \<Longrightarrow> cache_inv c'"
  unfolding addSA_def Let_def by (erule setSA_inv [rotated]) (simp add: cache_inv_def)

lemma addSA_Ok:
  assumes "addSA c sa = Ok c'"
  obtains n where "broadcast (notifs c) (cache_key (saNamespace sa) (saName sa)) = Ok n"
    and "c' = c\<lparr>saCache := (saCache c)(cache_key (saNamespace sa) (saName sa) \<mapsto> entry_of_SA c sa),
                webhookUsage := 1, notifs := n\<rparr>"
  using assms by (auto simp: addSA_def Let_def elim!: setSA_Ok)

lemma addSA_look:
  assumes "addSA c sa = Ok c'" and "ns_ok (saNamespace sa)" and "ns_ok ns"
  shows "saCache c' (cache_key ns n) =
    (if ns = saNamespace sa \<and> n = saName sa then Some (entry_of_SA c sa) else saCache c (cache_key ns n))"
  using assms by (auto elim!: addSA_Ok simp: cache_key_eq_iff)

lemma addSA_frame [frame]:
  assumes "addSA c sa = Ok c'"
  shows "cmCache c' = cmCache c" and "defaultTokenExpiration c' = defaultTokenExpiration c"
    and "defaultAudience c' = defaultAudience c" and "defaultRegionalSTS c' = defaultRegionalSTS c"
    and "annotationPrefix c' = annotationPrefix c" and "composeRoleArn c' = composeRoleArn c"
  using assms by (auto elim!: addSA_Ok)

section \<open>Token expirations of annotated accounts\<close>

definition expiration_inv :: "serviceAccountCache \<Rightarrow> bool" where
  "expiration_inv c \<longleftrightarrow>
     600 \<le> sint (defaultTokenExpiration c) \<and>
     (\<forall>k e. saCache c k = Some e \<longrightarrow> 600 \<le> sint (eTokenExpiration e))"

lemma entry_of_SA_expiration:
  "600 \<le> sint (defaultTokenExpiration c) \<Longrightarrow> 600 \<le> sint (eTokenExpiration (entry_of_SA c sa))"
  by (auto simp: entry_of_SA_def Let_def ValidateMin_lower split: option.splits sum.splits)

lemma addSA_expiration [inv_intros]: "expiration_inv c \<Longrightarrow> addSA c sa = Ok c' \<Longrightarrow> expiration_inv c'"
  by (auto elim!: addSA_Ok simp: expiration_inv_def entry_of_SA_expiration split: if_splits)

lemma popSA_expiration [inv_intros]: "expiration_inv c \<Longrightarrow> expiration_inv (popSA c n ns)"
  by (auto simp: expiration_inv_def popSA_def split: if_splits)

section \<open>Claims\<close>

text \<open>
  C6. The annotation cache refines a table indexed by namespace and name: any sequence of
  \<open>setSA\<close> and \<open>popSA\<close> calls from a state that satisfies the invariant runs to its end without
  a panic, keeps the invariant, and afterwards the entry of every account is the one its last
  update gave, or the one it had before if no update named it. Accounts of different
  namespaces or names never share an entry.
\<close>

theorem annotation_cache_refines_table:
  assumes "cache_inv c" and "\<And>u. u \<in> set us \<Longrightarrow> ns_ok (fst u)"
  shows "\<exists>c'. sa.run us c = Ok c' \<and> cache_inv c' \<and>
    (\<forall>ns n. ns_ok ns \<longrightarrow>
       saCache c' (cache_key ns n) = sa.table us (\<lambda>ns n. saCache c (cache_key ns n)) ns n)"
  using sa.run_total [OF assms(1), of us] sa.run_refines_table [of us c] assms(2) by blast

definition exampleEntry :: Entry where
  "exampleEntry = \<lparr>eRoleARN = ''arn:aws:iam::111122223333:role/s3-reader'',
     eAudience = ''sts.amazonaws.com'', eUseRegionalSTS = True, eTokenExpiration = 3600\<rparr>"

definition exampleCache :: serviceAccountCache where
  "exampleCache = New ''sts.amazonaws.com'' ''eks.amazonaws.com'' False 86400
     \<lparr>Enabled = False, AccountID = [], Partition = [], arnRegion = []\<rparr>"

lemma New_inv [inv_intros]: "cache_inv (New aud pfx regional expiration compose)"
  using newNotifications_inv by (simp add: New_def cache_inv_def newNotifications_def)

theorem annotation_cache_refines_table_witness:
  "\<exists>c'. sa.run [(''ns'', ''sa'', Some exampleEntry), (''ns'', ''other'', None)] exampleCache = Ok c' \<and>
     saCache c' (cache_key ''ns'' ''sa'') = Some exampleEntry"
proof -
  have "cache_inv exampleCache"
    unfolding exampleCache_def by (rule New_inv)
  moreover have "ns_ok (fst u)"
    if "u \<in> set [(''ns'', ''sa'', Some exampleEntry), (''ns'', ''other'', None)]" for u
    using that by (auto simp: ns_ok_def)
  ultimately obtain c' where
    "sa.run [(''ns'', ''sa'', Some exampleEntry), (''ns'', ''other'', None)] exampleCache = Ok c'"
    and "\<forall>ns n. ns_ok ns \<longrightarrow> saCache c' (cache_key ns n) =
      sa.table [(''ns'', ''sa'', Some exampleEntry), (''ns'', ''other'', None)]
        (\<lambda>ns n. saCache exampleCache (cache_key ns n)) ns n"
    using annotation_cache_refines_table [of exampleCache
        "[(''ns'', ''sa'', Some exampleEntry), (''ns'', ''other'', None)]"] by blast
  then show ?thesis by (auto simp: ns_ok_def)
qed

text \<open>The sources of an account's configuration, in the order the documentation gives them.\<close>

definition candidates :: "serviceAccountCache \<Rightarrow> Request \<Rightarrow> Entry list" where
  "candidates c req =
     filter (\<lambda>e. eRoleARN e \<noteq> []) (case saCache c (CacheKey req) of Some e \<Rightarrow> [e] | None \<Rightarrow> []) @
     (case cmCache c (CacheKey req) of Some e \<Rightarrow> [e] | None \<Rightarrow> []) @
     (case cmCache c (cache_key ''*'' (reqName req)) of Some e \<Rightarrow> [e] | None \<Rightarrow> [])"

lemma effective_candidates:
  "effective c req = (case candidates c req of [] \<Rightarrow> None | e # _ \<Rightarrow> Some e)"
  by (auto simp: effective_def candidates_def cm_lookup_def getCM_def CacheKey_def split: option.splits)

lemma found_in_candidates:
  "found_in c req \<longleftrightarrow> saCache c (CacheKey req) \<noteq> None \<or> candidates c req \<noteq> []"
  by (auto simp: found_in_def candidates_def cm_lookup_def getCM_def CacheKey_def split: option.splits)

text \<open>
  C7. The order of precedence of \<open>Get\<close>, for every request: the first of the annotated entry (if it names
  a role), the ConfigMap entry of the account, and the ConfigMap entry of the name in namespace
  \<open>*\<close> answers; with none of them the answer has no role and the default lifetime. The account
  counts as found when it is annotated without a role, too. A request with notification for an account
  that is not annotated is registered as well and gets the channel of the registration along with
  the same answer, so that the ConfigMap decides although a channel was handed out; it does not return
  while the registration cannot be queued. Every other request returns at once and changes nothing.
\<close>

theorem Get_precedence:
  "Get c req =
    (let base = emptyResponse\<lparr>FoundInCache := (saCache c (CacheKey req) \<noteq> None \<or> candidates c req \<noteq> [])\<rparr>;
         answer = (case candidates c req of [] \<Rightarrow> base | e # _ \<Rightarrow> fromEntry e base)
     in if RequestNotification req \<and> saCache c (CacheKey req) = None
        then go_bind (create (notifs c) req) (\<lambda>(n, ch). Ok (c\<lparr>notifs := n\<rparr>, answer\<lparr>Notifier := Some ch\<rparr>))
        else Ok (c, answer))"
proof -
  have answer: "response_of (effective c req) (found_in c req) None =
      (let base = emptyResponse\<lparr>FoundInCache := (saCache c (CacheKey req) \<noteq> None \<or> candidates c req \<noteq> [])\<rparr>
       in case candidates c req of [] \<Rightarrow> base | e # _ \<Rightarrow> fromEntry e base)"
    by (simp add: response_of_def effective_candidates found_in_candidates Let_def emptyResponse_def split: list.split)
  show ?thesis
    using Get_by_registration [of c req] unfolding answer Let_def .
qed

definition wildcardCache :: serviceAccountCache where
  "wildcardCache = setCM exampleCache ''sa'' ''*'' exampleEntry"

definition quietRequest :: Request where
  "quietRequest = \<lparr>reqName = ''sa'', reqNamespace = ''ns'', RequestNotification = False\<rparr>"

theorem Get_precedence_witness:
  "\<exists>n ch. Get wildcardCache (quietRequest\<lparr>RequestNotification := True\<rparr>) =
     Ok (wildcardCache\<lparr>notifs := n\<rparr>, (fromEntry exampleEntry (emptyResponse\<lparr>FoundInCache := True\<rparr>))\<lparr>Notifier := Some ch\<rparr>) \<and>
   handlers n ''ns/sa'' = Some ch"
proof -
  let ?req = "quietRequest\<lparr>RequestNotification := True\<rparr>"
  have one: "candidates wildcardCache ?req = [exampleEntry]" and miss: "saCache wildcardCache ''ns/sa'' = None"
    and key: "CacheKey ?req = ''ns/sa''"
    by (simp_all add: candidates_def wildcardCache_def setCM_def exampleCache_def New_def quietRequest_def
          CacheKey_def cache_key_def)
  obtain n ch where create: "create (notifs wildcardCache) ?req = Ok (n, ch)"
    using create_returns [of "notifs wildcardCache" ?req]
    by (auto simp: wildcardCache_def setCM_def exampleCache_def New_def newNotifications_def)
  show ?thesis
    using Get_precedence [of wildcardCache ?req] create_registers [OF create]
    by (auto simp: one miss create Let_def key)
qed

text \<open>
  Keys of the ConfigMap are no patterns: an entry whose namespace is neither that of the request nor
  exactly \<open>*\<close> has no influence on its answer, \<open>test-*\<close> for one.
\<close>

lemma pattern_keys_ignored:
  assumes "ns \<noteq> reqNamespace req" and "ns \<noteq> ''*''" and "CHR ''/'' \<notin> set ns" and "CHR ''/'' \<notin> set (reqNamespace req)"
  shows "candidates (setCM c name ns e) req = candidates c req"
proof -
  have "cache_key ns name \<noteq> CacheKey req" "cache_key ns name \<noteq> cache_key ''*'' (reqName req)"
    using assms by (auto simp: CacheKey_def cache_key_inject)
  then show ?thesis
    by (auto simp: candidates_def setCM_def)
qed

text \<open>
  Completing a role name to an ARN: with composition on the stored role always contains
  \<open>arn:\<close> and ends in the annotation's value, a value that contains \<open>arn:\<close> already is kept as
  it is, and completing the result again changes nothing; with composition off every value
  is kept.
\<close>

lemma composeArn_correct:
  "(if Enabled cfg
    then Contains (composeArn cfg arn) ''arn:'' \<and> suffix arn (composeArn cfg arn) \<and>
         (composeArn cfg arn = arn \<longleftrightarrow> Contains arn ''arn:'')
    else composeArn cfg arn = arn) \<and>
   composeArn cfg (composeArn cfg arn) = composeArn cfg arn"
proof -
  define p where "p = ''arn:'' @ Partition cfg @ '':iam::'' @ AccountID cfg @ '':role/''"
  have p: "Contains (p @ arn) ''arn:''" and "p \<noteq> []"
    by (simp_all add: Contains_iff_sublist p_def sublist_def)
       (metis append.left_neutral append_Cons append_assoc)
  have "composeArn cfg arn = (if \<not> Contains arn ''arn:'' \<and> Enabled cfg then p @ arn else arn)" for arn
    by (simp add: composeArn_def p_def)
  with p \<open>p \<noteq> []\<close> show ?thesis
    by (auto simp: suffix_def)
qed

end
