(* ===== verification/ConfigMapProps.thy ===== *)
theory ConfigMapProps
  imports CacheProps "HOL-Library.Multiset"
begin

text \<open>
  The ConfigMap side of the cache. A well-formed configuration (every key \<open>namespace/name\<close>,
  no \<open>null\<close> member) stands for a table; an add event overlays the table on the
  cache, an update event turns a cache that holds the old table into one that holds the new one.
  The results hold for every order in which Go may iterate over the decoded maps. The last
  section states what happens outside well-formed configurations.
\<close>

section \<open>Decoded configurations\<close>

definition permutes_keys :: "(string list \<Rightarrow> string list) \<Rightarrow> bool" where
  "permutes_keys ord \<longleftrightarrow> (\<forall>ks. mset (ord ks) = mset ks)"

lemma permutes_keys_set: "permutes_keys ord \<Longrightarrow> set (ord ks) = set ks"
  by (metis permutes_keys_def set_mset_mset)

lemma permutes_keys_id: "permutes_keys id"
  by (simp add: permutes_keys_def)

definition two_parts :: "string \<Rightarrow> bool" where
  "two_parts k \<longleftrightarrow> count_list k CHR ''/'' = 1"

lemma two_parts_Split:
  assumes "two_parts k"
  obtains ns n where "Split CHR ''/'' k = [ns, n]" and "k = cache_key ns n" and "ns_ok ns"
proof -
  have "length (Split CHR ''/'' k) = 2"
    using assms by (simp add: two_parts_def length_Split)
  then obtain ns n where s: "Split CHR ''/'' k = [ns, n]"
    by (metis One_nat_def Suc_1 length_0_conv length_Suc_conv)
  then have "ns_ok ns"
    using Split_pieces [of ns "CHR ''/''" k] by (simp add: ns_ok_def)
  with s Split_two_cache_key [OF s] show ?thesis using that by blast
qed

definition wf_config :: "sas \<Rightarrow> bool" where
  "wf_config sas \<longleftrightarrow> list_all (\<lambda>(k, v). two_parts k \<and> v \<noteq> None) sas"

lemma wf_config_two_parts: "wf_config sas \<Longrightarrow> k \<in> fst ` set sas \<Longrightarrow> two_parts k"
  by (auto simp: wf_config_def list_all_iff)

lemma wf_config_lookup:
  assumes "wf_config sas" and "k \<in> fst ` set sas"
  shows "\<exists>e. map_of sas k = Some (Some e)"
proof -
  obtain v where v: "map_of sas k = Some v"
    using assms(2) by (metis map_of_eq_None_iff not_None_eq)
  then have "(k, v) \<in> set sas" by (rule map_of_SomeD)
  with assms v show ?thesis by (auto simp: wf_config_def list_all_iff)
qed

text \<open>The table a configuration stands for.\<close>

definition cm_table :: "serviceAccountCache \<Rightarrow> sas \<Rightarrow> string \<rightharpoonup> Entry" where
  "cm_table c sas k =
     (case map_of sas k of Some (Some e) \<Rightarrow> Some (default_expiration c e) | _ \<Rightarrow> None)"

lemma cm_table_upd [simp]: "cm_table (c\<lparr>cmCache := m\<rparr>) = cm_table c"
  by (intro ext) (simp add: cm_table_def default_expiration_def split: option.split)

lemma cm_table_eq_None: "wf_config sas \<Longrightarrow> cm_table c sas k = None \<longleftrightarrow> k \<notin> fst ` set sas"
  using wf_config_lookup [of sas k] map_of_eq_None_iff [of sas k]
  by (cases "k \<in> fst ` set sas") (force simp: cm_table_def)+

section \<open>The loops\<close>

lemma cm_set_key_wf:
  assumes "wf_config sas" and "k \<in> fst ` set sas"
  shows "cm_set_key sas k c = Ok (c\<lparr>cmCache := (cmCache c)(k := cm_table c sas k)\<rparr>)"
proof -
  obtain e where e: "map_of sas k = Some (Some e)"
    using wf_config_lookup [OF assms] by blast
  obtain ns n where "Split CHR ''/'' k = [ns, n]" and "k = cache_key ns n"
    using two_parts_Split [OF wf_config_two_parts [OF assms]] by blast
  with e show ?thesis
    by (simp add: cm_set_key_def setCM_def cm_table_def)
qed

lemma cm_set_loop:
  assumes "wf_config sas" and "set ks \<subseteq> fst ` set sas"
  shows "go_fold (cm_set_key sas) ks c =
    Ok (c\<lparr>cmCache := (\<lambda>k. if k \<in> set ks then cm_table c sas k else cmCache c k)\<rparr>)"
  using assms
proof (induction ks arbitrary: c)
  case (Cons k ks)
  let ?c1 = "c\<lparr>cmCache := (cmCache c)(k := cm_table c sas k)\<rparr>"
  have "cm_set_key sas k c = Ok ?c1"
    using cm_set_key_wf Cons.prems by simp
  moreover have "(\<lambda>k'. if k' \<in> set ks then cm_table c sas k' else ((cmCache c)(k := cm_table c sas k)) k') =
      (\<lambda>k'. if k' \<in> set (k # ks) then cm_table c sas k' else cmCache c k')"
    by auto
  ultimately show ?case
    using Cons.IH [of ?c1] Cons.prems by (simp cong: if_cong)
qed simp

lemma cm_pop_key_wf:
  assumes "two_parts k"
  shows "cm_pop_key sas k c =
    Ok (c\<lparr>cmCache := (if map_of sas k = None then (cmCache c)(k := None) else cmCache c)\<rparr>)"
  by (rule two_parts_Split [OF assms]) (simp add: cm_pop_key_def popCM_def)

lemma cm_pop_loop:
  assumes "\<And>k. k \<in> set ks \<Longrightarrow> two_parts k"
  shows "go_fold (cm_pop_key sas) ks c =
    Ok (c\<lparr>cmCache := (\<lambda>k. if k \<in> set ks \<and> map_of sas k = None then None else cmCache c k)\<rparr>)"
  using assms
proof (induction ks arbitrary: c)
  case (Cons k ks)
  let ?m = "if map_of sas k = None then (cmCache c)(k := None) else cmCache c"
  have "(\<lambda>k'. if k' \<in> set ks \<and> map_of sas k' = None then None else ?m k') =
      (\<lambda>k'. if k' \<in> set (k # ks) \<and> map_of sas k' = None then None else cmCache c k')"
    by (auto simp: fun_eq_iff)
  then show ?case
    using Cons.IH [of "c\<lparr>cmCache := ?m\<rparr>"] Cons.prems cm_pop_key_wf [of k sas c]
    by (simp cong: if_cong)
qed simp

section \<open>ConfigMap events\<close>

definition is_webhook_cm :: "ConfigMap \<Rightarrow> bool" where
  "is_webhook_cm cm \<longleftrightarrow> cmName cm = ''pod-identity-webhook''"

lemma populate_add:
  assumes "is_webhook_cm new" and "unmarshal_SAs (config_of new) = Inr sas" and "wf_config sas"
    and "permutes_keys ord"
  shows "populateCacheFromCM ord c None new =
    Ok (c\<lparr>cmCache := (cmCache c) ++ cm_table c sas\<rparr>, None)"
proof -
  have keys: "set (ord (map fst sas)) = fst ` set sas"
    using assms(4) by (simp add: permutes_keys_set)
  have "(\<lambda>k. if k \<in> fst ` set sas then cm_table c sas k else cmCache c k) = cmCache c ++ cm_table c sas"
  proof
    fix k
    show "(if k \<in> fst ` set sas then cm_table c sas k else cmCache c k) = (cmCache c ++ cm_table c sas) k"
      using cm_table_eq_None [OF assms(3), of c k] by (cases "cm_table c sas k") (simp_all add: map_add_def)
  qed
  then show ?thesis
    using assms cm_set_loop [OF assms(3), of "ord (map fst sas)" c] keys
    by (simp add: populateCacheFromCM_def is_webhook_cm_def)
qed

lemma populate_update:
  assumes "is_webhook_cm new" and "unmarshal_SAs (config_of new) = Inr sas" and "wf_config sas"
    and "unmarshal_SAs (config_of old) = Inr oldsas" and "wf_config oldsas"
    and "permutes_keys ord"
  shows "populateCacheFromCM ord c (Some old) new =
    Ok (c\<lparr>cmCache := (\<lambda>k. if k \<in> fst ` set sas then cm_table c sas k
                          else if k \<in> fst ` set oldsas then None else cmCache c k)\<rparr>, None)"
proof -
  let ?c1 = "c\<lparr>cmCache := (\<lambda>k. if k \<in> fst ` set sas then cm_table c sas k else cmCache c k)\<rparr>"
  have keys: "set (ord (map fst sas)) = fst ` set sas" "set (ord (map fst oldsas)) = fst ` set oldsas"
    using assms(6) by (simp_all add: permutes_keys_set)
  have set_loop: "go_fold (cm_set_key sas) (ord (map fst sas)) c = Ok ?c1"
    using cm_set_loop [OF assms(3), of "ord (map fst sas)" c] keys by simp
  have pop_loop: "go_fold (cm_pop_key sas) (ord (map fst oldsas)) ?c1 =
      Ok (?c1\<lparr>cmCache := (\<lambda>k. if k \<in> fst ` set oldsas \<and> map_of sas k = None then None else cmCache ?c1 k)\<rparr>)"
    using cm_pop_loop [of "ord (map fst oldsas)" sas ?c1] keys wf_config_two_parts [OF assms(5)] by simp
  show ?thesis
    using assms(1,2,4) set_loop pop_loop
    by (auto simp: populateCacheFromCM_def is_webhook_cm_def map_of_eq_None_iff fun_eq_iff)
qed

text \<open>Only the ConfigMap table changes, whatever the configuration is.\<close>

lemma cm_set_key_frame: "cm_set_key sas k c = Ok c' \<Longrightarrow> c'\<lparr>cmCache := m\<rparr> = c\<lparr>cmCache := m\<rparr>"
  by (auto simp: cm_set_key_def setCM_def split: option.splits list.splits)

lemma cm_pop_key_frame: "cm_pop_key sas k c = Ok c' \<Longrightarrow> c'\<lparr>cmCache := m\<rparr> = c\<lparr>cmCache := m\<rparr>"
  by (auto simp: cm_pop_key_def popCM_def split: if_splits list.splits)

lemma cm_loops_frame:
  "go_fold (cm_set_key sas) ks c = Ok c' \<Longrightarrow> c'\<lparr>cmCache := m\<rparr> = c\<lparr>cmCache := m\<rparr>"
  "go_fold (cm_pop_key sas) ks c = Ok c' \<Longrightarrow> c'\<lparr>cmCache := m\<rparr> = c\<lparr>cmCache := m\<rparr>"
  by (erule go_fold_invariant [where P = "\<lambda>x. x\<lparr>cmCache := m\<rparr> = c\<lparr>cmCache := m\<rparr>"],
      simp, metis cm_set_key_frame)
     (erule go_fold_invariant [where P = "\<lambda>x. x\<lparr>cmCache := m\<rparr> = c\<lparr>cmCache := m\<rparr>"],
      simp, metis cm_pop_key_frame)

lemma populate_Ok:
  assumes "populateCacheFromCM ord c old new = Ok (c', err)"
  shows "c' = c \<or> (\<exists>sas ks. go_fold (cm_set_key sas) ks c = Ok c') \<or>
    (\<exists>sas ks ks' c1. go_fold (cm_set_key sas) ks c = Ok c1 \<and> go_fold (cm_pop_key sas) ks' c1 = Ok c')"
proof (cases "unmarshal_SAs (config_of new)")
  case (Inl e)
  with assms show ?thesis by (auto simp: populateCacheFromCM_def split: if_splits)
next
  case (Inr sas)
  then show ?thesis
  proof (cases "cmName new = ''pod-identity-webhook''")
    case True
    then obtain c1 where c1: "go_fold (cm_set_key sas) (ord (map fst sas)) c = Ok c1"
      using assms Inr by (auto simp: populateCacheFromCM_def go_bind_eq_Ok)
    then have "c' = c1 \<or> (\<exists>ks'. go_fold (cm_pop_key sas) ks' c1 = Ok c')"
      using assms Inr True
      by (cases old) (auto simp: populateCacheFromCM_def go_bind_eq_Ok split: sum.splits)
    with c1 show ?thesis by blast
  qed (use assms in \<open>simp add: populateCacheFromCM_def\<close>)
qed

lemma populate_frame:
  assumes "populateCacheFromCM ord c old new = Ok (c', err)"
  shows "c'\<lparr>cmCache := m\<rparr> = c\<lparr>cmCache := m\<rparr>"
  using populate_Ok [OF assms] by (metis cm_loops_frame)

lemma populate_keeps [frame]:
  assumes "populateCacheFromCM ord c old new = Ok (c', err)"
  shows "saCache c' = saCache c" and "notifs c' = notifs c"
    and "defaultTokenExpiration c' = defaultTokenExpiration c"
  using populate_frame [OF assms, of Map.empty]
  by (metis serviceAccountCache.select_convs serviceAccountCache.surjective
        serviceAccountCache.update_convs(2))+

lemma populate_inv [inv_intros]:
  "cache_inv c \<Longrightarrow> populateCacheFromCM ord c old new = Ok (c', err) \<Longrightarrow> cache_inv c'"
  using populate_keeps [of ord c old new c' err] by (simp add: cache_inv_def)

lemma on_event_inv [inv_intros]: "cache_inv c \<Longrightarrow> on_event ord c ev = Ok c' \<Longrightarrow> cache_inv c'"
  by (cases "(ord, c, ev)" rule: on_event.cases) (auto simp: go_bind_eq_Ok intro: inv_intros)

section \<open>Claims\<close>

lemma on_event_expiration [inv_intros]:
  "expiration_inv c \<Longrightarrow> on_event ord c ev = Ok c' \<Longrightarrow> expiration_inv c'"
  by (cases "(ord, c, ev)" rule: on_event.cases)
     (auto simp: go_bind_eq_Ok intro: inv_intros, auto simp: expiration_inv_def populate_keeps)

text \<open>
  C20. The lifetimes of annotated accounts stay at or above ten minutes: if the default
  lifetime is, then after any sequence of informer events every entry of the annotation cache
  has one of at least 600 seconds, whatever the annotations said.
\<close>

theorem annotated_expiration_floor:
  assumes "600 \<le> sint expiration"
    and "go_fold (\<lambda>ev c. on_event ord c ev) evs (New aud pfx regional expiration compose) = Ok c"
    and "saCache c k = Some e"
  shows "600 \<le> sint (eTokenExpiration e)"
proof -
  have "expiration_inv (New aud pfx regional expiration compose)"
    using assms(1) by (simp add: expiration_inv_def New_def)
  then have "expiration_inv c"
    using go_fold_invariant [OF assms(2), where P = expiration_inv] on_event_expiration by blast
  with assms(3) show ?thesis by (auto simp: expiration_inv_def)
qed

definition shortLived :: ServiceAccount where
  "shortLived = \<lparr>saName = ''sa'', saNamespace = ''ns'',
     saAnnotations = [''eks.amazonaws.com/role-arn'' \<mapsto> ''arn:aws:iam::111122223333:role/s3-reader'',
                      ''eks.amazonaws.com/token-expiration'' \<mapsto> ''-5'']\<rparr>"

theorem annotated_expiration_floor_witness:
  "\<exists>c e. go_fold (\<lambda>ev c. on_event id c ev) [SAAdded shortLived] exampleCache = Ok c \<and>
     saCache c ''ns/sa'' = Some e \<and> 600 \<le> sint (eTokenExpiration e)"
proof -
  obtain c where c: "addSA exampleCache shortLived = Ok c"
    using addSA_total New_inv unfolding exampleCache_def by blast
  then have run: "go_fold (\<lambda>ev c. on_event id c ev) [SAAdded shortLived] exampleCache = Ok c"
    by simp
  have e: "saCache c ''ns/sa'' = Some (entry_of_SA exampleCache shortLived)"
    using c by (auto elim!: addSA_Ok simp: shortLived_def cache_key_def)
  have "600 \<le> sint (eTokenExpiration (entry_of_SA exampleCache shortLived))"
    using annotated_expiration_floor [OF _ run [unfolded exampleCache_def] e] by simp
  with run e show ?thesis by blast
qed

lemma populate_replaces:
  assumes "is_webhook_cm new" and "unmarshal_SAs (config_of new) = Inr sas" and "wf_config sas"
    and "unmarshal_SAs (config_of old) = Inr oldsas" and "wf_config oldsas"
    and "permutes_keys ord" and "cmCache c = cm_table c oldsas"
  shows "populateCacheFromCM ord c (Some old) new = Ok (c\<lparr>cmCache := cm_table c sas\<rparr>, None)"
proof -
  have "(if k \<in> fst ` set sas then cm_table c sas k
         else if k \<in> fst ` set oldsas then None else cmCache c k) = cm_table c sas k" for k
    using cm_table_eq_None [OF assms(3), of c k] cm_table_eq_None [OF assms(5), of c k] assms(7)
    by (cases "k \<in> fst ` set sas"; cases "k \<in> fst ` set oldsas") simp_all
  then show ?thesis
    using populate_update [OF assms(1-6), of c] by (simp cong: if_cong)
qed

text \<open>The events the informer sends for the successive versions of a ConfigMap.\<close>

fun updates_from :: "ConfigMap \<Rightarrow> ConfigMap list \<Rightarrow> informer_event list" where
  "updates_from cm [] = []"
| "updates_from cm (cm' # cms) = CMUpdated cm cm' # updates_from cm' cms"

definition valid_version :: "ConfigMap \<Rightarrow> bool" where
  "valid_version cm \<longleftrightarrow> is_webhook_cm cm \<and>
     (case unmarshal_SAs (config_of cm) of Inl _ \<Rightarrow> False | Inr sas \<Rightarrow> wf_config sas)"

definition version_table :: "serviceAccountCache \<Rightarrow> ConfigMap \<Rightarrow> string \<rightharpoonup> Entry" where
  "version_table c cm =
     (case unmarshal_SAs (config_of cm) of Inl _ \<Rightarrow> Map.empty | Inr sas \<Rightarrow> cm_table c sas)"

lemma version_table_upd [simp]: "version_table (c\<lparr>cmCache := m\<rparr>) = version_table c"
  by (intro ext) (simp add: version_table_def split: sum.split)

lemma updates_run:
  assumes "permutes_keys ord" and "valid_version cm" and "list_all valid_version cms"
    and "cmCache c = version_table c cm"
  shows "go_fold (\<lambda>ev c. on_event ord c ev) (updates_from cm cms) c =
    Ok (c\<lparr>cmCache := version_table c (last (cm # cms))\<rparr>)"
  using assms
proof (induction cm cms arbitrary: c rule: updates_from.induct)
  case (2 cm cm' cms)
  obtain sas oldsas where u: "unmarshal_SAs (config_of cm') = Inr sas" "wf_config sas" "is_webhook_cm cm'"
    and o: "unmarshal_SAs (config_of cm) = Inr oldsas" "wf_config oldsas"
    using 2(3,4) by (auto simp: valid_version_def split: sum.splits)
  let ?c1 = "c\<lparr>cmCache := cm_table c sas\<rparr>"
  have "populateCacheFromCM ord c (Some cm) cm' = Ok (?c1, None)"
    using populate_replaces [OF u(3,1,2) o 2(2)] 2(5) o(1) by (simp add: version_table_def)
  moreover have "cmCache ?c1 = version_table ?c1 cm'"
    using u(1) by (simp add: version_table_def)
  ultimately show ?case
    using "2.IH" [of ?c1] 2(2-4) by simp
qed simp

text \<open>
  C2. The ConfigMap cache follows the ConfigMap: when the informer reports a first version and
  then any number of updates, all of them well formed, a new cache handles every event
  without a panic and ends up holding exactly the table of the last version, with the default
  lifetime for entries that give none. Entries of earlier versions that are gone from the last
  one are gone from the cache. This holds for every order in which the decoded maps are
  iterated, and no event touches anything but the ConfigMap table.
\<close>

theorem configmap_versions_refine:
  assumes "permutes_keys ord" and "valid_version cm" and "list_all valid_version cms"
    and "c = New aud pfx regional expiration compose"
  shows "go_fold (\<lambda>ev c. on_event ord c ev) (CMAdded cm # updates_from cm cms) c =
    Ok (c\<lparr>cmCache := version_table c (last (cm # cms))\<rparr>)"
proof -
  obtain sas where u: "unmarshal_SAs (config_of cm) = Inr sas" "wf_config sas" "is_webhook_cm cm"
    using assms(2) by (auto simp: valid_version_def split: sum.splits)
  let ?c1 = "c\<lparr>cmCache := version_table c cm\<rparr>"
  have "on_event ord c (CMAdded cm) = Ok ?c1"
    using populate_add [OF u(3,1,2) assms(1), of c] u(1) assms(4) by (simp add: version_table_def New_def)
  moreover have "cmCache ?c1 = version_table ?c1 cm"
    by simp
  ultimately show ?thesis
    using updates_run [OF assms(1-3), of ?c1] by simp
qed

definition webhookCM :: "string \<Rightarrow> ConfigMap" where
  "webhookCM config = \<lparr>cmName = ''pod-identity-webhook'', cmData = [''config'' \<mapsto> config]\<rparr>"

definition firstConfig :: string where
  \<open>firstConfig = ''{"ns/sa":{"RoleARN":"arn:a"},"*/all":{"RoleARN":"arn:b"}}''\<close>

definition secondConfig :: string where
  \<open>secondConfig = ''{"*/all":{"RoleARN":"arn:c","TokenExpiration":3600}}''\<close>

lemma config_of_webhookCM [simp]: "config_of (webhookCM s) = s"
  by (simp add: config_of_def webhookCM_def)

lemma unmarshal_first:
  "unmarshal_SAs firstConfig =
     Inr [(''ns/sa'', Some (zeroEntry\<lparr>eRoleARN := ''arn:a''\<rparr>)), (''*/all'', Some (zeroEntry\<lparr>eRoleARN := ''arn:b''\<rparr>))]"
  by code_simp

lemma unmarshal_second:
  "unmarshal_SAs secondConfig =
     Inr [(''*/all'', Some (zeroEntry\<lparr>eRoleARN := ''arn:c'', eTokenExpiration := 3600\<rparr>))]"
  by code_simp

theorem configmap_versions_refine_witness:
  "\<exists>c. go_fold (\<lambda>ev c. on_event rev c ev)
         [CMAdded (webhookCM firstConfig), CMUpdated (webhookCM firstConfig) (webhookCM secondConfig)] exampleCache = Ok c \<and>
     cmCache c = [''*/all'' \<mapsto> zeroEntry\<lparr>eRoleARN := ''arn:c'', eTokenExpiration := 3600\<rparr>]"
proof -
  have "permutes_keys rev"
    by (simp add: permutes_keys_def)
  moreover have "valid_version (webhookCM firstConfig)" "list_all valid_version [webhookCM secondConfig]"
    by (simp_all add: valid_version_def unmarshal_first unmarshal_second wf_config_def two_parts_def is_webhook_cm_def)
       (simp_all add: webhookCM_def)
  moreover have "version_table exampleCache (webhookCM secondConfig) =
      [''*/all'' \<mapsto> zeroEntry\<lparr>eRoleARN := ''arn:c'', eTokenExpiration := 3600\<rparr>]"
    by (rule ext) (simp add: version_table_def unmarshal_second cm_table_def default_expiration_def)
  ultimately show ?thesis
    using configmap_versions_refine [OF _ _ _ exampleCache_def, of rev "webhookCM firstConfig" "[webhookCM secondConfig]"]
    by simp
qed

text \<open>
  C26. A version of the ConfigMap that does not parse is reported and changes nothing, and the
  update that follows it sets the entries of its own version but cannot remove any: it
  reports the old version instead.
\<close>

theorem malformed_version_keeps_entries:
  assumes "is_webhook_cm bad" and "unmarshal_SAs (config_of bad) = Inl err"
    and "is_webhook_cm new" and "unmarshal_SAs (config_of new) = Inr sas" and "wf_config sas" and "permutes_keys ord"
  shows "populateCacheFromCM ord c old bad = Ok (c, Some (NewConfigError err)) \<and>
    populateCacheFromCM ord c (Some bad) new =
      Ok (c\<lparr>cmCache := cmCache c ++ cm_table c sas\<rparr>, Some (OldConfigError err))"
proof -
  have "go_fold (cm_set_key sas) (ord (map fst sas)) c = Ok (c\<lparr>cmCache := cmCache c ++ cm_table c sas\<rparr>)"
    using populate_add [OF assms(3-6), of c] assms(3,4)
    by (auto simp: populateCacheFromCM_def is_webhook_cm_def go_bind_eq_Ok)
  with assms show ?thesis
    by (simp add: populateCacheFromCM_def is_webhook_cm_def)
qed

theorem malformed_version_keeps_entries_witness:
  "populateCacheFromCM id wildcardCache (Some (webhookCM ''{'')) (webhookCM secondConfig) =
     Ok (wildcardCache\<lparr>cmCache := [''*/sa'' \<mapsto> exampleEntry,
           ''*/all'' \<mapsto> zeroEntry\<lparr>eRoleARN := ''arn:c'', eTokenExpiration := 3600\<rparr>]\<rparr>,
         Some (OldConfigError SyntaxError))"
proof -
  have bad: "unmarshal_SAs ''{'' = Inl SyntaxError"
    by code_simp
  have wf: "wf_config [(''*/all'', Some (zeroEntry\<lparr>eRoleARN := ''arn:c'', eTokenExpiration := 3600\<rparr>))]"
    by (simp add: wf_config_def two_parts_def)
  have "cmCache wildcardCache ++ cm_table wildcardCache
      [(''*/all'', Some (zeroEntry\<lparr>eRoleARN := ''arn:c'', eTokenExpiration := 3600\<rparr>))] =
    [''*/sa'' \<mapsto> exampleEntry, ''*/all'' \<mapsto> zeroEntry\<lparr>eRoleARN := ''arn:c'', eTokenExpiration := 3600\<rparr>]"
    by (rule ext) (simp add: cm_table_def default_expiration_def map_add_def wildcardCache_def setCM_def
         exampleCache_def New_def cache_key_def)
  then show ?thesis
    using malformed_version_keeps_entries [of "webhookCM ''{''" SyntaxError "webhookCM secondConfig",
        OF _ _ _ _ wf permutes_keys_id, of wildcardCache] bad
    by (simp add: unmarshal_second is_webhook_cm_def) (simp add: webhookCM_def)
qed

lemma cm_set_loop_panics:
  assumes "list_all (\<lambda>(k, v). v \<noteq> None) sas" and "k \<in> set ks" and "CHR ''/'' \<notin> set k"
    and "set ks \<subseteq> fst ` set sas"
  shows "go_fold (cm_set_key sas) ks c = Panic IndexOutOfRange"
  using assms(2,4)
proof (induction ks arbitrary: c)
  case (Cons k' ks)
  obtain e where e: "map_of sas k' = Some (Some e)"
  proof -
    obtain v where "map_of sas k' = Some v"
      using Cons.prems by (metis map_of_eq_None_iff not_None_eq list.set_intros(1) subsetD)
    moreover have "v \<noteq> None"
      using map_of_SomeD [OF calculation] assms(1) by (auto simp: list_all_iff)
    ultimately show thesis using that by blast
  qed
  show ?case
  proof (cases "Split CHR ''/'' k'")
    case (Cons p ps)
    with e Cons.prems Cons.IH assms(3) show ?thesis
      by (cases ps) (auto simp: cm_set_key_def Split_no_sep)
  qed (simp add: cm_set_key_def e)
qed simp

text \<open>
  C27. A key of the ConfigMap without a slash makes the handler panic: \<open>parts[1]\<close> is out of range.
  This is so for every order of iteration, if no member is \<open>null\<close> (a \<open>null\<close> member
  panics by itself).
\<close>

theorem key_without_slash_panics:
  assumes "is_webhook_cm new" and "unmarshal_SAs (config_of new) = Inr sas"
    and "list_all (\<lambda>(k, v). v \<noteq> None) sas" and "k \<in> fst ` set sas" and "CHR ''/'' \<notin> set k"
    and "permutes_keys ord"
  shows "populateCacheFromCM ord c old new = Panic IndexOutOfRange"
  using assms cm_set_loop_panics [OF assms(3) _ assms(5), of "ord (map fst sas)" c]
    permutes_keys_set [OF assms(6), of "map fst sas"]
  by (auto simp: populateCacheFromCM_def is_webhook_cm_def)

definition slashlessConfig :: string where
  \<open>slashlessConfig = ''{"ns/a":{},"sa":{"RoleARN":"arn:a"}}''\<close>

theorem key_without_slash_panics_witness:
  "populateCacheFromCM id exampleCache None (webhookCM slashlessConfig) = Panic IndexOutOfRange"
proof -
  have "unmarshal_SAs slashlessConfig = Inr [(''ns/a'', Some zeroEntry), (''sa'', Some (zeroEntry\<lparr>eRoleARN := ''arn:a''\<rparr>))]"
    by code_simp
  moreover have "is_webhook_cm (webhookCM slashlessConfig)"
    by (simp add: is_webhook_cm_def webhookCM_def)
  ultimately show ?thesis
    using key_without_slash_panics [OF _ _ _ _ _ permutes_keys_id, of "webhookCM slashlessConfig" _ "''sa''"]
    by simp
qed

section \<open>Where the ConfigMap differs from the annotations\<close>

text \<open>
  Two gaps. Annotated lifetimes are raised to the minimum; one of a ConfigMap that is not zero is
  stored as it stands. And \<open>Get\<close> honours the entry of namespace \<open>*\<close>, which the settings
  for container credentials never do.
\<close>

lemma configmap_expiration_unclamped:
  assumes "permutes_keys ord" and "wf_config sas" and "is_webhook_cm new" and "unmarshal_SAs (config_of new) = Inr sas"
    and "map_of sas k = Some (Some e)" and "eTokenExpiration e \<noteq> 0"
  shows "\<exists>c'. populateCacheFromCM ord c None new = Ok (c', None) \<and> cmCache c' k = Some e"
  using populate_add [OF assms(3,4,2,1), of c] assms(5,6)
  by (auto simp: map_add_def cm_table_def default_expiration_def)

lemma wildcard_ignored_by_common:
  assumes "namespace \<noteq> ''*''" and "CHR ''/'' \<notin> set namespace"
  shows "GetCommonConfigurations (setCM c name ''*'' e) name namespace = GetCommonConfigurations c name namespace"
proof -
  have "cache_key namespace name \<noteq> cache_key ''*'' name"
    using assms by (simp add: cache_key_inject)
  then show ?thesis
    by (simp add: GetCommonConfigurations_def getSA_def getCM_def setCM_def cong: option.case_cong)
qed

end
