(* ===== verification/FakeCache.thy ===== *)
theory FakeCache
  imports CacheProps
begin

text \<open>
  \<open>pkg/cache/fake.go\<close>: the cache used by the tests, an implementation of the same Go interface
  with one table and no notifications.
\<close>

record FakeServiceAccountCache =
  fakeCache :: "string \<rightharpoonup> Entry"

definition fakeAdd ::
  "FakeServiceAccountCache \<Rightarrow> string \<Rightarrow> string \<Rightarrow> string \<Rightarrow> string \<Rightarrow> bool \<Rightarrow> int64 \<Rightarrow> FakeServiceAccountCache" where
  "fakeAdd f name namespace role aud regionalSTS tokenExpiration =
     f\<lparr>fakeCache := (fakeCache f)(cache_key namespace name \<mapsto>
        \<lparr>eRoleARN = role, eAudience = aud, eUseRegionalSTS = regionalSTS, eTokenExpiration = tokenExpiration\<rparr>)\<rparr>"

definition fakePop :: "FakeServiceAccountCache \<Rightarrow> string \<Rightarrow> string \<Rightarrow> FakeServiceAccountCache" where
  "fakePop f name namespace = f\<lparr>fakeCache := (fakeCache f)(cache_key namespace name := None)\<rparr>"

definition fakeClear :: "FakeServiceAccountCache \<Rightarrow> FakeServiceAccountCache" where
  "fakeClear f = f\<lparr>fakeCache := Map.empty\<rparr>"

text \<open>A missing annotation reads as the empty string; \<open>ParseBool\<close> gives false with its error.\<close>

definition fakeAddSA :: "FakeServiceAccountCache \<Rightarrow> ServiceAccount \<Rightarrow> FakeServiceAccountCache" where
  "fakeAddSA f sa =
     (let get = (\<lambda>a. case saAnnotations sa a of Some s \<Rightarrow> s | None \<Rightarrow> []);
          arn = get ''eks.amazonaws.com/role-arn'';
          aud = (case saAnnotations sa ''eks.amazonaws.com/audience'' of Some s \<Rightarrow> s | None \<Rightarrow> ''sts.amazonaws.com'');
          regionalSTS = (case ParseBool (get ''eks.amazonaws.com/sts-regional-endpoints'') of Inr b \<Rightarrow> b | Inl _ \<Rightarrow> False);
          tokenExpiration = (case ParseInt (get ''eks.amazonaws.com/token-expiration'') of
                               Inr e \<Rightarrow> e | Inl _ \<Rightarrow> DefaultTokenExpiration)
      in fakeAdd f (saName sa) (saNamespace sa) arn aud regionalSTS tokenExpiration)"

definition NewFakeServiceAccountCache :: "ServiceAccount list \<Rightarrow> FakeServiceAccountCache" where
  "NewFakeServiceAccountCache accounts = foldl fakeAddSA \<lparr>fakeCache = Map.empty\<rparr> accounts"

definition fakeCacheGet ::
  "FakeServiceAccountCache \<Rightarrow> Request \<Rightarrow> (FakeServiceAccountCache \<times> Response) go" where
  "fakeCacheGet f req =
     (case fakeCache f (CacheKey req) of
        None \<Rightarrow> Ok (f, emptyResponse)
      | Some e \<Rightarrow> Ok (f, \<lparr>rRoleARN = eRoleARN e, rAudience = eAudience e,
                         rUseRegionalSTS = eUseRegionalSTS e, rTokenExpiration = eTokenExpiration e,
                         FoundInCache = True, Notifier = None\<rparr>))"

definition fakeGetCommonConfigurations :: "FakeServiceAccountCache \<Rightarrow> string \<Rightarrow> string \<Rightarrow> bool \<times> int64" where
  "fakeGetCommonConfigurations f name namespace =
     (case fakeCache f (cache_key namespace name) of
        None \<Rightarrow> (False, DefaultTokenExpiration)
      | Some e \<Rightarrow> (eUseRegionalSTS e, eTokenExpiration e))"

text \<open>The fake is a table of accounts too.\<close>

interpretation fkc: account_table
  "\<lambda>f ns n. fakeCache f (cache_key ns n)"
  "\<lambda>f ns n e. Ok (fakeAdd f n ns (eRoleARN e) (eAudience e) (eUseRegionalSTS e) (eTokenExpiration e))"
  "\<lambda>f ns n. fakePop f n ns" "\<lambda>f. True"
proof (unfold_locales, goal_cases)
  case (4 s ns n e t ns' n') then show ?case
    by (auto simp: fakeAdd_def cache_key_eq_iff)
next
  case (5 ns ns' s n n') then show ?case
    by (auto simp: fakePop_def cache_key_eq_iff)
qed auto

section \<open>The fake against the real cache\<close>

definition default_settings :: "serviceAccountCache \<Rightarrow> bool" where
  "default_settings c \<longleftrightarrow> annotationPrefix c = ''eks.amazonaws.com'' \<and> defaultAudience c = ''sts.amazonaws.com'' \<and>
     \<not> defaultRegionalSTS c \<and> defaultTokenExpiration c = DefaultTokenExpiration \<and> \<not> Enabled (composeRoleArn c)"

definition lifetime_unclamped :: "ServiceAccount \<Rightarrow> bool" where
  "lifetime_unclamped sa \<longleftrightarrow>
     (case saAnnotations sa ''eks.amazonaws.com/token-expiration'' of
        None \<Rightarrow> True
      | Some s \<Rightarrow> (case ParseInt s of Inl _ \<Rightarrow> True | Inr e \<Rightarrow> 600 \<le> sint e))"

lemma entry_role:
  "default_settings c \<Longrightarrow> eRoleARN (entry_of_SA c sa) =
     (case saAnnotations sa ''eks.amazonaws.com/role-arn'' of Some s \<Rightarrow> s | None \<Rightarrow> [])"
  by (simp add: entry_of_SA_def annotation_key_def annotation_defs default_settings_def composeArn_def split: option.split)

lemma entry_audience:
  "default_settings c \<Longrightarrow> eAudience (entry_of_SA c sa) =
     (case saAnnotations sa ''eks.amazonaws.com/audience'' of Some s \<Rightarrow> s | None \<Rightarrow> ''sts.amazonaws.com'')"
  by (simp add: entry_of_SA_def annotation_key_def annotation_defs default_settings_def split: option.split)

lemma parse_blank: "ParseBool [] = Inl ErrSyntax" "ParseInt [] = Inl ErrSyntax"
  by (simp_all add: ParseBool_def ParseInt_def)

lemma entry_regional:
  "default_settings c \<Longrightarrow> eUseRegionalSTS (entry_of_SA c sa) =
     (case ParseBool (case saAnnotations sa ''eks.amazonaws.com/sts-regional-endpoints'' of Some s \<Rightarrow> s | None \<Rightarrow> []) of
        Inr b \<Rightarrow> b | Inl _ \<Rightarrow> False)"
  by (simp add: entry_of_SA_def annotation_key_def annotation_defs default_settings_def parse_blank
      split: option.split sum.split)

lemma entry_expiration:
  "default_settings c \<Longrightarrow> lifetime_unclamped sa \<Longrightarrow> eTokenExpiration (entry_of_SA c sa) =
     (case ParseInt (case saAnnotations sa ''eks.amazonaws.com/token-expiration'' of Some s \<Rightarrow> s | None \<Rightarrow> []) of
        Inr e \<Rightarrow> e | Inl _ \<Rightarrow> DefaultTokenExpiration)"
  by (cases "saAnnotations sa ''eks.amazonaws.com/token-expiration''")
     (simp_all add: entry_of_SA_def annotation_key_def annotation_defs default_settings_def parse_blank
        lifetime_unclamped_def ValidateMinTokenExpiration_def split: sum.splits)

lemma fakeAddSA_entry:
  assumes "default_settings c" and "lifetime_unclamped sa"
  shows "fakeCache (fakeAddSA f sa) =
    (fakeCache f)(cache_key (saNamespace sa) (saName sa) \<mapsto> entry_of_SA c sa)"
  unfolding fakeAddSA_def Let_def
  unfolding entry_role [OF assms(1), of sa, symmetric] entry_audience [OF assms(1), of sa, symmetric]
    entry_regional [OF assms(1), of sa, symmetric] entry_expiration [OF assms, symmetric]
  by (cases "entry_of_SA c sa") (simp add: fakeAdd_def)

lemma fake_tracks_real:
  assumes "go_fold (\<lambda>sa c. addSA c sa) accounts c = Ok c'" and "default_settings c"
    and "list_all lifetime_unclamped accounts" and "fakeCache f = saCache c"
  shows "fakeCache (foldl fakeAddSA f accounts) = saCache c' \<and> cmCache c' = cmCache c"
  using assms
proof (induction accounts arbitrary: c f)
  case (Cons sa accounts)
  then obtain c1 where c1: "addSA c sa = Ok c1" "go_fold (\<lambda>sa c. addSA c sa) accounts c1 = Ok c'"
    by (auto simp: go_bind_eq_Ok)
  have "default_settings c1"
    using Cons.prems(2) addSA_frame [OF c1(1)] by (simp add: default_settings_def)
  moreover have "fakeCache (fakeAddSA f sa) = saCache c1"
    using fakeAddSA_entry [OF Cons.prems(2)] Cons.prems(3,4) c1(1) by (auto elim!: addSA_Ok)
  ultimately show ?case
    using Cons.IH [OF c1(2)] Cons.prems(3) addSA_frame [OF c1(1)] by simp
qed simp

lemma additions_registry:
  assumes "go_fold (\<lambda>sa c. addSA c sa) accounts c = Ok c'"
  shows "fetchRequests (notifs c') = fetchRequests (notifs c) \<and> fetchCap (notifs c') = fetchCap (notifs c)"
  using assms
proof (induction accounts arbitrary: c)
  case (Cons sa accounts)
  then obtain c1 where "addSA c sa = Ok c1" "go_fold (\<lambda>sa c. addSA c sa) accounts c1 = Ok c'"
    by (auto simp: go_bind_eq_Ok)
  with Cons.IH [of c1] show ?case by (auto elim!: addSA_Ok simp: broadcast_frame)
qed simp

text \<open>
  C31. The fake that the handler's tests run on against the real cache: after both are given
  the same accounts, with the default settings and no annotated lifetime under the minimum, they hold
  the same entries and answer \<open>GetCommonConfigurations\<close> alike. \<open>Get\<close> finds the same accounts with the
  same roles in both, and for an account with a role the answers are equal in every field, with or
  without a request for notification. They differ in exactly two cases. For an account without a
  role the fake gives the audience, STS setting and lifetime of the account where the real cache gives
  none. For an unknown account and a request with notification the real cache registers
  the request and adds the channel to the fake's answer, which has none.
\<close>

theorem fake_agrees_with_cache:
  assumes "c0 = New ''sts.amazonaws.com'' ''eks.amazonaws.com'' False DefaultTokenExpiration compose"
    and "\<not> Enabled compose" and "list_all lifetime_unclamped accounts"
    and "go_fold (\<lambda>sa c. addSA c sa) accounts c0 = Ok c" and "f = NewFakeServiceAccountCache accounts"
  shows "fakeGetCommonConfigurations f name namespace = GetCommonConfigurations c name namespace \<and>
    (\<exists>c' real fake. Get c r = Ok (c', real) \<and> fakeCacheGet f r = Ok (f, fake) \<and>
      FoundInCache real = FoundInCache fake \<and> rRoleARN real = rRoleARN fake \<and>
      (case saCache c (CacheKey r) of
         Some e \<Rightarrow> c' = c \<and> (if eRoleARN e \<noteq> [] then real = fake
                           else real = emptyResponse\<lparr>FoundInCache := True\<rparr> \<and> fake = fromEntry e real)
       | None \<Rightarrow> if RequestNotification r
                 then \<exists>n ch. create (notifs c) r = Ok (n, ch) \<and> c' = c\<lparr>notifs := n\<rparr> \<and> real = fake\<lparr>Notifier := Some ch\<rparr>
                 else c' = c \<and> real = fake))"
proof
  have tables: "fakeCache f = saCache c" "cmCache c = Map.empty"
    using fake_tracks_real [OF assms(4) _ assms(3), of "\<lparr>fakeCache = Map.empty\<rparr>"] assms(1,2,5)
    by (simp_all add: default_settings_def New_def NewFakeServiceAccountCache_def)
  show "fakeGetCommonConfigurations f name namespace = GetCommonConfigurations c name namespace"
    by (simp add: fakeGetCommonConfigurations_def GetCommonConfigurations_def getSA_def getCM_def CacheKey_def tables
        split: option.split)
  have cm: "cm_lookup c r = None"
    by (simp add: cm_lookup_def getCM_def tables)
  show "\<exists>c' real fake. Get c r = Ok (c', real) \<and> fakeCacheGet f r = Ok (f, fake) \<and>
      FoundInCache real = FoundInCache fake \<and> rRoleARN real = rRoleARN fake \<and>
      (case saCache c (CacheKey r) of
         Some e \<Rightarrow> c' = c \<and> (if eRoleARN e \<noteq> [] then real = fake
                           else real = emptyResponse\<lparr>FoundInCache := True\<rparr> \<and> fake = fromEntry e real)
       | None \<Rightarrow> if RequestNotification r
                 then \<exists>n ch. create (notifs c) r = Ok (n, ch) \<and> c' = c\<lparr>notifs := n\<rparr> \<and> real = fake\<lparr>Notifier := Some ch\<rparr>
                 else c' = c \<and> real = fake)"
  proof (cases "saCache c (CacheKey r)")
    case (Some e)
    then show ?thesis
      by (auto simp: Get_by_registration fakeCacheGet_def response_of_def effective_def found_in_def tables cm
          emptyResponse_def fromEntry_def)
  next
    case None
    have "fetchRequests (notifs c) = []" "fetchCap (notifs c) = 1000"
      using additions_registry [OF assms(4)] assms(1) by (simp_all add: New_def newNotifications_def)
    then obtain n ch where "create (notifs c) r = Ok (n, ch)"
      using create_returns [of "notifs c" r] by auto
    with None show ?thesis
      by (auto simp: Get_by_registration fakeCacheGet_def response_of_def effective_def found_in_def tables cm emptyResponse_def)
  qed
qed

definition plainAccount :: ServiceAccount where
  "plainAccount = \<lparr>saName = ''sa'', saNamespace = ''ns'', saAnnotations = [''eks.amazonaws.com/role-arn'' \<mapsto> ''arn:a'']\<rparr>"

definition rolelessAccount :: ServiceAccount where
  "rolelessAccount = \<lparr>saName = ''other'', saNamespace = ''ns'', saAnnotations = Map.empty\<rparr>"

theorem fake_agrees_with_cache_witness:
  "\<exists>c real fake. go_fold (\<lambda>sa c. addSA c sa) [plainAccount, rolelessAccount]
       (New ''sts.amazonaws.com'' ''eks.amazonaws.com'' False DefaultTokenExpiration (composeRoleArn exampleCache)) = Ok c \<and>
     Get c quietRequest = Ok (c, real) \<and>
     fakeCacheGet (NewFakeServiceAccountCache [plainAccount, rolelessAccount]) quietRequest =
       Ok (NewFakeServiceAccountCache [plainAccount, rolelessAccount], fake) \<and> real = fake"
proof -
  let ?c0 = "New ''sts.amazonaws.com'' ''eks.amazonaws.com'' False DefaultTokenExpiration (composeRoleArn exampleCache)"
  obtain c1 where c1: "addSA ?c0 plainAccount = Ok c1" "cache_inv c1"
    using addSA_total [OF New_inv, of _ _ _ _ _ plainAccount] addSA_inv [OF New_inv] by blast
  obtain c where c: "addSA c1 rolelessAccount = Ok c"
    using addSA_total [OF c1(2)] by blast
  have run: "go_fold (\<lambda>sa c. addSA c sa) [plainAccount, rolelessAccount] ?c0 = Ok c"
    using c1(1) c by simp
  have pre: "list_all lifetime_unclamped [plainAccount, rolelessAccount]" "\<not> Enabled (composeRoleArn exampleCache)"
    "\<not> RequestNotification quietRequest"
    by (simp_all add: lifetime_unclamped_def plainAccount_def rolelessAccount_def quietRequest_def exampleCache_def New_def)
  have "CacheKey quietRequest = cache_key (saNamespace plainAccount) (saName plainAccount)"
    "CacheKey quietRequest \<noteq> cache_key (saNamespace rolelessAccount) (saName rolelessAccount)"
    by (simp_all add: quietRequest_def plainAccount_def rolelessAccount_def CacheKey_def cache_key_def)
  then have "saCache c (CacheKey quietRequest) = Some (entry_of_SA ?c0 plainAccount)"
    using c1(1) c by (auto elim!: addSA_Ok)
  moreover have "eRoleARN (entry_of_SA ?c0 plainAccount) \<noteq> []"
    using pre(2) by (subst entry_role) (simp_all add: default_settings_def plainAccount_def New_def)
  ultimately show ?thesis
    using fake_agrees_with_cache [OF refl pre(2,1) run refl, of "[]" "[]" quietRequest] run by auto
qed

end
