(* ===== verification/Http.thy ===== *)
theory Http
  imports Strconv
begin

text \<open>
  What the webhook uses of \<open>net/http\<close>, and \<open>pkg/handler/middleware.go\<close>. A response writer is
  the connection's own (\<open>NetWriter\<close>) or a \<open>statusLoggingResponseWriter\<close> around another writer. The
  first \<open>WriteHeader\<close> sends the status and the headers, a later one is dropped, and a \<open>Write\<close>
  before any sends status 200; the codes the webhook uses are final ones. A write may fail:
  the outcomes of the writes to come are part of the connection's state.

  A handler returns, panics, or blocks; deferred calls run in the first two cases.
\<close>

section \<open>Response writers\<close>

datatype writeOutcome = WriteOk | WriteFails nat string

record netConn =
  header :: "string \<rightharpoonup> string"
  wire :: "(int \<times> (string \<rightharpoonup> string)) option"
  sentBody :: string
  outcomes :: "writeOutcome list"

datatype ResponseWriter =
    NetWriter netConn
  | statusLoggingResponseWriter (inner: ResponseWriter) (status: int) (bodyBytes: nat)
  where "inner (NetWriter n) = NetWriter n" | "status (NetWriter n) = 200" | "bodyBytes (NetWriter n) = 0"

primrec setHeader :: "ResponseWriter \<Rightarrow> string \<Rightarrow> string option \<Rightarrow> ResponseWriter" where
  "setHeader (NetWriter n) k v = NetWriter (n\<lparr>header := (header n)(k := v)\<rparr>)"
| "setHeader (statusLoggingResponseWriter w st b) k v = statusLoggingResponseWriter (setHeader w k v) st b"

primrec WriteHeader :: "ResponseWriter \<Rightarrow> int \<Rightarrow> ResponseWriter" where
  "WriteHeader (NetWriter n) code =
     NetWriter (if wire n = None then n\<lparr>wire := Some (code, header n)\<rparr> else n)"
| "WriteHeader (statusLoggingResponseWriter w st b) code = statusLoggingResponseWriter (WriteHeader w code) code b"

definition netWrite :: "netConn \<Rightarrow> string \<Rightarrow> netConn \<times> nat \<times> string option" where
  "netWrite n data =
     (let n1 = (if wire n = None then n\<lparr>wire := Some (200, header n)\<rparr> else n)
      in case outcomes n1 of
           WriteFails k err # os \<Rightarrow>
             (n1\<lparr>sentBody := sentBody n1 @ take k data, outcomes := os\<rparr>, min k (length data), Some err)
         | WriteOk # os \<Rightarrow> (n1\<lparr>sentBody := sentBody n1 @ data, outcomes := os\<rparr>, length data, None)
         | [] \<Rightarrow> (n1\<lparr>sentBody := sentBody n1 @ data\<rparr>, length data, None))"

primrec Write :: "ResponseWriter \<Rightarrow> string \<Rightarrow> ResponseWriter \<times> nat \<times> string option" where
  "Write (NetWriter n) data = (case netWrite n data of (n', k, err) \<Rightarrow> (NetWriter n', k, err))"
| "Write (statusLoggingResponseWriter w st b) data =
     (case Write w data of (w', k, err) \<Rightarrow> (statusLoggingResponseWriter w' st (b + k), k, err))"

text \<open>\<open>http.Error\<close>; the error of its own write is dropped.\<close>

definition Error :: "ResponseWriter \<Rightarrow> string \<Rightarrow> int \<Rightarrow> ResponseWriter" where
  "Error w message code =
     (let w1 = setHeader w ''Content-Length'' None;
          w2 = setHeader w1 ''Content-Type'' (Some ''text/plain; charset=utf-8'');
          w3 = setHeader w2 ''X-Content-Type-Options'' (Some ''nosniff'')
      in fst (Write (WriteHeader w3 code) (message @ [CHR 0x0A])))"

section \<open>Requests and handlers\<close>

text \<open>
  \<open>Body\<close> is what reading the body gives; \<open>formError\<close> is the error of \<open>ParseForm\<close> on this
  request. An absent header reads as the empty string. The path is there in its decoded form
  (\<open>URL.Path\<close>) and as it was sent (\<open>URL.EscapedPath\<close>).
\<close>

record HttpRequest =
  Method :: string
  URLPath :: string
  EscapedPath :: string
  ContentType :: string
  UserAgent :: string
  Body :: "(string + string) option"
  formError :: "string option"

datatype outcome = Returned | Panicked go_panic | Blocked

type_synonym 's handler = "ResponseWriter \<Rightarrow> HttpRequest \<Rightarrow> 's \<Rightarrow> ResponseWriter \<times> 's \<times> outcome"

type_synonym 's middleware = "'s handler \<Rightarrow> 's handler"

record accessEntry =
  logPath :: string
  logMethod :: string
  logStatus :: int
  logUserAgent :: string
  logBytes :: nat

record serverMetrics =
  requestCounter :: "string \<times> string \<times> string \<Rightarrow> nat"
  requestLatencies :: "string \<times> string \<Rightarrow> nat"
  requestLatenciesSummary :: "string \<times> string \<Rightarrow> nat"
  accessLog :: "accessEntry list"

section \<open>Middleware\<close>

definition monitor :: "string \<Rightarrow> string \<Rightarrow> int \<Rightarrow> 'a serverMetrics_scheme \<Rightarrow> 'a serverMetrics_scheme" where
  "monitor verb path httpCode s =
     s\<lparr>requestCounter := (requestCounter s)((verb, path, Itoa httpCode) := Suc (requestCounter s (verb, path, Itoa httpCode))),
       requestLatencies := (requestLatencies s)((verb, path) := Suc (requestLatencies s (verb, path))),
       requestLatenciesSummary :=
         (requestLatenciesSummary s)((verb, path) := Suc (requestLatenciesSummary s (verb, path)))\<rparr>"

definition Apply :: "'s handler \<Rightarrow> 's middleware list \<Rightarrow> 's handler" where
  "Apply h middlewares = foldl (\<lambda>h adapter. adapter h) h middlewares"

definition InstrumentRoute :: "'a serverMetrics_scheme middleware" where
  "InstrumentRoute h w r s =
     (case h (statusLoggingResponseWriter w 200 0) r s of
        (wrappedWriter, s', Blocked) \<Rightarrow> (inner wrappedWriter, s', Blocked)
      | (wrappedWriter, s', out) \<Rightarrow>
          (inner wrappedWriter, monitor (Method r) (URLPath r) (status wrappedWriter) s', out))"

definition logRequest :: "HttpRequest \<Rightarrow> ResponseWriter \<Rightarrow> 'a serverMetrics_scheme \<Rightarrow> 'a serverMetrics_scheme" where
  "logRequest r wrappedWriter s =
     s\<lparr>accessLog := accessLog s @
         [\<lparr>logPath = URLPath r, logMethod = Method r, logStatus = status wrappedWriter,
           logUserAgent = UserAgent r, logBytes = bodyBytes wrappedWriter\<rparr>]\<rparr>"

definition formErrorBody :: string where
  \<open>formErrorBody = ''{"error": "error parsing form"}''\<close>

definition Logging :: "'a serverMetrics_scheme middleware" where
  "Logging h w r s =
     (let wrappedWriter = statusLoggingResponseWriter w 200 0 in
      if formError r \<noteq> None
      then (Error w formErrorBody 400, logRequest r wrappedWriter s, Returned)
      else (case h wrappedWriter r s of
              (w', s', Blocked) \<Rightarrow> (inner w', s', Blocked)
            | (w', s', out) \<Rightarrow> (inner w', logRequest r w' s', out)))"

end
