(* ===== verification/ContainerCredentials.thy ===== *)
theory ContainerCredentials
  imports Json
begin

text \<open>
  \<open>pkg/containercredentials\<close>: the identities that use container credentials, read from a JSON
  file (\<open>config.go\<close>, \<open>types.go\<close>), and the fake used by tests (\<open>fake.go\<close>). \<open>Load\<close> and the
  lookup hold the same lock, so each is one step. The lemmas show that a loaded file decides
  membership exactly, that an empty or missing file clears it and that a malformed one leaves
  the previous contents in force; the interface \<open>identity_config\<close> is what the handler uses.
\<close>

section \<open>Data\<close>

record Identity =
  Namespace :: string
  ServiceAccountName :: string

record IdentityConfigObject =
  Identities :: "Identity list"

record PatchConfig =
  pcAudience :: string
  pcMountPath :: string
  pcVolumeName :: string
  pcTokenPath :: string
  FullUri :: string

text \<open>A nil map is \<open>None\<close>; reading it finds nothing.\<close>

record FileConfig =
  audience :: string
  mountPath :: string
  volumeName :: string
  tokenPath :: string
  fullUri :: string
  identityConfigObject :: "IdentityConfigObject option"
  cache :: "(Identity \<rightharpoonup> bool) option"

definition NewFileConfig :: "string \<Rightarrow> string \<Rightarrow> string \<Rightarrow> string \<Rightarrow> string \<Rightarrow> FileConfig" where
  "NewFileConfig aud mp vn tp uri =
     \<lparr>audience = aud, mountPath = mp, volumeName = vn, tokenPath = tp, fullUri = uri,
      identityConfigObject = None, cache = Some Map.empty\<rparr>"

section \<open>Decoding\<close>

definition zeroIdentity :: Identity where
  "zeroIdentity = \<lparr>Namespace = [], ServiceAccountName = []\<rparr>"

definition decode_Identity_field :: "string \<Rightarrow> json \<Rightarrow> Identity \<Rightarrow> Identity option" where
  "decode_Identity_field k j i =
     (if names_field k ''namespace'' then map_option (\<lambda>s. i\<lparr>Namespace := s\<rparr>) (decode_string j (Namespace i))
      else if names_field k ''serviceAccount''
        then map_option (\<lambda>s. i\<lparr>ServiceAccountName := s\<rparr>) (decode_string j (ServiceAccountName i))
      else Some i)"

definition decode_Identity :: "json \<Rightarrow> Identity \<Rightarrow> Identity option" where
  "decode_Identity j i =
     (case j of
        JNull \<Rightarrow> Some i
      | JObj kvs \<Rightarrow> decode_fields decode_Identity_field kvs i
      | _ \<Rightarrow> None)"

text \<open>An array decodes into the slice that is there: into its elements first, into zero values after them.\<close>

fun decode_slice :: "json list \<Rightarrow> Identity list \<Rightarrow> Identity list option" where
  "decode_slice [] old = Some []"
| "decode_slice (j # js) old =
     (case decode_Identity j (case old of [] \<Rightarrow> zeroIdentity | i # _ \<Rightarrow> i) of
        None \<Rightarrow> None
      | Some i \<Rightarrow> map_option (\<lambda>is. i # is) (decode_slice js (tl old)))"

definition decode_Config_field :: "string \<Rightarrow> json \<Rightarrow> IdentityConfigObject \<Rightarrow> IdentityConfigObject option" where
  "decode_Config_field k j o' =
     (if names_field k ''identities'' then
        (case j of
           JNull \<Rightarrow> Some (o'\<lparr>Identities := []\<rparr>)
         | JArr js \<Rightarrow> map_option (\<lambda>is. o'\<lparr>Identities := is\<rparr>) (decode_slice js (Identities o'))
         | _ \<Rightarrow> None)
      else Some o')"

definition unmarshal_Config :: "string \<Rightarrow> unmarshal_error + IdentityConfigObject" where
  "unmarshal_Config s =
     (case json_parse s of
        None \<Rightarrow> Inl SyntaxError
      | Some JNull \<Rightarrow> Inr \<lparr>Identities = []\<rparr>
      | Some (JObj kvs) \<Rightarrow>
          (case decode_fields decode_Config_field kvs \<lparr>Identities = []\<rparr> of
             None \<Rightarrow> Inl UnmarshalTypeError | Some r \<Rightarrow> Inr r)
      | Some _ \<Rightarrow> Inl UnmarshalTypeError)"

section \<open>Operations\<close>

text \<open>\<open>newCache[item] = true\<close> for every identity of the file.\<close>

definition build_cache :: "Identity list \<Rightarrow> (Identity \<rightharpoonup> bool)" where
  "build_cache is = foldl (\<lambda>m i. m(i \<mapsto> True)) Map.empty is"

text \<open>A nil content and an empty one are both the empty string: the source treats them alike.\<close>

definition Load :: "FileConfig \<Rightarrow> string \<Rightarrow> FileConfig \<times> unmarshal_error option" where
  "Load f content =
     (if content = [] then (f\<lparr>identityConfigObject := None, cache := None\<rparr>, None)
      else case unmarshal_Config content of
        Inl err \<Rightarrow> (f, Some err)
      | Inr configObject \<Rightarrow>
          (f\<lparr>identityConfigObject := Some configObject,
             cache := Some (build_cache (Identities configObject))\<rparr>, None))"

definition getCacheItem :: "FileConfig \<Rightarrow> Identity \<Rightarrow> bool" where
  "getCacheItem f i = (case cache f of None \<Rightarrow> False | Some m \<Rightarrow> (case m i of None \<Rightarrow> False | Some b \<Rightarrow> b))"

definition fcGet :: "FileConfig \<Rightarrow> string \<Rightarrow> string \<Rightarrow> PatchConfig option" where
  "fcGet f ns sa =
     (if getCacheItem f \<lparr>Namespace = ns, ServiceAccountName = sa\<rparr>
      then Some \<lparr>pcAudience = audience f, pcMountPath = mountPath f, pcVolumeName = volumeName f,
                 pcTokenPath = tokenPath f, FullUri = fullUri f\<rparr>
      else None)"

text \<open>The fake: an identity that is present counts, whatever its value.\<close>

record FakeConfig =
  fkAudience :: string
  fkMountPath :: string
  fkVolumeName :: string
  fkTokenPath :: string
  fkFullUri :: string
  fkIdentities :: "(Identity \<rightharpoonup> bool) option"

definition fakeGet :: "FakeConfig \<Rightarrow> string \<Rightarrow> string \<Rightarrow> PatchConfig option" where
  "fakeGet f ns sa =
     (case fkIdentities f of
        None \<Rightarrow> None
      | Some m \<Rightarrow>
          if m \<lparr>Namespace = ns, ServiceAccountName = sa\<rparr> \<noteq> None
          then Some \<lparr>pcAudience = fkAudience f, pcMountPath = fkMountPath f, pcVolumeName = fkVolumeName f,
                     pcTokenPath = fkTokenPath f, FullUri = fkFullUri f\<rparr>
          else None)"

section \<open>Properties\<close>

lemma build_cache_snoc: "foldl (\<lambda>m i. m(i \<mapsto> True)) m is j = (if j \<in> set is then Some True else m j)"
  by (induction "is" arbitrary: m) auto

lemma build_cache_eq: "build_cache is j = (if j \<in> set is then Some True else None)"
  by (simp add: build_cache_def build_cache_snoc)

text \<open>The identities a state stands for.\<close>

definition identities_of :: "FileConfig \<Rightarrow> Identity set" where
  "identities_of f = {i. getCacheItem f i}"

definition fc_inv :: "FileConfig \<Rightarrow> bool" where
  "fc_inv f \<longleftrightarrow>
     (case identityConfigObject f of
        None \<Rightarrow> identities_of f = {}
      | Some obj \<Rightarrow> identities_of f = set (Identities obj))"

lemma NewFileConfig_inv: "fc_inv (NewFileConfig a m v t u)"
  by (simp add: fc_inv_def NewFileConfig_def identities_of_def getCacheItem_def)

lemma Load_cases:
  obtains (empty) "content = []" "Load f content = (f\<lparr>identityConfigObject := None, cache := None\<rparr>, None)"
  | (bad) err where "content \<noteq> []" "unmarshal_Config content = Inl err" "Load f content = (f, Some err)"
  | (good) obj where "content \<noteq> []" "unmarshal_Config content = Inr obj"
      "Load f content = (f\<lparr>identityConfigObject := Some obj,
         cache := Some (build_cache (Identities obj))\<rparr>, None)"
  by (cases "content = []"; cases "unmarshal_Config content") (auto simp: Load_def)

lemma Load_identities:
  "identities_of (fst (Load f content)) =
     (if content = [] then {}
      else case unmarshal_Config content of
        Inl _ \<Rightarrow> identities_of f | Inr obj \<Rightarrow> set (Identities obj))"
  by (rule Load_cases [of content f])
     (auto simp: identities_of_def getCacheItem_def build_cache_eq)

lemma Load_inv: "fc_inv f \<Longrightarrow> fc_inv (fst (Load f content))"
  by (rule Load_cases [of content f])
     (auto simp: fc_inv_def identities_of_def getCacheItem_def build_cache_eq)

lemma Load_settings [frame]:
  "audience (fst (Load f content)) = audience f" "mountPath (fst (Load f content)) = mountPath f"
  "volumeName (fst (Load f content)) = volumeName f" "tokenPath (fst (Load f content)) = tokenPath f"
  "fullUri (fst (Load f content)) = fullUri f"
  by (rule Load_cases [of content f]; simp)+

section \<open>The interface\<close>

text \<open>
  What the handler relies on: an account either is configured or is not, and every configured
  account gets the same settings.
\<close>

locale identity_config =
  fixes get :: "'k \<Rightarrow> string \<Rightarrow> string \<Rightarrow> PatchConfig option"
    and member :: "'k \<Rightarrow> Identity set"
    and settings :: "'k \<Rightarrow> PatchConfig"
  assumes get_eq: "get f ns sa =
    (if \<lparr>Namespace = ns, ServiceAccountName = sa\<rparr> \<in> member f then Some (settings f) else None)"
begin

lemma get_Some_iff:
  "get f ns sa = Some pc \<longleftrightarrow> \<lparr>Namespace = ns, ServiceAccountName = sa\<rparr> \<in> member f \<and> pc = settings f"
  by (auto simp: get_eq)

lemma get_None_iff: "get f ns sa = None \<longleftrightarrow> \<lparr>Namespace = ns, ServiceAccountName = sa\<rparr> \<notin> member f"
  by (simp add: get_eq)

lemma get_uniform: "get f ns sa = Some pc \<Longrightarrow> get f ns' sa' = Some pc' \<Longrightarrow> pc = pc'"
  by (simp add: get_Some_iff)

end

definition fc_settings :: "FileConfig \<Rightarrow> PatchConfig" where
  "fc_settings f = \<lparr>pcAudience = audience f, pcMountPath = mountPath f, pcVolumeName = volumeName f,
     pcTokenPath = tokenPath f, FullUri = fullUri f\<rparr>"

definition fake_settings :: "FakeConfig \<Rightarrow> PatchConfig" where
  "fake_settings f = \<lparr>pcAudience = fkAudience f, pcMountPath = fkMountPath f, pcVolumeName = fkVolumeName f,
     pcTokenPath = fkTokenPath f, FullUri = fkFullUri f\<rparr>"

interpretation fc: identity_config fcGet identities_of fc_settings
  by unfold_locales (simp add: fcGet_def identities_of_def fc_settings_def)

interpretation fk: identity_config fakeGet "\<lambda>f. case fkIdentities f of None \<Rightarrow> {} | Some m \<Rightarrow> dom m" fake_settings
  by unfold_locales (auto simp: fakeGet_def fake_settings_def split: option.splits)

end
