(* ===== verification/Handler.thy ===== *)
theory Handler
  imports Csv CacheProps ContainerCredentials
begin

text \<open>
  \<open>pkg/handler/handler.go\<close>, first part: the modifier and its options, the annotations of a pod,
  and the patch of a pod (\<open>addEnvToContainer\<close>, \<open>getPodSpecPatch\<close>). The Kubernetes types are
  records with the fields the handler reads or writes; what else a container or a pod holds
  is carried along in an opaque field. A nil map or slice is \<open>None\<close> where the code
  asks for it (labels, volumes).
\<close>

section \<open>Kubernetes types\<close>

record EnvVar =
  envName :: string
  envValue :: string
  envRest :: string

record VolumeMount =
  vmName :: string
  ReadOnly :: bool
  vmMountPath :: string
  vmRest :: string

record Container =
  cName :: string
  Env :: "EnvVar list"
  VolumeMounts :: "VolumeMount list"
  cRest :: string

record ServiceAccountTokenProjection =
  tokAudience :: string
  ExpirationSeconds :: int64
  tokPath :: string

datatype VolumeSource = Projected "ServiceAccountTokenProjection list" | OtherSource string

record Volume =
  vName :: string
  vSource :: VolumeSource

record Pod =
  podName :: string
  GenerateName :: string
  podNamespace :: string
  Annotations :: "string \<rightharpoonup> string"
  Labels :: "(string \<rightharpoonup> string) option"
  podServiceAccountName :: string
  NodeSelector :: "string \<rightharpoonup> string"
  InitContainers :: "Container list"
  Containers :: "Container list"
  Volumes :: "Volume list option"
  podRest :: string

section \<open>The modifier\<close>

text \<open>
  \<open>Cache\<close> and \<open>ContainerCredentialsConfig\<close> are interface values, nil until an option sets them;
  their methods are arguments of the operations that call them. \<open>rand\<close> holds the values the
  random source is going to deliver.
\<close>

record ('c, 'k) Modifier =
  AnnotationDomain :: string
  MountPath :: string
  Region :: string
  Cache :: "'c option"
  ContainerCredentialsConfig :: "'k option"
  volName :: string
  tokenName :: string
  saLookupGraceTime :: int64
  rand :: "int64 list"

type_synonym ('c, 'k) ModifierOpt = "('c, 'k) Modifier \<Rightarrow> ('c, 'k) Modifier"

definition WithServiceAccountCache :: "'c \<Rightarrow> ('c, 'k) ModifierOpt" where
  "WithServiceAccountCache c m = m\<lparr>Cache := Some c\<rparr>"

definition WithContainerCredentialsConfig :: "'k \<Rightarrow> ('c, 'k) ModifierOpt" where
  "WithContainerCredentialsConfig config m = m\<lparr>ContainerCredentialsConfig := Some config\<rparr>"

definition WithMountPath :: "string \<Rightarrow> ('c, 'k) ModifierOpt" where
  "WithMountPath mountpath m = m\<lparr>MountPath := mountpath\<rparr>"

definition WithRegion :: "string \<Rightarrow> ('c, 'k) ModifierOpt" where
  "WithRegion region m = m\<lparr>Region := region\<rparr>"

definition WithAnnotationDomain :: "string \<Rightarrow> ('c, 'k) ModifierOpt" where
  "WithAnnotationDomain domain m = m\<lparr>AnnotationDomain := domain\<rparr>"

definition WithSALookupGraceTime :: "int64 \<Rightarrow> ('c, 'k) ModifierOpt" where
  "WithSALookupGraceTime t m = m\<lparr>saLookupGraceTime := t\<rparr>"

definition NewModifier :: "int64 list \<Rightarrow> ('c, 'k) ModifierOpt list \<Rightarrow> ('c, 'k) Modifier" where
  "NewModifier random opts =
     foldl (\<lambda>m opt. opt m)
       \<lparr>AnnotationDomain = ''eks.amazonaws.com'',
        MountPath = ''/var/run/secrets/eks.amazonaws.com/serviceaccount'',
        Region = [], Cache = None, ContainerCredentialsConfig = None,
        volName = ''aws-iam-token'', tokenName = ''token'',
        saLookupGraceTime = 0, rand = random\<rparr> opts"

record podPatchConfig =
  ContainersToSkip :: "string \<rightharpoonup> bool"
  TokenExpiration :: int64
  UseRegionalSTS :: bool
  Audience :: string
  cfgMountPath :: string
  VolumeName :: string
  TokenPath :: string
  WebIdentityPatchConfig :: "string option"
  ContainerCredentialsPatchConfig :: "PatchConfig option"

section \<open>Pod annotations\<close>

definition getContainersToSkip :: "string \<Rightarrow> Pod \<Rightarrow> (string \<rightharpoonup> bool)" where
  "getContainersToSkip annotationDomain pod =
     (case Annotations pod (annotationDomain @ ''/'' @ SkipContainersAnnotation) of
        None \<Rightarrow> Map.empty
      | Some value \<Rightarrow>
          (case csv_Read value of
             Inl err \<Rightarrow> Map.empty
           | Inr podNames \<Rightarrow> foldl (\<lambda>m name. m(name \<mapsto> True)) Map.empty podNames))"

definition parsePodAnnotations :: "('c, 'k) Modifier \<Rightarrow> Pod \<Rightarrow> int64 \<Rightarrow> int64 \<times> (string \<rightharpoonup> bool)" where
  "parsePodAnnotations m pod serviceAccountTokenExpiration =
     (let tokenExpiration =
            (case Annotations pod (AnnotationDomain m @ ''/'' @ TokenExpirationAnnotation) of
               None \<Rightarrow> serviceAccountTokenExpiration
             | Some expirationStr \<Rightarrow>
                 (case ParseInt expirationStr of
                    Inl err \<Rightarrow> serviceAccountTokenExpiration
                  | Inr expiration \<Rightarrow> ValidateMinTokenExpiration expiration))
      in (tokenExpiration, getContainersToSkip (AnnotationDomain m) pod))"

section \<open>The environment of a container\<close>

definition webIdentityKeys :: "string list" where
  "webIdentityKeys = [''AWS_ROLE_ARN'', ''AWS_WEB_IDENTITY_TOKEN_FILE'']"

definition containerCredentialsKeys :: "string list" where
  "containerCredentialsKeys =
     [AwsEnvVarContainerCredentialsFullUri, AwsEnvVarContainerAuthorizationTokenFile]"

definition awsRegionKeys :: "string list" where
  "awsRegionKeys = [''AWS_REGION'', ''AWS_DEFAULT_REGION'']"

definition stsKey :: string where
  "stsKey = ''AWS_STS_REGIONAL_ENDPOINTS''"

definition defines_any :: "Container \<Rightarrow> string list \<Rightarrow> bool" where
  "defines_any container keys = list_ex (\<lambda>env. envName env \<in> set keys) (Env container)"

definition mkEnv :: "string \<Rightarrow> string \<Rightarrow> EnvVar" where
  "mkEnv name value = \<lparr>envName = name, envValue = value, envRest = []\<rparr>"

definition addEnvToContainer ::
  "('c, 'k) Modifier \<Rightarrow> Container \<Rightarrow> string \<Rightarrow> podPatchConfig \<Rightarrow> Container \<times> bool" where
  "addEnvToContainer m container tokenFilePath patchConfig =
     (let webIdentityKeysDefined = defines_any container webIdentityKeys;
          containerCredentialsKeysDefined = defines_any container containerCredentialsKeys;
          regionKeyDefined = defines_any container awsRegionKeys;
          regionalStsKeyDefined = defines_any container [stsKey]
      in if (WebIdentityPatchConfig patchConfig \<noteq> None \<and> webIdentityKeysDefined \<or>
             ContainerCredentialsPatchConfig patchConfig \<noteq> None \<and> containerCredentialsKeysDefined) \<and>
            regionKeyDefined \<and> regionalStsKeyDefined
         then (container, False)
         else
           let (env1, changed1) =
                 (if \<not> regionalStsKeyDefined \<and> UseRegionalSTS patchConfig
                  then (Env container @ [mkEnv stsKey ''regional''], True)
                  else (Env container, False));
               (env2, changed2) =
                 (if \<not> regionKeyDefined \<and> Region m \<noteq> []
                  then (env1 @ [mkEnv ''AWS_DEFAULT_REGION'' (Region m), mkEnv ''AWS_REGION'' (Region m)], True)
                  else (env1, changed1));
               (env3, changed3) =
                 (case ContainerCredentialsPatchConfig patchConfig of
                    Some cc \<Rightarrow>
                      if \<not> containerCredentialsKeysDefined
                      then (env2 @ [mkEnv AwsEnvVarContainerCredentialsFullUri (FullUri cc),
                                    mkEnv AwsEnvVarContainerAuthorizationTokenFile tokenFilePath], True)
                      else (env2, changed2)
                  | None \<Rightarrow>
                      (case WebIdentityPatchConfig patchConfig of
                         Some roleArn \<Rightarrow>
                           if \<not> webIdentityKeysDefined
                           then (env2 @ [mkEnv ''AWS_ROLE_ARN'' roleArn,
                                         mkEnv ''AWS_WEB_IDENTITY_TOKEN_FILE'' tokenFilePath], True)
                           else (env2, changed2)
                       | None \<Rightarrow> (env2, changed2)));
               container1 = container\<lparr>Env := env3\<rparr>;
               volExists = list_ex (\<lambda>vol. vmName vol = VolumeName patchConfig) (VolumeMounts container1)
           in if \<not> volExists
              then (container1\<lparr>VolumeMounts := VolumeMounts container1 @
                      [\<lparr>vmName = VolumeName patchConfig, ReadOnly = True,
                        vmMountPath = cfgMountPath patchConfig, vmRest = []\<rparr>]\<rparr>, True)
              else (container1, changed3))"

section \<open>The patch of a pod\<close>

datatype patchValue =
    VString string
  | VLabels "(string \<times> string) list"
  | VVolume Volume
  | VVolumes "Volume list"
  | VContainers "Container list"

record patchOperation =
  Op :: string
  Path :: string
  Value :: patchValue

definition windows_pod :: "Pod \<Rightarrow> bool" where
  "windows_pod pod \<longleftrightarrow>
     NodeSelector pod ''beta.kubernetes.io/os'' = Some ''windows'' \<or>
     NodeSelector pod ''kubernetes.io/os'' = Some ''windows''"

definition tokenFilePath :: "Pod \<Rightarrow> podPatchConfig \<Rightarrow> string" where
  "tokenFilePath pod patchConfig =
     (let p = PathJoin (cfgMountPath patchConfig) (TokenPath patchConfig)
      in if windows_pod pod then ''C:'' @ ReplaceAll CHR ''/'' CHR 0x5C p else p)"

text \<open>One round of the loops over the containers: the container for the patch, and whether it changed.\<close>

definition patchContainer ::
  "('c, 'k) Modifier \<Rightarrow> podPatchConfig \<Rightarrow> string \<Rightarrow> Container \<Rightarrow> Container \<times> bool" where
  "patchContainer m patchConfig path container =
     (if ContainersToSkip patchConfig (cName container) \<noteq> None then (container, False)
      else addEnvToContainer m container path patchConfig)"

definition tokenVolume :: "podPatchConfig \<Rightarrow> Volume" where
  "tokenVolume patchConfig =
     \<lparr>vName = VolumeName patchConfig,
      vSource = Projected [\<lparr>tokAudience = Audience patchConfig,
                            ExpirationSeconds = TokenExpiration patchConfig,
                            tokPath = TokenPath patchConfig\<rparr>]\<rparr>"

definition labelPatch :: "Pod \<Rightarrow> podPatchConfig \<Rightarrow> patchOperation list" where
  "labelPatch pod patchConfig =
     (if ContainerCredentialsPatchConfig patchConfig = None then []
      else if Labels pod = None
      then [\<lparr>Op = ''add'', Path = ''/metadata/labels'',
             Value = VLabels [(''eks.amazonaws.com/pod-identity'', ''enabled'')]\<rparr>]
      else [\<lparr>Op = ''add'', Path = ''/metadata/labels/eks.amazonaws.com~1pod-identity'',
             Value = VString ''enabled''\<rparr>])"

definition volumeExists :: "Pod \<Rightarrow> podPatchConfig \<Rightarrow> bool" where
  "volumeExists pod patchConfig =
     list_ex (\<lambda>vol. vName vol = VolumeName patchConfig) (case Volumes pod of None \<Rightarrow> [] | Some vs \<Rightarrow> vs)"

definition volumePatch :: "Pod \<Rightarrow> podPatchConfig \<Rightarrow> patchOperation list" where
  "volumePatch pod patchConfig =
     (if volumeExists pod patchConfig then []
      else if Volumes pod = None
      then [\<lparr>Op = ''add'', Path = ''/spec/volumes'', Value = VVolumes [tokenVolume patchConfig]\<rparr>]
      else [\<lparr>Op = ''add'', Path = ''/spec/volumes/0'', Value = VVolume (tokenVolume patchConfig)\<rparr>])"

definition getPodSpecPatch ::
  "('c, 'k) Modifier \<Rightarrow> Pod \<Rightarrow> podPatchConfig \<Rightarrow> patchOperation list \<times> bool" where
  "getPodSpecPatch m pod patchConfig =
     (let path = tokenFilePath pod patchConfig;
          initContainers = map (patchContainer m patchConfig path) (InitContainers pod);
          containers = map (patchContainer m patchConfig path) (Containers pod);
          changed1 = (list_ex snd initContainers \<or> list_ex snd containers);
          changed2 = (changed1 \<or> ContainerCredentialsPatchConfig patchConfig \<noteq> None);
          changed3 = (changed2 \<or> \<not> volumeExists pod patchConfig);
          patch = labelPatch pod patchConfig @ volumePatch pod patchConfig @
            [\<lparr>Op = ''add'', Path = ''/spec/containers'', Value = VContainers (map fst containers)\<rparr>] @
            (if initContainers = [] then []
             else [\<lparr>Op = ''add'', Path = ''/spec/initContainers'',
                    Value = VContainers (map fst initContainers)\<rparr>])
      in (patch, changed3))"

section \<open>Log lines\<close>

definition logContext :: "string \<Rightarrow> string \<Rightarrow> string \<Rightarrow> string \<Rightarrow> string" where
  "logContext name generateName serviceAccountName namespace =
     (let n = (if length name = 0 then generateName else name)
      in ''Pod='' @ n @ '', ServiceAccount='' @ serviceAccountName @ '', Namespace='' @ namespace)"

text \<open>What \<open>MutatePod\<close> logs of a pod: \<open>None\<close> without a configuration, and otherwise the \<open>changed\<close> flag of its patch.\<close>

definition mutationMessage :: "Pod \<Rightarrow> bool option \<Rightarrow> string" where
  "mutationMessage pod changed =
     (case changed of
        None \<Rightarrow> ''Pod was not mutated. Reason: Service account did not have the right annotations or was not found in the cache. ''
      | Some True \<Rightarrow> ''Pod was mutated. ''
      | Some False \<Rightarrow> ''Pod was not mutated. Reason: Required volume mounts and env variables were already present. '') @
     logContext (podName pod) (GenerateName pod) (podServiceAccountName pod) (podNamespace pod)"

end
