(* ===== verification/Mutate.thy ===== *)
theory Mutate
  imports Handler "HOL-Library.Signed_Division"
begin

text \<open>
  \<open>pkg/handler/handler.go\<close>, second part: the merged configuration of a pod
  (\<open>buildPodPatchConfig\<close>), the jitter of the token lifetime, and the admission review
  (\<open>MutatePod\<close>). The cache and the container credentials are interface values in the
  source; here their methods are arguments. While \<open>buildPodPatchConfig\<close> waits in its
  \<open>select\<close>, other goroutines go on: the argument \<open>wait\<close> says what they did to the cache and
  which case of the \<open>select\<close> fired. Decoding the pod and encoding the patch belong to the
  Kubernetes types and are arguments as well.
\<close>

section \<open>Random numbers\<close>

text \<open>
  \<open>rand.Int63n\<close> on a list of draws from the source. The rejection loop does not return while
  the draws are above the largest multiple of the bound; Go's remainder has the sign of the
  dividend.
\<close>

fun reject_loop :: "int64 \<Rightarrow> int64 \<Rightarrow> int64 list \<Rightarrow> (int64 \<times> int64 list) go" where
  "reject_loop n mx [] = NoReturn"
| "reject_loop n mx (v # vs) = (if sint mx < sint v then reject_loop n mx vs else Ok (word_of_int (sint v smod sint n), vs))"

definition Int63n :: "int64 \<Rightarrow> int64 list \<Rightarrow> (int64 \<times> int64 list) go" where
  "Int63n n draws =
     (if sint n \<le> 0 then Panic InvalidArgument
      else if and n (n - 1) = 0 then
        (case draws of [] \<Rightarrow> NoReturn | v # vs \<Rightarrow> Ok (and v (n - 1), vs))
      else reject_loop n (2 ^ 63 - 1 - (2 ^ 63) mod n) draws)"

definition addJitterToDefaultToken :: "('c, 'k) Modifier \<Rightarrow> int64 \<Rightarrow> (('c, 'k) Modifier \<times> int64) go" where
  "addJitterToDefaultToken m tokenExpiration =
     (if tokenExpiration = DefaultTokenExpiration
      then go_bind (Int63n (DefaultTokenExpiration - DefaultMinTokenExpiration + 1) (rand m))
             (\<lambda>(v, draws). Ok (m\<lparr>rand := draws\<rparr>, v + DefaultMinTokenExpiration))
      else Ok (m, tokenExpiration))"

section \<open>The configuration of a pod\<close>

text \<open>The counters \<open>webhookPodCount\<close>, per method, and \<open>missingSACounter\<close>.\<close>

record podMetrics =
  podCountContainerCredentials :: nat
  podCountStsWebIdentity :: nat
  missingSA :: nat

record 'c cacheMethods =
  mGet :: "'c \<Rightarrow> Request \<Rightarrow> ('c \<times> Response) go"
  mGetCommonConfigurations :: "'c \<Rightarrow> string \<Rightarrow> string \<Rightarrow> bool \<times> int64"

datatype wake = Notified | TimedOut

datatype buildResult = Built "podPatchConfig option" | Waiting "chan option"

definition countMissing :: "podMetrics \<Rightarrow> podMetrics" where
  "countMissing g = g\<lparr>missingSA := Suc (missingSA g)\<rparr>"

definition containerCredentialsConfig ::
  "PatchConfig \<Rightarrow> (string \<rightharpoonup> bool) \<Rightarrow> bool \<Rightarrow> int64 \<Rightarrow> podPatchConfig" where
  "containerCredentialsConfig cc containersToSkip regionalSTS tokenExpiration =
     \<lparr>ContainersToSkip = containersToSkip,
      TokenExpiration = tokenExpiration, UseRegionalSTS = regionalSTS,
      Audience = pcAudience cc, cfgMountPath = pcMountPath cc, VolumeName = pcVolumeName cc,
      TokenPath = pcTokenPath cc, WebIdentityPatchConfig = None,
      ContainerCredentialsPatchConfig = Some cc\<rparr>"

text \<open>The end of the function: a role means web identity, no role means no mutation.\<close>

definition finishWebIdentity ::
  "('c, 'k) Modifier \<Rightarrow> podMetrics \<Rightarrow> Pod \<Rightarrow> Response \<Rightarrow> podMetrics \<times> podPatchConfig option" where
  "finishWebIdentity m g pod response =
     (if rRoleARN response \<noteq> [] then
        let (tokenExpiration, containersToSkip) = parsePodAnnotations m pod (rTokenExpiration response)
        in (g\<lparr>podCountStsWebIdentity := Suc (podCountStsWebIdentity g)\<rparr>,
            Some \<lparr>ContainersToSkip = containersToSkip, TokenExpiration = tokenExpiration,
                  UseRegionalSTS = rUseRegionalSTS response, Audience = rAudience response,
                  cfgMountPath = MountPath m, VolumeName = volName m, TokenPath = tokenName m,
                  WebIdentityPatchConfig = Some (rRoleARN response),
                  ContainerCredentialsPatchConfig = None\<rparr>)
      else (g, None))"

definition saRequest :: "Pod \<Rightarrow> bool \<Rightarrow> Request" where
  "saRequest pod notify =
     \<lparr>reqName = podServiceAccountName pod, reqNamespace = podNamespace pod, RequestNotification = notify\<rparr>"

definition buildStart ::
  "'c cacheMethods \<Rightarrow> ('k \<Rightarrow> string \<Rightarrow> string \<Rightarrow> PatchConfig option) \<Rightarrow> ('c, 'k) Modifier \<Rightarrow> podMetrics \<Rightarrow> Pod
     \<Rightarrow> (('c, 'k) Modifier \<times> podMetrics \<times> buildResult) go" where
  "buildStart cm ccGet m g pod =
     (case (ContainerCredentialsConfig m, Cache m) of
        (None, _) \<Rightarrow> Panic NilDereference
      | (_, None) \<Rightarrow> Panic NilDereference
      | (Some k, Some c) \<Rightarrow>
          (case ccGet k (podNamespace pod) (podServiceAccountName pod) of
             Some cc \<Rightarrow>
               (let (regionalSTS, common) =
                      mGetCommonConfigurations cm c (podServiceAccountName pod) (podNamespace pod);
                    (tokenExpiration, containersToSkip) = parsePodAnnotations m pod common
                in go_bind (addJitterToDefaultToken m tokenExpiration) (\<lambda>(m', tokenExpiration').
                     Ok (m', g\<lparr>podCountContainerCredentials := Suc (podCountContainerCredentials g)\<rparr>,
                         Built (Some (containerCredentialsConfig cc containersToSkip regionalSTS tokenExpiration')))))
           | None \<Rightarrow>
               (let gracePeriodEnabled = (0 < sint (saLookupGraceTime m))
                in go_bind (mGet cm c (saRequest pod gracePeriodEnabled)) (\<lambda>(c', response).
                     let m' = m\<lparr>Cache := Some c'\<rparr> in
                     if \<not> FoundInCache response \<and> gracePeriodEnabled
                     then Ok (m', g, Waiting (Notifier response))
                     else let g' = (if \<not> FoundInCache response then countMissing g else g);
                              (g'', cfg) = finishWebIdentity m' g' pod response
                          in Ok (m', g'', Built cfg)))))"

definition buildResume ::
  "'c cacheMethods \<Rightarrow> ('c, 'k) Modifier \<Rightarrow> podMetrics \<Rightarrow> Pod \<Rightarrow> wake
     \<Rightarrow> (('c, 'k) Modifier \<times> podMetrics \<times> podPatchConfig option) go" where
  "buildResume cm m g pod w =
     (case w of
        TimedOut \<Rightarrow> Ok (m, countMissing g, None)
      | Notified \<Rightarrow>
          (case Cache m of
             None \<Rightarrow> Panic NilDereference
           | Some c \<Rightarrow>
               go_bind (mGet cm c (saRequest pod False)) (\<lambda>(c', response).
                 let m' = m\<lparr>Cache := Some c'\<rparr> in
                 if \<not> FoundInCache response then Ok (m', countMissing g, None)
                 else let (g', cfg) = finishWebIdentity m' g pod response in Ok (m', g', cfg))))"

definition buildPodPatchConfig ::
  "'c cacheMethods \<Rightarrow> ('k \<Rightarrow> string \<Rightarrow> string \<Rightarrow> PatchConfig option) \<Rightarrow> (chan option \<Rightarrow> 'c \<Rightarrow> 'c \<times> wake)
     \<Rightarrow> ('c, 'k) Modifier \<Rightarrow> podMetrics \<Rightarrow> Pod \<Rightarrow> (('c, 'k) Modifier \<times> podMetrics \<times> podPatchConfig option) go" where
  "buildPodPatchConfig cm ccGet wait m g pod =
     go_bind (buildStart cm ccGet m g pod) (\<lambda>(m', g', r).
       case r of
         Built cfg \<Rightarrow> Ok (m', g', cfg)
       | Waiting ch \<Rightarrow>
           (case Cache m' of
              None \<Rightarrow> Panic NilDereference
            | Some c \<Rightarrow> (let (c', w) = wait ch c
                        in buildResume cm (m'\<lparr>Cache := Some c'\<rparr>) g' pod w)))"

section \<open>Admission\<close>

record AdmissionRequest =
  UID :: string
  arNamespace :: string
  ObjectRaw :: string

record AdmissionResponse =
  respUID :: string
  Allowed :: bool
  Result :: "string option"
  Patch :: "string option"
  PatchType :: "string option"

record AdmissionReview =
  arRequest :: "AdmissionRequest option"
  arResponse :: "AdmissionResponse option"

definition denyWith :: "string \<Rightarrow> AdmissionResponse" where
  "denyWith message =
     \<lparr>respUID = [], Allowed = False, Result = Some message, Patch = None, PatchType = None\<rparr>"

definition allowAll :: AdmissionResponse where
  "allowAll = \<lparr>respUID = [], Allowed = True, Result = None, Patch = None, PatchType = None\<rparr>"

text \<open>The codecs of the Kubernetes types: a pod from its raw form, a patch to bytes.\<close>

record codecs =
  unmarshalPod :: "string \<Rightarrow> string + Pod"
  marshalPatch :: "patchOperation list \<Rightarrow> string + string"

definition MutatePod ::
  "codecs \<Rightarrow> 'c cacheMethods \<Rightarrow> ('k \<Rightarrow> string \<Rightarrow> string \<Rightarrow> PatchConfig option)
     \<Rightarrow> (chan option \<Rightarrow> 'c \<Rightarrow> 'c \<times> wake) \<Rightarrow> ('c, 'k) Modifier \<Rightarrow> podMetrics \<Rightarrow> AdmissionReview option
     \<Rightarrow> (('c, 'k) Modifier \<times> podMetrics \<times> AdmissionResponse) go" where
  "MutatePod codec cm ccGet wait m g ar =
     (case ar of
        None \<Rightarrow> Ok (m, g, denyWith ''bad content'')
      | Some review \<Rightarrow>
          (case arRequest review of
             None \<Rightarrow> Ok (m, g, denyWith ''bad content'')
           | Some req \<Rightarrow>
               (case unmarshalPod codec (ObjectRaw req) of
                  Inl err \<Rightarrow> Ok (m, g, denyWith err)
                | Inr rawPod \<Rightarrow>
                    let pod = rawPod\<lparr>podNamespace := arNamespace req\<rparr> in
                    go_bind (buildPodPatchConfig cm ccGet wait m g pod) (\<lambda>(m', g', patchConfig).
                      case patchConfig of
                        None \<Rightarrow> Ok (m', g', allowAll)
                      | Some cfg \<Rightarrow>
                          (case marshalPatch codec (fst (getPodSpecPatch m' pod cfg)) of
                             Inl err \<Rightarrow> Ok (m', g', denyWith err)
                           | Inr patchBytes \<Rightarrow>
                               Ok (m', g', allowAll\<lparr>Patch := Some patchBytes, PatchType := Some ''JSONPatch''\<rparr>))))))"

end
