(* ===== verification/Server.thy ===== *)
theory Server
  imports Http Mutate
begin

text \<open>
  The HTTP side of the webhook: \<open>Handle\<close> of \<open>pkg/handler/handler.go\<close>, the debug handlers of
  \<open>pkg/cache/debug/debug.go\<close>, and the routes that \<open>main.go\<close> registers. The state of the server is
  its metrics and log, the modifier and the pod counters. Decoding and encoding of
  admission reviews belong to the Kubernetes types and are arguments; the deserializer may fill
  in part of the review before it reports an error.
\<close>

record ('c, 'k) server = serverMetrics +
  modifier :: "('c, 'k) Modifier"
  podCounters :: podMetrics

record reviewCodecs =
  decodeReview :: "string \<Rightarrow> AdmissionReview \<times> string option"
  marshalReview :: "AdmissionReview \<Rightarrow> string + string"

section \<open>Handle\<close>

text \<open>
  The end of \<open>Handle\<close> and of \<open>Deny\<close>: an encoding error is reported and the code goes on to write
  the nil slice it got; a failing write is reported on the same writer.
\<close>

definition writeReview :: "reviewCodecs \<Rightarrow> ResponseWriter \<Rightarrow> AdmissionReview \<Rightarrow> ResponseWriter" where
  "writeReview rc w review =
     (let (resp, w1) = (case marshalReview rc review of
                          Inl err \<Rightarrow> ([], Error w (''could not encode response: '' @ err) 500)
                        | Inr bytes \<Rightarrow> (bytes, w));
          (w2, _, err) = Write w1 resp
      in case err of
           None \<Rightarrow> w2
         | Some e \<Rightarrow> Error w2 (''could not write response: '' @ e) 500)"

definition invalidContentType :: string where
  "invalidContentType = ''Invalid Content-Type, expected '' @ [CHR 0x60] @ ''application/json'' @ [CHR 0x60]"

definition responseReview :: "AdmissionReview \<Rightarrow> AdmissionResponse \<Rightarrow> AdmissionReview" where
  "responseReview ar resp =
     \<lparr>arRequest = None,
      arResponse = Some (case arRequest ar of Some req \<Rightarrow> resp\<lparr>respUID := UID req\<rparr> | None \<Rightarrow> resp)\<rparr>"

definition Handle ::
  "reviewCodecs \<Rightarrow> codecs \<Rightarrow> 'c cacheMethods \<Rightarrow> ('k \<Rightarrow> string \<Rightarrow> string \<Rightarrow> PatchConfig option)
     \<Rightarrow> (chan option \<Rightarrow> 'c \<Rightarrow> 'c \<times> wake) \<Rightarrow> ('c, 'k) server handler" where
  "Handle rc codec cm ccGet wait w r s =
     (let body = (case Body r of Some (Inr data) \<Rightarrow> data | _ \<Rightarrow> []) in
      if ContentType r \<noteq> ''application/json'' then (Error w invalidContentType 415, s, Returned)
      else
        let (ar, err) = decodeReview rc body in
        case (case err of
                Some e \<Rightarrow> Ok (modifier s, podCounters s, denyWith e)
              | None \<Rightarrow> MutatePod codec cm ccGet wait (modifier s) (podCounters s) (Some ar)) of
          Panic p \<Rightarrow> (w, s, Panicked p)
        | NoReturn \<Rightarrow> (w, s, Blocked)
        | Ok (m', g', admissionResponse) \<Rightarrow>
            (writeReview rc w (responseReview ar admissionResponse),
             s\<lparr>modifier := m', podCounters := g'\<rparr>, Returned))"

section \<open>The debug handlers\<close>

text \<open>\<open>Dumper\<close>: its cache is the modifier's, through the interface's methods \<open>ToJSON\<close> and \<open>Clear\<close>.\<close>

definition dumpHandle :: "('c \<Rightarrow> string) \<Rightarrow> ('c, 'k) server handler" where
  "dumpHandle toJSON w r s =
     (case Cache (modifier s) of
        None \<Rightarrow> (w, s, Panicked NilDereference)
      | Some c \<Rightarrow>
          (case Write w (toJSON c) of
             (w', _, None) \<Rightarrow> (w', s, Returned)
           | (w', _, Some e) \<Rightarrow> (Error w' (''could not write response: '' @ e) 500, s, Returned)))"

definition dumpClear :: "('c \<Rightarrow> 'c) \<Rightarrow> ('c, 'k) server handler" where
  "dumpClear clear w r s =
     (case Cache (modifier s) of
        None \<Rightarrow> (w, s, Panicked NilDereference)
      | Some c \<Rightarrow> (w, s\<lparr>modifier := (modifier s)\<lparr>Cache := Some (clear c)\<rparr>\<rparr>, Returned))"

definition InternalServerError :: "'s handler" where
  "InternalServerError w r s = (Error w ''test error'' 500, s, Returned)"

definition Deny :: "reviewCodecs \<Rightarrow> 's handler" where
  "Deny rc w r s =
     (writeReview rc w \<lparr>arRequest = None, arResponse = Some (denyWith ''Test deny message'')\<rparr>, s, Returned)"

section \<open>Routes\<close>

definition healthz :: "'s handler" where
  "healthz w r s = (fst (Write w ''ok''), s, Returned)"

text \<open>The middleware \<open>main\<close> wraps around a handler; the last of the list is the outermost.\<close>

definition wrapped :: "'a serverMetrics_scheme handler \<Rightarrow> 'a serverMetrics_scheme handler" where
  "wrapped h = Apply h [InstrumentRoute, Logging]"

text \<open>The two servers' tables of exact paths; \<open>debug\<close> is the flag \<open>--enable-debugging-handlers\<close>.\<close>

definition webhookMux :: "bool \<Rightarrow> ('c, 'k) server handler \<Rightarrow> reviewCodecs \<Rightarrow> string \<rightharpoonup> ('c, 'k) server handler" where
  "webhookMux debug mutate rc =
     [''/mutate'' \<mapsto> wrapped mutate, ''/healthz'' \<mapsto> healthz] ++
     (if debug
      then [''/debug/alpha/deny'' \<mapsto> wrapped (Deny rc), ''/debug/alpha/500'' \<mapsto> wrapped InternalServerError]
      else Map.empty)"

definition metricsMux ::
  "bool \<Rightarrow> ('c, 'k) server handler \<Rightarrow> ('c \<Rightarrow> string) \<Rightarrow> ('c \<Rightarrow> 'c) \<Rightarrow> string \<rightharpoonup> ('c, 'k) server handler" where
  "metricsMux debug prom toJSON clear =
     [''/metrics'' \<mapsto> prom] ++
     (if debug
      then [''/debug/alpha/cache'' \<mapsto> dumpHandle toJSON, ''/debug/alpha/cache/clear'' \<mapsto> dumpClear clear]
      else Map.empty)"

end
