(* ===== verification/HandlerProps.thy ===== *)
theory HandlerProps
  imports Handler "HOL-Library.Multiset"
begin

text \<open>
  Properties of the container and pod patches. The reference description of
  \<open>addEnvToContainer\<close> is a list of variables and a list of mounts to append
  (\<open>injectedEnv\<close>, \<open>injectedMounts\<close>); from the equation \<open>addEnv_eq\<close> follow that nothing the
  user wrote is changed, that no variable is defined twice, that the \<open>changed\<close> flag is
  exact, and that a second pass does nothing.
\<close>

section \<open>What is appended to a container\<close>

definition satisfied :: "Container \<Rightarrow> podPatchConfig \<Rightarrow> bool" where
  "satisfied c cfg \<longleftrightarrow>
     (WebIdentityPatchConfig cfg \<noteq> None \<and> defines_any c webIdentityKeys \<or>
      ContainerCredentialsPatchConfig cfg \<noteq> None \<and> defines_any c containerCredentialsKeys) \<and>
     defines_any c awsRegionKeys \<and> defines_any c [stsKey]"

definition stsEnv :: "Container \<Rightarrow> podPatchConfig \<Rightarrow> EnvVar list" where
  "stsEnv c cfg =
     (if \<not> defines_any c [stsKey] \<and> UseRegionalSTS cfg then [mkEnv stsKey ''regional''] else [])"

definition regionEnv :: "string \<Rightarrow> Container \<Rightarrow> EnvVar list" where
  "regionEnv region c =
     (if \<not> defines_any c awsRegionKeys \<and> region \<noteq> []
      then [mkEnv ''AWS_DEFAULT_REGION'' region, mkEnv ''AWS_REGION'' region] else [])"

definition credentialEnv :: "Container \<Rightarrow> string \<Rightarrow> podPatchConfig \<Rightarrow> EnvVar list" where
  "credentialEnv c path cfg =
     (case (ContainerCredentialsPatchConfig cfg, WebIdentityPatchConfig cfg) of
        (Some cc, _) \<Rightarrow>
          if defines_any c containerCredentialsKeys then []
          else [mkEnv AwsEnvVarContainerCredentialsFullUri (FullUri cc),
                mkEnv AwsEnvVarContainerAuthorizationTokenFile path]
      | (None, Some roleArn) \<Rightarrow>
          if defines_any c webIdentityKeys then []
          else [mkEnv ''AWS_ROLE_ARN'' roleArn, mkEnv ''AWS_WEB_IDENTITY_TOKEN_FILE'' path]
      | (None, None) \<Rightarrow> [])"

definition injectedEnv :: "string \<Rightarrow> Container \<Rightarrow> string \<Rightarrow> podPatchConfig \<Rightarrow> EnvVar list" where
  "injectedEnv region c path cfg =
     (if satisfied c cfg then [] else stsEnv c cfg @ regionEnv region c @ credentialEnv c path cfg)"

definition tokenMount :: "podPatchConfig \<Rightarrow> VolumeMount" where
  "tokenMount cfg = \<lparr>vmName = VolumeName cfg, ReadOnly = True, vmMountPath = cfgMountPath cfg, vmRest = []\<rparr>"

definition mounts_volume :: "Container \<Rightarrow> podPatchConfig \<Rightarrow> bool" where
  "mounts_volume c cfg = list_ex (\<lambda>v. vmName v = VolumeName cfg) (VolumeMounts c)"

definition injectedMounts :: "Container \<Rightarrow> podPatchConfig \<Rightarrow> VolumeMount list" where
  "injectedMounts c cfg =
     (if satisfied c cfg \<or> mounts_volume c cfg then [] else [tokenMount cfg])"

lemmas injected_defs = injectedEnv_def stsEnv_def regionEnv_def credentialEnv_def

lemma addEnv_satisfied:
  "satisfied c cfg \<Longrightarrow> addEnvToContainer m c path cfg = (c, False)"
  by (simp add: addEnvToContainer_def satisfied_def Let_def)

lemma addEnv_unsatisfied_env:
  "\<not> satisfied c cfg \<Longrightarrow>
     Env (fst (addEnvToContainer m c path cfg)) =
       Env c @ stsEnv c cfg @ regionEnv (Region m) c @ credentialEnv c path cfg"
  unfolding addEnvToContainer_def satisfied_def stsEnv_def regionEnv_def credentialEnv_def Let_def
  by (auto split: option.split)

lemma addEnv_unsatisfied_mounts:
  "\<not> satisfied c cfg \<Longrightarrow>
     VolumeMounts (fst (addEnvToContainer m c path cfg)) =
       VolumeMounts c @ (if mounts_volume c cfg then [] else [tokenMount cfg])"
  unfolding addEnvToContainer_def satisfied_def mounts_volume_def tokenMount_def Let_def
  by (auto split: option.split)

lemma addEnv_unsatisfied_changed:
  "\<not> satisfied c cfg \<Longrightarrow>
     snd (addEnvToContainer m c path cfg) \<longleftrightarrow>
       stsEnv c cfg @ regionEnv (Region m) c @ credentialEnv c path cfg \<noteq> [] \<or> \<not> mounts_volume c cfg"
  unfolding addEnvToContainer_def satisfied_def mounts_volume_def stsEnv_def regionEnv_def
    credentialEnv_def Let_def
  by (auto split: option.split)

lemma addEnv_frame [frame]:
  "cName (fst (addEnvToContainer m c path cfg)) = cName c"
  "cRest (fst (addEnvToContainer m c path cfg)) = cRest c"
  unfolding addEnvToContainer_def Let_def by (simp_all split: option.split if_split)

lemma addEnv_eq:
  "addEnvToContainer m c path cfg =
     (c\<lparr>Env := Env c @ injectedEnv (Region m) c path cfg,
        VolumeMounts := VolumeMounts c @ injectedMounts c cfg\<rparr>,
      injectedEnv (Region m) c path cfg \<noteq> [] \<or> injectedMounts c cfg \<noteq> [])"
proof (cases "satisfied c cfg")
  case True
  then show ?thesis by (simp add: addEnv_satisfied injectedEnv_def injectedMounts_def)
next
  case False
  have "fst (addEnvToContainer m c path cfg) =
     c\<lparr>Env := Env c @ injectedEnv (Region m) c path cfg,
       VolumeMounts := VolumeMounts c @ injectedMounts c cfg\<rparr>"
    using False by (intro Container.equality)
      (simp_all add: addEnv_unsatisfied_env addEnv_unsatisfied_mounts injectedEnv_def injectedMounts_def frame)
  moreover have "snd (addEnvToContainer m c path cfg) \<longleftrightarrow>
     injectedEnv (Region m) c path cfg \<noteq> [] \<or> injectedMounts c cfg \<noteq> []"
    using False by (simp add: addEnv_unsatisfied_changed injectedEnv_def injectedMounts_def)
  ultimately show ?thesis by (simp add: prod_eq_iff)
qed

section \<open>The flag, the names, and a second pass\<close>

lemma append_eq_self [simp]: "Env (c\<lparr>Env := xs, VolumeMounts := ys\<rparr>) = xs"
  by simp

lemma addEnv_changed_iff:
  "snd (addEnvToContainer m c path cfg) \<longleftrightarrow> fst (addEnvToContainer m c path cfg) \<noteq> c"
proof -
  have "c\<lparr>Env := Env c @ es, VolumeMounts := VolumeMounts c @ vs\<rparr> = c \<longleftrightarrow> es = [] \<and> vs = []" for es vs
  proof
    assume eq: "c\<lparr>Env := Env c @ es, VolumeMounts := VolumeMounts c @ vs\<rparr> = c"
    have "Env c @ es = Env c"
      using arg_cong [OF eq, of Env] by simp
    moreover have "VolumeMounts c @ vs = VolumeMounts c"
      using arg_cong [OF eq, of VolumeMounts] by simp
    ultimately show "es = [] \<and> vs = []" by simp
  qed simp
  then show ?thesis
    by (simp add: addEnv_eq)
qed

lemma defines_any_iff: "defines_any c keys \<longleftrightarrow> (\<exists>e \<in> set (Env c). envName e \<in> set keys)"
  by (auto simp: defines_any_def list_ex_iff)

lemma key_names:
  "set webIdentityKeys = {''AWS_ROLE_ARN'', ''AWS_WEB_IDENTITY_TOKEN_FILE''}"
  "set containerCredentialsKeys =
     {AwsEnvVarContainerCredentialsFullUri, AwsEnvVarContainerAuthorizationTokenFile}"
  "set awsRegionKeys = {''AWS_REGION'', ''AWS_DEFAULT_REGION''}"
  by (auto simp: webIdentityKeys_def containerCredentialsKeys_def awsRegionKeys_def)

lemma mkEnv_sel [simp]: "envName (mkEnv n v) = n" "envValue (mkEnv n v) = v"
  by (simp_all add: mkEnv_def)

lemmas env_key_defs = stsKey_def AwsEnvVarContainerCredentialsFullUri_def
  AwsEnvVarContainerAuthorizationTokenFile_def

lemma sts_names: "envName ` set (stsEnv c cfg) \<subseteq> {stsKey}"
  by (auto simp: stsEnv_def)

lemma region_names: "envName ` set (regionEnv r c) \<subseteq> set awsRegionKeys"
  by (auto simp: regionEnv_def key_names)

lemma credential_names:
  "envName ` set (credentialEnv c path cfg) \<subseteq>
     (if ContainerCredentialsPatchConfig cfg = None then set webIdentityKeys else set containerCredentialsKeys)"
  by (auto simp: credentialEnv_def key_names split: option.splits)

text \<open>An injected variable was not defined by the user.\<close>

lemma injected_not_defined:
  assumes "e \<in> set (injectedEnv region c path cfg)"
  shows "envName e \<notin> envName ` set (Env c)"
  using assms
  by (auto simp: injected_defs defines_any_iff key_names split: if_splits option.splits)

lemma injected_distinct: "distinct (map envName (injectedEnv region c path cfg))"
  by (auto simp: injected_defs env_key_defs split: option.splits)

text \<open>After a pass every group of keys that was to be injected is defined.\<close>

lemma defines_any_append:
  "defines_any (c\<lparr>Env := Env c @ es, VolumeMounts := vs\<rparr>) keys \<longleftrightarrow>
     defines_any c keys \<or> list_ex (\<lambda>e. envName e \<in> set keys) es"
  by (auto simp: defines_any_def)

lemma second_pass_env:
  assumes "c' = c\<lparr>Env := Env c @ injectedEnv r c path cfg, VolumeMounts := vs\<rparr>"
    and "\<not> satisfied c cfg"
  shows "stsEnv c' cfg @ regionEnv r c' @ credentialEnv c' path cfg = []"
proof -
  have "stsEnv c' cfg = []"
    using assms by (auto simp: stsEnv_def defines_any_append injectedEnv_def)
  moreover have "regionEnv r c' = []"
    using assms by (auto simp: regionEnv_def defines_any_append injectedEnv_def key_names)
  moreover have "credentialEnv c' path cfg = []"
    using assms
    by (auto simp: credentialEnv_def defines_any_append injectedEnv_def key_names split: option.splits)
  ultimately show ?thesis by simp
qed

lemma second_pass_mounts:
  assumes "c' = c\<lparr>Env := es, VolumeMounts := VolumeMounts c @ injectedMounts c cfg\<rparr>"
    and "\<not> satisfied c cfg"
  shows "mounts_volume c' cfg"
  using assms by (auto simp: mounts_volume_def injectedMounts_def tokenMount_def)

lemma addEnv_idem:
  assumes "addEnvToContainer m c path cfg = (c', ch)"
  shows "addEnvToContainer m c' path cfg = (c', False)"
proof (cases "satisfied c cfg")
  case True
  with assms show ?thesis by (simp add: addEnv_satisfied)
next
  case False
  have c': "c' = c\<lparr>Env := Env c @ injectedEnv (Region m) c path cfg,
      VolumeMounts := VolumeMounts c @ injectedMounts c cfg\<rparr>"
    using assms by (simp add: addEnv_eq)
  have "injectedEnv (Region m) c' path cfg = []"
    using second_pass_env [OF c' False] by (simp add: injectedEnv_def)
  moreover have "injectedMounts c' cfg = []"
    using second_pass_mounts [OF c' False] by (simp add: injectedMounts_def)
  ultimately show ?thesis
    by (simp add: addEnv_eq)
qed

section \<open>Containers of a pod\<close>

lemma patchContainer_skip:
  "ContainersToSkip cfg (cName c) \<noteq> None \<Longrightarrow> patchContainer m cfg path c = (c, False)"
  by (simp add: patchContainer_def)

lemma patchContainer_frame [frame]:
  "cName (fst (patchContainer m cfg path c)) = cName c"
  "cRest (fst (patchContainer m cfg path c)) = cRest c"
  by (simp_all add: patchContainer_def frame)

lemma patchContainer_idem:
  "patchContainer m cfg path (fst (patchContainer m cfg path c)) = (fst (patchContainer m cfg path c), False)"
  by (cases "ContainersToSkip cfg (cName c) = None")
     (auto simp: patchContainer_def frame intro: addEnv_idem [OF surjective_pairing])

lemma patchContainer_changed_iff:
  "snd (patchContainer m cfg path c) \<longleftrightarrow> fst (patchContainer m cfg path c) \<noteq> c"
  by (simp add: patchContainer_def addEnv_changed_iff)

lemma skip_from_csv:
  assumes "Annotations pod (dom' @ ''/'' @ SkipContainersAnnotation) = Some (Join COMMA names)"
    and "names \<noteq> []" and "list_all plain_field names" and "names \<noteq> [[]]"
  shows "getContainersToSkip dom' pod n \<noteq> None \<longleftrightarrow> n \<in> set names"
proof -
  have "foldl (\<lambda>m name. m(name \<mapsto> True)) m names n \<noteq> None \<longleftrightarrow> n \<in> set names \<or> m n \<noteq> None" for m :: "string \<rightharpoonup> bool"
    by (induction names arbitrary: m) auto
  then show ?thesis
    using assms csv_Read_plain [OF assms(2-4)] by (simp add: getContainersToSkip_def)
qed

end
