(* ===== verification/PodProps.thy ===== *)
theory PodProps
  imports HandlerProps
begin

text \<open>
  Properties of \<open>getPodSpecPatch\<close>. The API server applies the patch by the rules of RFC 6902; that
  code is not part of the repository, so applying one operation is a parameter \<open>app\<close>, and
  \<open>rfc6902_add\<close> states what the standard says of \<open>add\<close> for the paths the handler uses. Under
  it the patched pod is \<open>mutated\<close>, and patching that pod again changes nothing.
\<close>

section \<open>Applying the patch\<close>

definition podIdentityLabel :: string where
  "podIdentityLabel = ''eks.amazonaws.com/pod-identity''"

text \<open>
  \<open>add\<close> sets an object member, replacing a present one, and inserts before the given index of an
  array; \<open>~1\<close> stands for a slash in a path element.
\<close>

definition rfc6902_add :: "(Pod \<Rightarrow> patchOperation \<Rightarrow> Pod) \<Rightarrow> bool" where
  "rfc6902_add app \<longleftrightarrow>
     (\<forall>p kvs. app p \<lparr>Op = ''add'', Path = ''/metadata/labels'', Value = VLabels kvs\<rparr> =
        p\<lparr>Labels := Some (map_of kvs)\<rparr>) \<and>
     (\<forall>p l s. Labels p = Some l \<longrightarrow>
        app p \<lparr>Op = ''add'', Path = ''/metadata/labels/eks.amazonaws.com~1pod-identity'', Value = VString s\<rparr> =
          p\<lparr>Labels := Some (l(podIdentityLabel \<mapsto> s))\<rparr>) \<and>
     (\<forall>p vs. app p \<lparr>Op = ''add'', Path = ''/spec/volumes'', Value = VVolumes vs\<rparr> = p\<lparr>Volumes := Some vs\<rparr>) \<and>
     (\<forall>p vs v. Volumes p = Some vs \<longrightarrow>
        app p \<lparr>Op = ''add'', Path = ''/spec/volumes/0'', Value = VVolume v\<rparr> = p\<lparr>Volumes := Some (v # vs)\<rparr>) \<and>
     (\<forall>p cs. app p \<lparr>Op = ''add'', Path = ''/spec/containers'', Value = VContainers cs\<rparr> = p\<lparr>Containers := cs\<rparr>) \<and>
     (\<forall>p cs. app p \<lparr>Op = ''add'', Path = ''/spec/initContainers'', Value = VContainers cs\<rparr> =
        p\<lparr>InitContainers := cs\<rparr>)"

text \<open>A function with these laws, for the witnesses.\<close>

definition apply_add :: "Pod \<Rightarrow> patchOperation \<Rightarrow> Pod" where
  "apply_add p op =
     (case Value op of
        VLabels kvs \<Rightarrow> p\<lparr>Labels := Some (map_of kvs)\<rparr>
      | VString s \<Rightarrow> (case Labels p of None \<Rightarrow> p | Some l \<Rightarrow> p\<lparr>Labels := Some (l(podIdentityLabel \<mapsto> s))\<rparr>)
      | VVolumes vs \<Rightarrow> p\<lparr>Volumes := Some vs\<rparr>
      | VVolume v \<Rightarrow> (case Volumes p of None \<Rightarrow> p | Some vs \<Rightarrow> p\<lparr>Volumes := Some (v # vs)\<rparr>)
      | VContainers cs \<Rightarrow>
          if Path op = ''/spec/containers'' then p\<lparr>Containers := cs\<rparr> else p\<lparr>InitContainers := cs\<rparr>)"

lemma apply_add_rfc: "rfc6902_add apply_add"
  by (simp add: rfc6902_add_def apply_add_def)

definition mutatedLabels :: "Pod \<Rightarrow> podPatchConfig \<Rightarrow> (string \<rightharpoonup> string) option" where
  "mutatedLabels p cfg =
     (if ContainerCredentialsPatchConfig cfg = None then Labels p
      else Some ((case Labels p of None \<Rightarrow> Map.empty | Some l \<Rightarrow> l)(podIdentityLabel \<mapsto> ''enabled'')))"

definition mutatedVolumes :: "Pod \<Rightarrow> podPatchConfig \<Rightarrow> Volume list option" where
  "mutatedVolumes p cfg =
     (if volumeExists p cfg then Volumes p
      else Some (tokenVolume cfg # (case Volumes p of None \<Rightarrow> [] | Some vs \<Rightarrow> vs)))"

definition mutatedContainers ::
  "('c, 'k) Modifier \<Rightarrow> Pod \<Rightarrow> podPatchConfig \<Rightarrow> Container list \<Rightarrow> Container list" where
  "mutatedContainers m p cfg cs = map (\<lambda>c. fst (patchContainer m cfg (tokenFilePath p cfg) c)) cs"

definition mutated :: "('c, 'k) Modifier \<Rightarrow> Pod \<Rightarrow> podPatchConfig \<Rightarrow> Pod" where
  "mutated m p cfg =
     p\<lparr>Labels := mutatedLabels p cfg, Volumes := mutatedVolumes p cfg,
       Containers := mutatedContainers m p cfg (Containers p),
       InitContainers := mutatedContainers m p cfg (InitContainers p)\<rparr>"

lemma apply_label:
  assumes "rfc6902_add app"
  shows "foldl app p (labelPatch p cfg) = p\<lparr>Labels := mutatedLabels p cfg\<rparr>"
  using assms unfolding rfc6902_add_def labelPatch_def mutatedLabels_def podIdentityLabel_def
  by (cases "Labels p") auto

lemma apply_volume:
  assumes "rfc6902_add app" and "Volumes q = Volumes p"
  shows "foldl app q (volumePatch p cfg) = q\<lparr>Volumes := mutatedVolumes p cfg\<rparr>"
  using assms unfolding rfc6902_add_def volumePatch_def mutatedVolumes_def
  by (cases "Volumes p") auto

lemma getPodSpecPatch_eq:
  "getPodSpecPatch m p cfg =
     (labelPatch p cfg @ volumePatch p cfg @
        [\<lparr>Op = ''add'', Path = ''/spec/containers'', Value = VContainers (mutatedContainers m p cfg (Containers p))\<rparr>] @
        (if InitContainers p = [] then []
         else [\<lparr>Op = ''add'', Path = ''/spec/initContainers'',
                Value = VContainers (mutatedContainers m p cfg (InitContainers p))\<rparr>]),
      mutatedContainers m p cfg (InitContainers p) \<noteq> InitContainers p \<or>
      mutatedContainers m p cfg (Containers p) \<noteq> Containers p \<or>
      ContainerCredentialsPatchConfig cfg \<noteq> None \<or> \<not> volumeExists p cfg)"
proof -
  have changed: "list_ex snd (map (patchContainer m cfg path) cs) \<longleftrightarrow>
      map (\<lambda>c. fst (patchContainer m cfg path c)) cs \<noteq> cs" for path cs
    by (induction cs) (auto simp: patchContainer_changed_iff)
  show ?thesis
    by (simp add: getPodSpecPatch_def mutatedContainers_def Let_def changed comp_def)
qed

lemma apply_patch:
  assumes "rfc6902_add app"
  shows "foldl app p (fst (getPodSpecPatch m p cfg)) = mutated m p cfg"
proof -
  let ?q = "p\<lparr>Labels := mutatedLabels p cfg\<rparr>"
  have 1: "foldl app p (labelPatch p cfg) = ?q"
    by (rule apply_label [OF assms])
  have 2: "foldl app ?q (volumePatch p cfg) = ?q\<lparr>Volumes := mutatedVolumes p cfg\<rparr>"
    by (rule apply_volume [OF assms]) simp
  have "InitContainers p = [] \<Longrightarrow> mutatedContainers m p cfg (InitContainers p) = InitContainers p"
    by (simp add: mutatedContainers_def)
  then show ?thesis
    using assms 1 2 by (auto simp: getPodSpecPatch_eq mutated_def rfc6902_add_def)
qed

section \<open>A second pass\<close>

lemma tokenFilePath_mutated [simp]: "tokenFilePath (mutated m p cfg) cfg' = tokenFilePath p cfg'"
  by (simp add: tokenFilePath_def windows_pod_def mutated_def)

lemma mutatedContainers_idem:
  "mutatedContainers m p cfg (mutatedContainers m p cfg cs) = mutatedContainers m p cfg cs"
  by (simp add: mutatedContainers_def patchContainer_idem)

lemma volumeExists_mutated: "volumeExists (mutated m p cfg) cfg"
  by (auto simp: volumeExists_def mutated_def mutatedVolumes_def tokenVolume_def split: option.splits)

lemma mutatedLabels_mutated: "mutatedLabels (mutated m p cfg) cfg = mutatedLabels p cfg"
  by (auto simp: mutatedLabels_def mutated_def)

lemma mutated_Containers_second:
  "mutatedContainers m (mutated m p cfg) cfg (Containers (mutated m p cfg)) = Containers (mutated m p cfg)"
  "mutatedContainers m (mutated m p cfg) cfg (InitContainers (mutated m p cfg)) = InitContainers (mutated m p cfg)"
  using mutatedContainers_idem [of m p cfg]
  by (simp_all add: mutatedContainers_def) (simp_all add: mutated_def mutatedContainers_def)

lemma mutated_idem: "mutated m (mutated m p cfg) cfg = mutated m p cfg"
proof -
  let ?q = "mutated m p cfg"
  have "mutatedVolumes ?q cfg = Volumes ?q"
    by (simp add: mutatedVolumes_def volumeExists_mutated)
  moreover have "mutatedLabels ?q cfg = Labels ?q"
    by (simp add: mutatedLabels_mutated) (simp add: mutated_def)
  ultimately show ?thesis
    using mutated_Containers_second [of m p cfg] by (simp add: mutated_def [of m ?q cfg])
qed

lemma second_patch_unchanged:
  "snd (getPodSpecPatch m (mutated m p cfg) cfg) \<longleftrightarrow> ContainerCredentialsPatchConfig cfg \<noteq> None"
  using mutated_Containers_second [of m p cfg] by (simp add: getPodSpecPatch_eq volumeExists_mutated)

text \<open>A container that is not skipped and does not bring its own variables gets the credentials.\<close>

lemma patched_credentials:
  assumes "ContainersToSkip cfg (cName c) = None" and "\<not> satisfied c cfg"
  shows "set (credentialEnv c path cfg) \<subseteq> set (Env (fst (patchContainer m cfg path c)))"
    and "mounts_volume (fst (patchContainer m cfg path c)) cfg"
proof -
  have c': "fst (patchContainer m cfg path c) =
      c\<lparr>Env := Env c @ injectedEnv (Region m) c path cfg, VolumeMounts := VolumeMounts c @ injectedMounts c cfg\<rparr>"
    using assms(1) by (simp add: patchContainer_def addEnv_eq)
  show "set (credentialEnv c path cfg) \<subseteq> set (Env (fst (patchContainer m cfg path c)))"
    using assms(2) by (auto simp: c' injectedEnv_def)
  show "mounts_volume (fst (patchContainer m cfg path c)) cfg"
    by (rule second_pass_mounts [OF c' assms(2)])
qed

section \<open>Claims\<close>

text \<open>
  C5. Patching a container only appends: every variable and every mount the user wrote keeps its
  place and value, the appended variables have names the user did not define and are
  pairwise different, at most one mount is appended and only when no mount of that volume
  is there, and everything else of the container stays as it was.
\<close>

theorem addEnv_only_appends:
  assumes "addEnvToContainer m c path cfg = (c', ch)"
  shows "\<exists>es vs. c' = c\<lparr>Env := Env c @ es, VolumeMounts := VolumeMounts c @ vs\<rparr> \<and>
    (\<forall>e \<in> set es. envName e \<notin> envName ` set (Env c)) \<and> distinct (map envName es) \<and>
    (vs = [] \<or> vs = [tokenMount cfg] \<and> \<not> mounts_volume c cfg) \<and> (ch \<longleftrightarrow> c' \<noteq> c)"
proof (intro exI conjI)
  show "c' = c\<lparr>Env := Env c @ injectedEnv (Region m) c path cfg,
      VolumeMounts := VolumeMounts c @ injectedMounts c cfg\<rparr>"
    using assms by (simp add: addEnv_eq)
  show "\<forall>e \<in> set (injectedEnv (Region m) c path cfg). envName e \<notin> envName ` set (Env c)"
    using injected_not_defined by blast
  show "ch \<longleftrightarrow> c' \<noteq> c"
    using addEnv_changed_iff [of m c path cfg] assms by simp
qed (auto simp: injected_distinct injectedMounts_def)

definition exampleConfig :: podPatchConfig where
  "exampleConfig = \<lparr>ContainersToSkip = Map.empty, TokenExpiration = 3600, UseRegionalSTS = True,
     Audience = ''sts.amazonaws.com'', cfgMountPath = ''/var/run/secrets/eks.amazonaws.com/serviceaccount'',
     VolumeName = ''aws-iam-token'', TokenPath = ''token'',
     WebIdentityPatchConfig = Some ''arn:aws:iam::111122223333:role/s3-reader'',
     ContainerCredentialsPatchConfig = None\<rparr>"

definition exampleContainer :: Container where
  "exampleContainer = \<lparr>cName = ''app'', Env = [mkEnv ''AWS_ROLE_ARN'' ''mine''], VolumeMounts = [], cRest = []\<rparr>"

definition exampleModifier :: "(serviceAccountCache, FileConfig) Modifier" where
  "exampleModifier = NewModifier [1, 2, 3]
     [WithRegion ''us-west-2'', WithServiceAccountCache exampleCache,
      WithContainerCredentialsConfig (NewFileConfig ''aud'' ''/mnt'' ''vol'' ''tok'' ''http://169.254.170.23/v1/credentials'')]"

theorem addEnv_only_appends_witness:
  "\<exists>es. Env (fst (addEnvToContainer exampleModifier exampleContainer ''/t'' exampleConfig)) =
     mkEnv ''AWS_ROLE_ARN'' ''mine'' # es \<and> (\<forall>e \<in> set es. envName e \<noteq> ''AWS_ROLE_ARN'')"
  using addEnv_only_appends [OF surjective_pairing, of exampleModifier exampleContainer "''/t''" exampleConfig]
  by (auto simp: exampleContainer_def)

text \<open>
  C9. A container that is not skipped gets its credentials: if the user defined none of the
  method's own variables, the patched container has the role and the token file (web identity)
  or the credentials URI and the token file (container credentials) with the configured
  values, and mounts the token volume.
\<close>

theorem container_gets_credentials:
  assumes "c' = fst (patchContainer m cfg path c)" and "ContainersToSkip cfg (cName c) = None"
  shows "(\<forall>role. ContainerCredentialsPatchConfig cfg = None \<and> WebIdentityPatchConfig cfg = Some role \<and>
       \<not> defines_any c webIdentityKeys \<longrightarrow>
       {mkEnv ''AWS_ROLE_ARN'' role, mkEnv ''AWS_WEB_IDENTITY_TOKEN_FILE'' path} \<subseteq> set (Env c') \<and>
       mounts_volume c' cfg) \<and>
    (\<forall>cc. ContainerCredentialsPatchConfig cfg = Some cc \<and> WebIdentityPatchConfig cfg = None \<and>
       \<not> defines_any c containerCredentialsKeys \<longrightarrow>
       {mkEnv ''AWS_CONTAINER_CREDENTIALS_FULL_URI'' (FullUri cc),
        mkEnv ''AWS_CONTAINER_AUTHORIZATION_TOKEN_FILE'' path} \<subseteq> set (Env c') \<and> mounts_volume c' cfg)"
  using patched_credentials [OF assms(2), where m = m and path = path] by (auto simp: assms(1) satisfied_def credentialEnv_def env_key_defs)

theorem container_gets_credentials_witness:
  "mkEnv ''AWS_ROLE_ARN'' ''arn:aws:iam::111122223333:role/s3-reader'' \<in>
     set (Env (fst (patchContainer exampleModifier exampleConfig ''/t'' (exampleContainer\<lparr>Env := []\<rparr>))))"
  using container_gets_credentials [OF refl, where cfg = exampleConfig and m = exampleModifier
      and c = "exampleContainer\<lparr>Env := []\<rparr>" and path = "''/t''"]
  by (simp add: exampleConfig_def exampleContainer_def defines_any_def)

text \<open>
  C4. Reinvocation is harmless: whatever the pod is, applying the patch a second time to the pod
  that the first patch produced gives the same pod again, under the meaning RFC 6902 gives
  to the operations; the second pass reports a change only for the label of the container
  credentials, which it always sets.
\<close>

theorem patch_idempotent:
  assumes "rfc6902_add app" and "q = foldl app p (fst (getPodSpecPatch m p cfg))"
  shows "foldl app q (fst (getPodSpecPatch m q cfg)) = q \<and>
    (snd (getPodSpecPatch m q cfg) \<longleftrightarrow> ContainerCredentialsPatchConfig cfg \<noteq> None)"
  using apply_patch [OF assms(1)] assms(2) mutated_idem second_patch_unchanged by metis

definition examplePod :: Pod where
  "examplePod = \<lparr>podName = ''web'', GenerateName = [], podNamespace = ''ns'', Annotations = Map.empty,
     Labels = None, podServiceAccountName = ''sa'', NodeSelector = Map.empty, InitContainers = [],
     Containers = [exampleContainer], Volumes = None, podRest = []\<rparr>"

theorem patch_idempotent_witness:
  "\<exists>q. q = foldl apply_add examplePod (fst (getPodSpecPatch exampleModifier examplePod exampleConfig)) \<and>
     Volumes q = Some [tokenVolume exampleConfig] \<and>
     foldl apply_add q (fst (getPodSpecPatch exampleModifier q exampleConfig)) = q"
proof -
  have "Volumes (foldl apply_add examplePod (fst (getPodSpecPatch exampleModifier examplePod exampleConfig))) =
      Some [tokenVolume exampleConfig]"
    by (simp add: apply_patch [OF apply_add_rfc] mutated_def mutatedVolumes_def volumeExists_def examplePod_def)
  then show ?thesis
    using patch_idempotent [OF apply_add_rfc refl, of examplePod exampleModifier exampleConfig] by blast
qed

text \<open>
  C23. The list of skipped containers is honoured: a container (or init container) whose name is
  on the comma-separated list of the pod's annotation is in the patched pod as it was, and the
  patch neither adds, drops, renames nor reorders containers.
\<close>

theorem skip_list_honoured:
  assumes "rfc6902_add app" and "q = foldl app p (fst (getPodSpecPatch m p cfg))"
    and "ContainersToSkip cfg = snd (parsePodAnnotations m p e)"
    and "Annotations p (AnnotationDomain m @ ''/'' @ ''skip-containers'') = Some (Join COMMA names)"
    and "names \<noteq> []" and "list_all plain_field names" and "names \<noteq> [[]]"
  shows "map cName (Containers q) = map cName (Containers p) \<and>
    map cName (InitContainers q) = map cName (InitContainers p) \<and>
    (\<forall>i < length (Containers p). cName (Containers p ! i) \<in> set names \<longrightarrow> Containers q ! i = Containers p ! i) \<and>
    (\<forall>i < length (InitContainers p). cName (InitContainers p ! i) \<in> set names \<longrightarrow>
       InitContainers q ! i = InitContainers p ! i)"
proof -
  have q: "q = mutated m p cfg"
    using apply_patch [OF assms(1)] assms(2) by metis
  have "ContainersToSkip cfg n \<noteq> None" if "n \<in> set names" for n
    using skip_from_csv [of p "AnnotationDomain m" names n] that assms(3-7)
    by (simp add: parsePodAnnotations_def SkipContainersAnnotation_def)
  then have same: "fst (patchContainer m cfg path c) = c" if "cName c \<in> set names" for c path
    using that by (simp add: patchContainer_skip)
  show ?thesis
    by (simp add: q mutated_def mutatedContainers_def frame same comp_def)
qed

definition skippingPod :: Pod where
  "skippingPod = examplePod\<lparr>Annotations := [''eks.amazonaws.com/skip-containers'' \<mapsto> ''sidecar,app'']\<rparr>"

theorem skip_list_honoured_witness:
  "Containers (foldl apply_add skippingPod (fst (getPodSpecPatch exampleModifier skippingPod
     (exampleConfig\<lparr>ContainersToSkip := snd (parsePodAnnotations exampleModifier skippingPod 0)\<rparr>)))) ! 0 =
   exampleContainer"
proof -
  have "''sidecar,app'' = Join COMMA [''sidecar'', ''app'']" "list_all plain_field [''sidecar'', ''app'']"
    by (simp_all add: plain_field_def)
  then show ?thesis
    using skip_list_honoured [OF apply_add_rfc refl, of
        "exampleConfig\<lparr>ContainersToSkip := snd (parsePodAnnotations exampleModifier skippingPod 0)\<rparr>"
        exampleModifier skippingPod 0 "[''sidecar'', ''app'']"]
    by (simp add: skippingPod_def examplePod_def exampleContainer_def exampleModifier_def NewModifier_def
        WithRegion_def WithServiceAccountCache_def WithContainerCredentialsConfig_def)
qed

text \<open>
  C24. The \<open>changed\<close> flag of \<open>getPodSpecPatch\<close>, and with it the log. In web identity mode the flag is
  exact: it is set when and only when applying the patch changes the pod. With container
  credentials it is always set, also when the patch changes nothing. The log line says that the pod
  was mutated when and only when the flag is set.
\<close>

theorem changed_flag_exact:
  assumes "rfc6902_add app"
  shows "(snd (getPodSpecPatch m p cfg) \<longleftrightarrow>
      ContainerCredentialsPatchConfig cfg \<noteq> None \<or> foldl app p (fst (getPodSpecPatch m p cfg)) \<noteq> p) \<and>
    (prefix ''Pod was mutated. '' (mutationMessage p (Some (snd (getPodSpecPatch m p cfg)))) \<longleftrightarrow> snd (getPodSpecPatch m p cfg))"
proof
  have "mutated m p cfg = p \<longleftrightarrow> mutatedVolumes p cfg = Volumes p \<and>
      mutatedContainers m p cfg (Containers p) = Containers p \<and>
      mutatedContainers m p cfg (InitContainers p) = InitContainers p" if "ContainerCredentialsPatchConfig cfg = None"
    using that by (cases p) (auto simp: mutated_def mutatedLabels_def)
  moreover have "mutatedVolumes p cfg = Volumes p \<longleftrightarrow> volumeExists p cfg"
    by (auto simp: mutatedVolumes_def volumeExists_def split: option.splits)
  ultimately show "snd (getPodSpecPatch m p cfg) \<longleftrightarrow>
      ContainerCredentialsPatchConfig cfg \<noteq> None \<or> foldl app p (fst (getPodSpecPatch m p cfg)) \<noteq> p"
    unfolding apply_patch [OF assms] by (auto simp: getPodSpecPatch_eq)
  show "prefix ''Pod was mutated. '' (mutationMessage p (Some (snd (getPodSpecPatch m p cfg)))) \<longleftrightarrow> snd (getPodSpecPatch m p cfg)"
    by (cases "snd (getPodSpecPatch m p cfg)") (simp_all add: mutationMessage_def)
qed

theorem changed_flag_exact_witness:
  "foldl apply_add examplePod (fst (getPodSpecPatch exampleModifier examplePod exampleConfig)) \<noteq> examplePod \<and>
   prefix ''Pod was mutated. '' (mutationMessage examplePod (Some (snd (getPodSpecPatch exampleModifier examplePod exampleConfig))))"
proof -
  have "snd (getPodSpecPatch exampleModifier examplePod exampleConfig)"
    by (simp add: getPodSpecPatch_eq volumeExists_def examplePod_def)
  then show ?thesis
    using changed_flag_exact [OF apply_add_rfc, of exampleModifier examplePod exampleConfig]
    by (simp add: exampleConfig_def)
qed

text \<open>
  The path of the token file: for a mount path of ordinary elements it is the mount path, a
  slash and the token's name on Linux, and the same path with a drive letter and backslashes
  for a pod that selects Windows nodes by either of the two labels.
\<close>

lemma tokenFilePath_by_os:
  assumes "cfgMountPath cfg = CHR ''/'' # Join CHR ''/'' es" and "es \<noteq> []" and "list_all plain_elem es"
    and "plain_elem (TokenPath cfg)"
  shows "tokenFilePath pod cfg =
    (if NodeSelector pod ''beta.kubernetes.io/os'' = Some ''windows'' \<or> NodeSelector pod ''kubernetes.io/os'' = Some ''windows''
     then ''C:'' @ map (\<lambda>c. if c = CHR ''/'' then CHR 0x5C else c) (cfgMountPath cfg @ CHR ''/'' # TokenPath cfg)
     else cfgMountPath cfg @ CHR ''/'' # TokenPath cfg)"
  using PathJoin_plain [OF assms(2-4)] assms(1)
  by (simp add: tokenFilePath_def windows_pod_def ReplaceAll_def)

text \<open>
  C21. The lifetime annotation of a pod is honoured exactly when it is a decimal 64 bit integer
  (with an optional sign): then the lifetime is its value, raised to ten minutes if it is
  smaller; in every other case the lifetime of the service account stays in force.
\<close>

theorem pod_expiration_annotation:
  assumes "Annotations pod (AnnotationDomain m @ ''/'' @ ''token-expiration'') = Some s"
  shows "(\<forall>i. parses_as s i \<longrightarrow> sint (fst (parsePodAnnotations m pod e)) = max 600 i) \<and>
    ((\<nexists>i. parses_as s i) \<longrightarrow> fst (parsePodAnnotations m pod e) = e)"
proof (intro conjI allI impI)
  fix i assume i: "parses_as s i"
  then have "sint (word_of_int i :: int64) = i"
    by (intro sint_of_int64) (auto simp: parses_as_def)
  with assms parses_as_ParseInt [OF i] show "sint (fst (parsePodAnnotations m pod e)) = max 600 i"
    by (simp add: parsePodAnnotations_def TokenExpirationAnnotation_def ValidateMin_sint)
next
  assume "\<nexists>i. parses_as s i"
  with ParseInt_Inr_parses have "\<exists>err. ParseInt s = Inl err"
    by (metis sum.exhaust)
  with assms show "fst (parsePodAnnotations m pod e) = e"
    by (auto simp: parsePodAnnotations_def TokenExpirationAnnotation_def)
qed

theorem pod_expiration_annotation_witness:
  "sint (fst (parsePodAnnotations exampleModifier
     (examplePod\<lparr>Annotations := [''eks.amazonaws.com/token-expiration'' \<mapsto> ''-5'']\<rparr>) 3600)) = 600"
proof -
  have "parses_as ''-5'' (-5)"
    by code_simp
  then show ?thesis
    using pod_expiration_annotation [of "examplePod\<lparr>Annotations := [''eks.amazonaws.com/token-expiration'' \<mapsto> ''-5'']\<rparr>"
        exampleModifier "''-5''" 3600]
    by (simp add: exampleModifier_def NewModifier_def WithRegion_def WithServiceAccountCache_def
        WithContainerCredentialsConfig_def)
qed

end
