(* ===== verification/MutateProps.thy ===== *)
theory MutateProps
  imports Mutate PodProps FakeCache
begin

text \<open>
  Properties of \<open>buildPodPatchConfig\<close> and \<open>MutatePod\<close>, proved once over the interface of the
  service account cache (\<open>service_account_cache\<close>) and carried over to the real cache and to
  the fake by interpretation: no panic, the patch configuration is for exactly one
  credential method, the counters account for every pod, and the jitter keeps the token
  lifetime in its range.
\<close>

section \<open>The jitter\<close>

lemma reject_loop_in_range:
  assumes "reject_loop n mx draws = Ok (v, rest)" and "0 < sint n" and "list_all (\<lambda>d. 0 \<le> sint d) draws"
  shows "0 \<le> sint v \<and> sint v < sint n"
  using assms
proof (induction n mx draws rule: reject_loop.induct)
  case (2 n mx d ds)
  show ?case
  proof (cases "sint mx < sint d")
    case True
    with 2 show ?thesis by simp
  next
    case False
    with 2 have v: "v = word_of_int (sint d smod sint n)" and d: "0 \<le> sint d" by auto
    have "sint d smod sint n = sint d mod sint n"
      using d 2(3) by (simp add: signed_modulo_int_def sgn_if)
    then have "0 \<le> sint d smod sint n" and "sint d smod sint n < sint n"
      using 2(3) by simp_all
    moreover have "sint v = sint d smod sint n"
      unfolding v using calculation sint_int64_bounds(2) [of n] by (intro sint_of_int64) auto
    ultimately show ?thesis by simp
  qed
qed simp

lemma reject_loop_returns:
  "(\<exists>d \<in> set draws. sint d \<le> sint mx) \<Longrightarrow> \<exists>r. reject_loop n mx draws = Ok r"
  by (induction n mx draws rule: reject_loop.induct) auto

lemma reject_loop_no_panic: "reject_loop n mx draws \<noteq> Panic p"
  by (induction n mx draws rule: reject_loop.induct) auto

text \<open>The bound of the jitter is 7201, which is not a power of two.\<close>

definition jitterMax :: int64 where
  "jitterMax = 2 ^ 63 - 1 - (2 ^ 63) mod 7201"

lemma Int63n_jitter:
  "Int63n (DefaultTokenExpiration - DefaultMinTokenExpiration + 1) draws = reject_loop 7201 jitterMax draws"
  by (simp add: Int63n_def expiration_defs jitterMax_def)

lemma addJitter_other [simp]:
  "e \<noteq> DefaultTokenExpiration \<Longrightarrow> addJitterToDefaultToken m e = Ok (m, e)"
  by (simp add: addJitterToDefaultToken_def)

lemma addJitter_range:
  assumes "addJitterToDefaultToken m DefaultTokenExpiration = Ok (m', e)"
    and "list_all (\<lambda>d. 0 \<le> sint d) (rand m)"
  shows "sint DefaultMinTokenExpiration \<le> sint e \<and> sint e \<le> sint DefaultTokenExpiration"
proof -
  obtain v rest where v: "reject_loop 7201 jitterMax (rand m) = Ok (v, rest)"
    and e: "e = v + DefaultMinTokenExpiration"
    using assms(1) by (auto simp: addJitterToDefaultToken_def Int63n_jitter go_bind_eq_Ok)
  have r: "0 \<le> sint v" "sint v < 7201"
    using reject_loop_in_range [OF v _ assms(2)] by auto
  have "sint e = sint v + 79200"
    using sint_of_int64 [of "sint v + 79200"] r
    by (simp add: e DefaultMinTokenExpiration_def wi_hom_add [symmetric])
  with r show ?thesis
    by (simp add: DefaultMinTokenExpiration_def)
qed

lemma sint_jitterMax: "sint jitterMax = 9223372036854773205"
  by code_simp

lemma addJitter_returns:
  "(\<exists>d \<in> set (rand m). sint d \<le> sint jitterMax) \<Longrightarrow> \<exists>m' e'. addJitterToDefaultToken m e = Ok (m', e')"
  using reject_loop_returns [of "rand m" jitterMax 7201]
  by (fastforce simp: addJitterToDefaultToken_def Int63n_jitter)

lemma addJitter_default:
  "addJitterToDefaultToken m DefaultTokenExpiration =
     go_bind (reject_loop 7201 jitterMax (rand m)) (\<lambda>(v, draws). Ok (m\<lparr>rand := draws\<rparr>, v + 79200))"
  unfolding addJitterToDefaultToken_def Int63n_jitter by (simp add: DefaultMinTokenExpiration_def)

lemma addJitter_every_value:
  assumes "rand m = of_nat k # ds" and "k \<le> 7200"
  shows "addJitterToDefaultToken m DefaultTokenExpiration = Ok (m\<lparr>rand := ds\<rparr>, of_nat (79200 + k))"
proof -
  have "sint (of_nat k :: int64) = int k"
    using assms(2) by (intro sint_of_nat_small) simp
  then show ?thesis
    using assms
    by (simp add: addJitter_default sint_jitterMax signed_modulo_int_def add.commute)
qed

lemma addJitter_no_panic: "addJitterToDefaultToken m e \<noteq> Panic p"
  by (auto simp: addJitterToDefaultToken_def Int63n_jitter go_bind_eq_Panic reject_loop_no_panic)

lemma addJitter_frame [frame]:
  "addJitterToDefaultToken m e = Ok (m', e') \<Longrightarrow>
     Cache m' = Cache m \<and> ContainerCredentialsConfig m' = ContainerCredentialsConfig m \<and> Region m' = Region m"
  by (auto simp: addJitterToDefaultToken_def go_bind_eq_Ok split: if_splits)

section \<open>The interface of the cache\<close>

locale service_account_cache =
  fixes cm :: "'c cacheMethods" and inv :: "'c \<Rightarrow> bool"
  assumes get_inv: "inv c \<Longrightarrow> mGet cm c r = Ok (c', resp) \<Longrightarrow> inv c'"
    and get_no_panic: "mGet cm c r \<noteq> Panic p"
    and get_quiet: "\<not> RequestNotification r \<Longrightarrow> \<exists>resp. mGet cm c r = Ok (c, resp)"
    and get_missing: "mGet cm c r = Ok (c', resp) \<Longrightarrow> \<not> FoundInCache resp \<Longrightarrow> rRoleARN resp = []"
    and get_notifier: "mGet cm c r = Ok (c', resp) \<Longrightarrow> Notifier resp \<noteq> None \<Longrightarrow> RequestNotification r"
begin

text \<open>The configuration is for container credentials or for a web identity with a role, never both.\<close>

lemma finish_cases:
  assumes "finishWebIdentity m g pod resp = (g', cfg)"
  shows "(cfg = None \<and> rRoleARN resp = [] \<and> g' = g) \<or>
    (\<exists>c. cfg = Some c \<and> rRoleARN resp \<noteq> [] \<and> WebIdentityPatchConfig c = Some (rRoleARN resp) \<and>
       ContainerCredentialsPatchConfig c = None \<and>
       g' = g\<lparr>podCountStsWebIdentity := Suc (podCountStsWebIdentity g)\<rparr>)"
  using assms by (auto simp: finishWebIdentity_def parsePodAnnotations_def Let_def split: if_splits)

lemma resume_cases:
  assumes "buildResume cm m g pod w = Ok (m', g', cfg)"
  shows "(cfg = None \<and> (g' = g \<or> g' = countMissing g)) \<or>
    (\<exists>c r. cfg = Some c \<and> r \<noteq> [] \<and> WebIdentityPatchConfig c = Some r \<and>
       ContainerCredentialsPatchConfig c = None \<and>
       g' = g\<lparr>podCountStsWebIdentity := Suc (podCountStsWebIdentity g)\<rparr>)"
  using assms
  by (fastforce simp: buildResume_def go_bind_eq_Ok Let_def split: wake.splits option.splits if_splits prod.splits
           dest: finish_cases)

lemma start_cases:
  assumes "buildStart cm ccGet m g pod = Ok (m', g', r)"
  shows "(\<exists>c cc. r = Built (Some c) \<and> WebIdentityPatchConfig c = None \<and>
       ContainerCredentialsPatchConfig c = Some cc \<and>
       g' = g\<lparr>podCountContainerCredentials := Suc (podCountContainerCredentials g)\<rparr>) \<or>
    (\<exists>c a. r = Built (Some c) \<and> a \<noteq> [] \<and> WebIdentityPatchConfig c = Some a \<and>
       ContainerCredentialsPatchConfig c = None \<and>
       g' = g\<lparr>podCountStsWebIdentity := Suc (podCountStsWebIdentity g)\<rparr>) \<or>
    (r = Built None \<and> (g' = g \<or> g' = countMissing g)) \<or>
    ((\<exists>ch. r = Waiting ch) \<and> g' = g)"
proof -
  obtain k c where kc: "ContainerCredentialsConfig m = Some k" "Cache m = Some c"
    using assms by (auto simp: buildStart_def split: option.splits)
  show ?thesis
  proof (cases "ccGet k (podNamespace pod) (podServiceAccountName pod)")
    case (Some cc)
    with assms kc show ?thesis
      by (auto simp: buildStart_def go_bind_eq_Ok containerCredentialsConfig_def split: prod.splits)
  next
    case None
    define grace where "grace = (0 < sint (saLookupGraceTime m))"
    obtain c' resp where get: "mGet cm c (saRequest pod grace) = Ok (c', resp)"
      using assms kc None by (auto simp: buildStart_def go_bind_eq_Ok grace_def Let_def)
    show ?thesis
    proof (cases "\<not> FoundInCache resp \<and> grace")
      case True
      with assms kc None get show ?thesis by (auto simp: buildStart_def grace_def Let_def)
    next
      case False
      obtain g1 cfg where fin: "finishWebIdentity (m\<lparr>Cache := Some c'\<rparr>)
          (if \<not> FoundInCache resp then countMissing g else g) pod resp = (g1, cfg)"
        by fastforce
      have r: "r = Built cfg" "g' = g1"
        using assms kc None get False fin by (auto simp: buildStart_def grace_def [symmetric] Let_def)
      show ?thesis
        using finish_cases [OF fin] r get_missing [OF get] by (auto split: if_splits)
    qed
  qed
qed

lemma build_cases:
  assumes "buildPodPatchConfig cm ccGet wait m g pod = Ok (m', g', cfg)"
  obtains (direct) "buildStart cm ccGet m g pod = Ok (m', g', Built cfg)"
  | (waited) m1 ch c c' w where "buildStart cm ccGet m g pod = Ok (m1, g, Waiting ch)" "Cache m1 = Some c"
      "wait ch c = (c', w)" "buildResume cm (m1\<lparr>Cache := Some c'\<rparr>) g pod w = Ok (m', g', cfg)"
proof -
  obtain m1 g1 r where start: "buildStart cm ccGet m g pod = Ok (m1, g1, r)"
    using assms by (auto simp: buildPodPatchConfig_def go_bind_eq_Ok)
  show thesis
  proof (cases r)
    case (Built x)
    with assms start show thesis by (intro direct) (simp add: buildPodPatchConfig_def)
  next
    case (Waiting ch)
    with start_cases [OF start] have "g1 = g" by auto
    obtain c where "Cache m1 = Some c"
      using assms start Waiting by (cases "Cache m1") (auto simp: buildPodPatchConfig_def)
    moreover obtain c' w where "wait ch c = (c', w)" by fastforce
    ultimately have "Cache m1 = Some c" "wait ch c = (c', w)" .
    with assms start Waiting \<open>g1 = g\<close> show thesis
      by (intro waited) (auto simp: buildPodPatchConfig_def)
  qed
qed

lemma build_outcome:
  assumes "buildPodPatchConfig cm ccGet wait m g pod = Ok (m', g', cfg)"
  shows "(cfg = None \<and> (g' = g \<or> g' = countMissing g)) \<or>
    (\<exists>c cc. cfg = Some c \<and> WebIdentityPatchConfig c = None \<and> ContainerCredentialsPatchConfig c = Some cc \<and>
       g' = g\<lparr>podCountContainerCredentials := Suc (podCountContainerCredentials g)\<rparr>) \<or>
    (\<exists>c a. cfg = Some c \<and> a \<noteq> [] \<and> WebIdentityPatchConfig c = Some a \<and> ContainerCredentialsPatchConfig c = None \<and>
       g' = g\<lparr>podCountStsWebIdentity := Suc (podCountStsWebIdentity g)\<rparr>)"
  using assms
proof (cases rule: build_cases)
  case direct
  from start_cases [OF this] show ?thesis by auto
next
  case waited
  from resume_cases [OF waited(4)] show ?thesis by blast
qed

text \<open>Every pod that gets a configuration is counted once, under its method; no other pod is.\<close>

lemma build_counts:
  assumes "buildPodPatchConfig cm ccGet wait m g pod = Ok (m', g', cfg)"
  shows "podCountContainerCredentials g' + podCountStsWebIdentity g' =
      podCountContainerCredentials g + podCountStsWebIdentity g + (if cfg = None then 0 else 1) \<and>
    (missingSA g' = missingSA g \<or> missingSA g' = Suc (missingSA g) \<and> cfg = None)"
  using build_outcome [OF assms] by (elim disjE exE conjE) (simp_all add: countMissing_def)

lemma start_no_panic:
  assumes "Cache m = Some c" and "ContainerCredentialsConfig m = Some k"
  shows "buildStart cm ccGet m g pod \<noteq> Panic p"
  using assms
  by (auto simp: buildStart_def go_bind_eq_Panic get_no_panic addJitter_no_panic Let_def
           split: option.splits prod.splits if_splits)

lemma start_cache:
  "buildStart cm ccGet m g pod = Ok (m', g', r) \<Longrightarrow> Cache m' \<noteq> None"
  by (auto simp: buildStart_def go_bind_eq_Ok Let_def split: option.splits prod.splits if_splits
           dest!: addJitter_frame)

lemma build_no_panic:
  assumes "Cache m = Some c" and "ContainerCredentialsConfig m = Some k"
  shows "buildPodPatchConfig cm ccGet wait m g pod \<noteq> Panic p"
proof
  assume panic: "buildPodPatchConfig cm ccGet wait m g pod = Panic p"
  obtain m1 g1 r where start: "buildStart cm ccGet m g pod = Ok (m1, g1, r)"
    using panic start_no_panic [OF assms] by (auto simp: buildPodPatchConfig_def go_bind_eq_Panic)
  then show False
    using panic start_cache [OF start]
    by (cases r) (auto simp: buildPodPatchConfig_def buildResume_def go_bind_eq_Panic get_no_panic Let_def
             split: option.splits prod.splits wake.splits if_splits)
qed

lemma start_cc:
  assumes "buildStart cm ccGet m g pod = Ok (m', g', r)" and "ContainerCredentialsConfig m = Some k"
    and "ccGet k (podNamespace pod) (podServiceAccountName pod) = Some cc"
  shows "\<exists>skip regional e. r = Built (Some (containerCredentialsConfig cc skip regional e))"
proof -
  obtain c where "Cache m = Some c"
    using assms(1,2) by (cases "Cache m") (auto simp: buildStart_def)
  with assms show ?thesis
    by (auto simp: buildStart_def go_bind_eq_Ok split: prod.splits)
qed

lemma finish_web: "finishWebIdentity m g pod resp = (g', Some cfg) \<Longrightarrow> ContainerCredentialsPatchConfig cfg = None"
  using finish_cases [of m g pod resp g' "Some cfg"] by auto

lemma start_web:
  assumes "buildStart cm ccGet m g pod = Ok (m', g', Built (Some cfg))" and "ContainerCredentialsConfig m = Some k"
    and "ccGet k (podNamespace pod) (podServiceAccountName pod) = None"
  shows "ContainerCredentialsPatchConfig cfg = None"
proof -
  obtain c where "Cache m = Some c"
    using assms(1,2) by (cases "Cache m") (auto simp: buildStart_def)
  moreover define grace where "grace = (0 < sint (saLookupGraceTime m))"
  ultimately obtain c' resp where get: "mGet cm c (saRequest pod grace) = Ok (c', resp)"
    and c: "Cache m = Some c"
    using assms by (auto simp: buildStart_def go_bind_eq_Ok Let_def)
  obtain g1 cfg1 where fin: "finishWebIdentity (m\<lparr>Cache := Some c'\<rparr>)
      (if \<not> FoundInCache resp then countMissing g else g) pod resp = (g1, cfg1)"
    by fastforce
  have "cfg1 = Some cfg"
    using assms c get fin by (auto simp: buildStart_def grace_def [symmetric] Let_def split: if_splits)
  with fin show ?thesis by (simp add: finish_web)
qed

lemma build_method:
  assumes "buildPodPatchConfig cm ccGet wait m g pod = Ok (m', g', Some cfg)"
    and "ContainerCredentialsConfig m = Some k"
  shows "case ccGet k (podNamespace pod) (podServiceAccountName pod) of
      Some cc \<Rightarrow> \<exists>skip regional e. cfg = containerCredentialsConfig cc skip regional e
    | None \<Rightarrow> ContainerCredentialsPatchConfig cfg = None"
  using assms(1)
proof (cases rule: build_cases)
  case direct
  with start_cc [OF direct assms(2)] start_web [OF direct assms(2)] show ?thesis
    by (auto split: option.split)
next
  case (waited m1 ch c c' w)
  with start_cc [OF waited(1) assms(2)] resume_cases [OF waited(4)] show ?thesis
    by (fastforce split: option.split)
qed

text \<open>Without a grace period an unknown account is counted and left alone.\<close>

lemma build_listed:
  assumes "buildPodPatchConfig cm ccGet wait m g pod = Ok (m', g', cfg)" and "ContainerCredentialsConfig m = Some k"
    and "ccGet k (podNamespace pod) (podServiceAccountName pod) = Some cc"
  shows "\<exists>skip regional e. cfg = Some (containerCredentialsConfig cc skip regional e)"
  using assms(1)
proof (cases rule: build_cases)
  case direct
  from start_cc [OF direct assms(2,3)] show ?thesis by auto
next
  case (waited m1 ch c c' w)
  from start_cc [OF waited(1) assms(2,3)] show ?thesis by auto
qed

lemma build_unknown:
  assumes "Cache m = Some c" and "ContainerCredentialsConfig m = Some k"
    and "ccGet k (podNamespace pod) (podServiceAccountName pod) = None"
    and "sint (saLookupGraceTime m) \<le> 0"
    and "mGet cm c (saRequest pod False) = Ok (c, resp)" and "\<not> FoundInCache resp"
  shows "buildPodPatchConfig cm ccGet wait m g pod = Ok (m, countMissing g, None)"
  using assms get_missing [OF assms(5,6)]
  by (simp add: buildPodPatchConfig_def buildStart_def finishWebIdentity_def Let_def)

end

section \<open>The two caches\<close>

definition realCache :: "serviceAccountCache cacheMethods" where
  "realCache = \<lparr>mGet = Get, mGetCommonConfigurations = GetCommonConfigurations\<rparr>"

definition fakeMethods :: "FakeServiceAccountCache cacheMethods" where
  "fakeMethods = \<lparr>mGet = fakeCacheGet, mGetCommonConfigurations = fakeGetCommonConfigurations\<rparr>"

lemma response_of_missing: "\<not> FoundInCache (response_of (effective c r) (found_in c r) ch) \<Longrightarrow>
    rRoleARN (response_of (effective c r) (found_in c r) ch) = []"
  by (auto simp: response_of_def effective_def found_in_def fromEntry_def emptyResponse_def Let_def
           split: option.splits)

interpretation rc: service_account_cache realCache cache_inv
proof (unfold_locales, goal_cases)
  case (1 c r c' resp) then show ?case by (auto simp: realCache_def intro: Get_inv)
next
  case (2 c r p) then show ?case by (simp add: realCache_def Get_no_panic)
next
  case (3 r c) then show ?case by (simp add: realCache_def Get_quiet)
next
  case (4 c r c' resp) then show ?case
    by (auto simp: realCache_def response_of_missing elim!: Get_Ok)
next
  case (5 c r c' resp) then show ?case
    by (auto simp: realCache_def response_of_def fromEntry_def Let_def split: option.splits
             elim!: Get_Ok dest!: getSA_cases(4))
qed

interpretation fcm: service_account_cache fakeMethods "\<lambda>_. True"
proof (unfold_locales, goal_cases)
  case (4 c r c' resp) then show ?case
    by (auto simp: fakeMethods_def fakeCacheGet_def emptyResponse_def split: option.splits)
qed (auto simp: fakeMethods_def fakeCacheGet_def emptyResponse_def split: option.splits)

section \<open>A worked example\<close>

lemma example_sel [simp]:
  "Cache exampleModifier = Some exampleCache" "Region exampleModifier = ''us-west-2''"
  "ContainerCredentialsConfig exampleModifier =
     Some (NewFileConfig ''aud'' ''/mnt'' ''vol'' ''tok'' ''http://169.254.170.23/v1/credentials'')"
  "saLookupGraceTime exampleModifier = 0" "rand exampleModifier = [1, 2, 3]"
  "AnnotationDomain exampleModifier = ''eks.amazonaws.com''"
  "MountPath exampleModifier = ''/var/run/secrets/eks.amazonaws.com/serviceaccount''"
  "volName exampleModifier = ''aws-iam-token''" "tokenName exampleModifier = ''token''"
  by (simp_all add: exampleModifier_def NewModifier_def WithRegion_def WithServiceAccountCache_def
        WithContainerCredentialsConfig_def)

definition annotatedAccount :: ServiceAccount where
  "annotatedAccount = \<lparr>saName = ''sa'', saNamespace = ''ns'',
     saAnnotations = [''eks.amazonaws.com/role-arn'' \<mapsto> ''arn:aws:iam::111122223333:role/s3-reader'']\<rparr>"

definition knownCache :: serviceAccountCache where
  "knownCache = exampleCache\<lparr>saCache := [''ns/sa'' \<mapsto> exampleEntry]\<rparr>"

definition zeroMetrics :: podMetrics where
  "zeroMetrics = \<lparr>podCountContainerCredentials = 0, podCountStsWebIdentity = 0, missingSA = 0\<rparr>"

lemma example_identities [simp]: "fcGet (NewFileConfig a b c d e) ns n = None"
  by (simp add: fcGet_def getCacheItem_def NewFileConfig_def)

lemma example_build:
  "buildPodPatchConfig realCache fcGet wait (exampleModifier\<lparr>Cache := Some knownCache\<rparr>) zeroMetrics examplePod =
     Ok (exampleModifier\<lparr>Cache := Some knownCache\<rparr>, zeroMetrics\<lparr>podCountStsWebIdentity := 1\<rparr>,
         Some exampleConfig)"
proof -
  have "Get knownCache (saRequest examplePod False) =
      Ok (knownCache, fromEntry exampleEntry (emptyResponse\<lparr>FoundInCache := True\<rparr>))"
    by (simp add: Get_quiet saRequest_def response_of_def effective_def found_in_def knownCache_def
        examplePod_def CacheKey_def cache_key_def exampleEntry_def emptyResponse_def)
  moreover have "parsePodAnnotations (exampleModifier\<lparr>Cache := Some knownCache\<rparr>) examplePod e = (e, Map.empty)" for e
    by (simp add: parsePodAnnotations_def getContainersToSkip_def examplePod_def)
  ultimately show ?thesis
    by (simp add: buildPodPatchConfig_def buildStart_def realCache_def finishWebIdentity_def fromEntry_def
        exampleEntry_def emptyResponse_def exampleConfig_def zeroMetrics_def)
qed

section \<open>Claims\<close>

text \<open>
  C22. The jitter: as soon as the random source, which delivers non-negative 63 bit numbers, delivers
  one below the largest multiple of 7201 that fits, the rejection loop returns; the lifetime then
  is between 22 and 24 hours if it was the default, and untouched otherwise, without a draw. Every
  lifetime of the range can come out: a draw of \<open>k\<close> gives 22 hours plus \<open>k\<close> seconds.
\<close>

theorem jitter_returns_in_range:
  fixes m :: "('c, 'k) Modifier"
  assumes "list_all (\<lambda>d. 0 \<le> sint d) (rand m)" and "d \<in> set (rand m)" and "sint d \<le> 9223372036854773205"
  shows "(\<exists>m' e'. addJitterToDefaultToken m e = Ok (m', e') \<and>
      (if e = DefaultTokenExpiration then 79200 \<le> sint e' \<and> sint e' \<le> 86400 else e' = e \<and> m' = m)) \<and>
    (\<forall>k ds. k \<le> 7200 \<longrightarrow> addJitterToDefaultToken (m\<lparr>rand := of_nat k # ds\<rparr>) DefaultTokenExpiration =
       Ok (m\<lparr>rand := ds\<rparr>, of_nat (79200 + k)))"
proof (intro conjI allI impI)
  obtain m' e' where run: "addJitterToDefaultToken m e = Ok (m', e')"
    using addJitter_returns [of m e] assms(2,3) by (auto simp: sint_jitterMax)
  then have "if e = DefaultTokenExpiration then 79200 \<le> sint e' \<and> sint e' \<le> 86400 else e' = e \<and> m' = m"
    using addJitter_range [of m m' e'] assms(1) by (auto simp: DefaultMinTokenExpiration_def)
  with run show "\<exists>m' e'. addJitterToDefaultToken m e = Ok (m', e') \<and>
      (if e = DefaultTokenExpiration then 79200 \<le> sint e' \<and> sint e' \<le> 86400 else e' = e \<and> m' = m)" by blast
next
  fix k :: nat and ds
  assume "k \<le> 7200"
  then show "addJitterToDefaultToken (m\<lparr>rand := of_nat k # ds\<rparr>) DefaultTokenExpiration =
      Ok (m\<lparr>rand := ds\<rparr>, of_nat (79200 + k))"
    using addJitter_every_value [of "m\<lparr>rand := of_nat k # ds\<rparr>" k ds] by simp
qed

theorem jitter_returns_in_range_witness:
  "(\<exists>m' e'. addJitterToDefaultToken exampleModifier DefaultTokenExpiration = Ok (m', e') \<and>
      79200 \<le> sint e' \<and> sint e' \<le> 86400) \<and>
   addJitterToDefaultToken (exampleModifier\<lparr>rand := [7200]\<rparr>) DefaultTokenExpiration =
     Ok (exampleModifier\<lparr>rand := []\<rparr>, 86400)"
proof -
  have "list_all (\<lambda>d. 0 \<le> sint d) (rand exampleModifier)" "2 \<in> set (rand exampleModifier)"
    by simp_all
  moreover have "sint (2 :: int64) \<le> 9223372036854773205"
    by code_simp
  ultimately have all: "(\<exists>m' e'. addJitterToDefaultToken exampleModifier DefaultTokenExpiration = Ok (m', e') \<and>
      (if DefaultTokenExpiration = DefaultTokenExpiration then 79200 \<le> sint e' \<and> sint e' \<le> 86400
       else e' = DefaultTokenExpiration \<and> m' = exampleModifier)) \<and>
    (\<forall>k ds. k \<le> 7200 \<longrightarrow> addJitterToDefaultToken (exampleModifier\<lparr>rand := of_nat k # ds\<rparr>) DefaultTokenExpiration =
       Ok (exampleModifier\<lparr>rand := ds\<rparr>, of_nat (79200 + k)))"
    by (rule jitter_returns_in_range)
  then show ?thesis
    using all [THEN conjunct2, rule_format, of 7200 "[]"] by simp
qed


text \<open>
  C10. A pod is configured for at most one method: either for container credentials, with the
  settings of the configuration file, or for a web identity with a role that is not empty,
  never for both and never with neither. Container credentials take precedence: if the file lists
  the pod's account, the pod is configured for them, whatever the cache holds.
\<close>

theorem one_credential_method:
  assumes "buildPodPatchConfig realCache fcGet wait m g pod = Ok (m', g', result)"
    and "ContainerCredentialsConfig m = Some k"
  shows "if \<lparr>Namespace = podNamespace pod, ServiceAccountName = podServiceAccountName pod\<rparr> \<in> identities_of k
    then \<exists>cfg. result = Some cfg \<and> ContainerCredentialsPatchConfig cfg = Some (fc_settings k) \<and>
         WebIdentityPatchConfig cfg = None \<and> cfgMountPath cfg = mountPath k \<and> VolumeName cfg = volumeName k
    else \<forall>cfg. result = Some cfg \<longrightarrow>
         ContainerCredentialsPatchConfig cfg = None \<and> (\<exists>role. role \<noteq> [] \<and> WebIdentityPatchConfig cfg = Some role)"
proof (cases "\<lparr>Namespace = podNamespace pod, ServiceAccountName = podServiceAccountName pod\<rparr> \<in> identities_of k")
  case True
  then show ?thesis
    using rc.build_listed [OF assms] by (auto simp: fc.get_eq containerCredentialsConfig_def fc_settings_def)
next
  case False
  then show ?thesis
    using rc.build_method [OF _ assms(2), of fcGet wait g pod m' g'] rc.build_outcome [OF assms(1)] assms(1)
    by (auto simp: fc.get_eq split: if_splits)
qed

definition listedCredentials :: FileConfig where
  \<open>listedCredentials = fst (Load (NewFileConfig ''aud'' ''/mnt'' ''vol'' ''tok'' ''http://169.254.170.23/v1/credentials'')
     ''{"identities":[{"namespace":"ns","serviceAccount":"sa"}]}'')\<close>

lemma listed_identities: "identities_of listedCredentials = {\<lparr>Namespace = ''ns'', ServiceAccountName = ''sa''\<rparr>}"
proof -
  have \<open>unmarshal_Config ''{"identities":[{"namespace":"ns","serviceAccount":"sa"}]}'' =
      Inr \<lparr>Identities = [\<lparr>Namespace = ''ns'', ServiceAccountName = ''sa''\<rparr>]\<rparr>\<close>
    by code_simp
  then show ?thesis
    by (simp add: listedCredentials_def Load_def identities_of_def getCacheItem_def build_cache_def)
qed

text \<open>The example pod again, with its account listed for container credentials.\<close>

lemma listed_build:
  "\<exists>m' g' result. buildPodPatchConfig realCache fcGet wait
      (exampleModifier\<lparr>Cache := Some knownCache, ContainerCredentialsConfig := Some listedCredentials\<rparr>) zeroMetrics examplePod =
    Ok (m', g', result)"
proof -
  have "GetCommonConfigurations knownCache ''sa'' ''ns'' = (True, 3600)"
    by (simp add: GetCommonConfigurations_def getSA_def knownCache_def CacheKey_def cache_key_def exampleEntry_def)
  moreover have "fcGet listedCredentials ''ns'' ''sa'' = Some (fc_settings listedCredentials)"
    by (simp add: fc.get_eq listed_identities)
  ultimately show ?thesis
    by (simp add: buildPodPatchConfig_def buildStart_def realCache_def examplePod_def parsePodAnnotations_def
        getContainersToSkip_def addJitterToDefaultToken_def DefaultTokenExpiration_def)
qed

theorem one_credential_method_witness:
  "(\<exists>m' g' cfg. buildPodPatchConfig realCache fcGet (\<lambda>_ c. (c, TimedOut)) (exampleModifier\<lparr>Cache := Some knownCache,
        ContainerCredentialsConfig := Some listedCredentials\<rparr>) zeroMetrics examplePod = Ok (m', g', Some cfg) \<and>
      ContainerCredentialsPatchConfig cfg = Some (fc_settings listedCredentials) \<and> WebIdentityPatchConfig cfg = None) \<and>
   (\<exists>m' g' cfg. buildPodPatchConfig realCache fcGet (\<lambda>_ c. (c, TimedOut)) (exampleModifier\<lparr>Cache := Some knownCache\<rparr>)
        zeroMetrics examplePod = Ok (m', g', Some cfg) \<and>
      ContainerCredentialsPatchConfig cfg = None \<and> (\<exists>role. role \<noteq> [] \<and> WebIdentityPatchConfig cfg = Some role))"
proof
  let ?m = "exampleModifier\<lparr>Cache := Some knownCache, ContainerCredentialsConfig := Some listedCredentials\<rparr>"
  obtain m' g' result where run: "buildPodPatchConfig realCache fcGet (\<lambda>_ c. (c, TimedOut)) ?m zeroMetrics examplePod = Ok (m', g', result)"
    using listed_build by blast
  have "\<lparr>Namespace = podNamespace examplePod, ServiceAccountName = podServiceAccountName examplePod\<rparr> \<in> identities_of listedCredentials"
    by (simp add: listed_identities examplePod_def)
  then show "\<exists>m' g' cfg. buildPodPatchConfig realCache fcGet (\<lambda>_ c. (c, TimedOut)) ?m zeroMetrics examplePod = Ok (m', g', Some cfg) \<and>
      ContainerCredentialsPatchConfig cfg = Some (fc_settings listedCredentials) \<and> WebIdentityPatchConfig cfg = None"
    using one_credential_method [OF run] run by auto
next
  have "\<lparr>Namespace = podNamespace examplePod, ServiceAccountName = podServiceAccountName examplePod\<rparr> \<notin>
      identities_of (NewFileConfig ''aud'' ''/mnt'' ''vol'' ''tok'' ''http://169.254.170.23/v1/credentials'')"
    by (simp add: identities_of_def getCacheItem_def NewFileConfig_def)
  then show "\<exists>m' g' cfg. buildPodPatchConfig realCache fcGet (\<lambda>_ c. (c, TimedOut)) (exampleModifier\<lparr>Cache := Some knownCache\<rparr>)
        zeroMetrics examplePod = Ok (m', g', Some cfg) \<and>
      ContainerCredentialsPatchConfig cfg = None \<and> (\<exists>role. role \<noteq> [] \<and> WebIdentityPatchConfig cfg = Some role)"
    using one_credential_method [OF example_build [of "\<lambda>_ c. (c, TimedOut)"]] example_build [of "\<lambda>_ c. (c, TimedOut)"]
    by simp
qed

text \<open>
  C13. The counters account for every pod: a pod that gets a configuration raises exactly one of
  the two method counters, by one and the one of its method; a pod that gets none leaves both
  alone and raises the counter of missing accounts at most once.
\<close>

theorem counters_account_for_pods:
  assumes "buildPodPatchConfig realCache fcGet wait m g pod = Ok (m', g', cfg)"
  shows "podCountContainerCredentials g' + podCountStsWebIdentity g' =
      podCountContainerCredentials g + podCountStsWebIdentity g + (if cfg = None then 0 else 1) \<and>
    (case cfg of
       None \<Rightarrow> missingSA g' \<in> {missingSA g, Suc (missingSA g)}
     | Some c \<Rightarrow> missingSA g' = missingSA g \<and>
         (podCountContainerCredentials g' = Suc (podCountContainerCredentials g) \<longleftrightarrow>
            ContainerCredentialsPatchConfig c \<noteq> None))"
  using rc.build_counts [OF assms] rc.build_outcome [OF assms]
  by (elim disjE exE conjE) (auto simp: countMissing_def)

theorem counters_account_for_pods_witness:
  "\<exists>m' g'. buildPodPatchConfig realCache fcGet (\<lambda>_ c. (c, TimedOut)) (exampleModifier\<lparr>Cache := Some knownCache\<rparr>)
      zeroMetrics examplePod = Ok (m', g', Some exampleConfig) \<and>
    podCountContainerCredentials g' + podCountStsWebIdentity g' = 1 \<and> missingSA g' = 0"
  using counters_account_for_pods [OF example_build [of "\<lambda>_ c. (c, TimedOut)"]] example_build
  by (fastforce simp: zeroMetrics_def)

text \<open>
  Without a grace period a pod of an unknown account is left alone at once: no configuration, no
  wait, no change of the cache, and the counter of missing accounts goes up by one.
\<close>

lemma unknown_account_not_mutated:
  assumes "Cache m = Some c" and "ContainerCredentialsConfig m = Some k"
    and "\<lparr>Namespace = podNamespace pod, ServiceAccountName = podServiceAccountName pod\<rparr> \<notin> identities_of k"
    and "sint (saLookupGraceTime m) \<le> 0"
    and "saCache c (cache_key (podNamespace pod) (podServiceAccountName pod)) = None"
    and "cm_lookup c (saRequest pod False) = None"
  shows "buildPodPatchConfig realCache fcGet wait m g pod = Ok (m, countMissing g, None)"
proof (rule rc.build_unknown [OF assms(1,2) _ assms(4)])
  show "mGet realCache c (saRequest pod False) = Ok (c, response_of None False None)"
    using assms(5,6)
    by (simp add: realCache_def Get_quiet effective_def found_in_def) (simp add: saRequest_def CacheKey_def
        Get_quiet effective_def found_in_def)
qed (use assms(3) in \<open>simp_all add: fc.get_eq response_of_def emptyResponse_def\<close>)

end
