(* ===== verification/AdmissionProps.thy ===== *)
theory AdmissionProps
  imports MutateProps
begin

text \<open>
  Properties of \<open>MutatePod\<close>: which responses it gives, that it never panics once the modifier
  has its cache and its configuration, when it returns, that the namespace comes from the
  request and not from the object, and the path of an account from the informer to the patch.
\<close>

section \<open>The pod of a review\<close>

definition reviewed_pod :: "codecs \<Rightarrow> AdmissionReview option \<Rightarrow> Pod option" where
  "reviewed_pod codec ar =
     (case ar of
        None \<Rightarrow> None
      | Some review \<Rightarrow>
          (case arRequest review of
             None \<Rightarrow> None
           | Some req \<Rightarrow>
               (case unmarshalPod codec (ObjectRaw req) of
                  Inl err \<Rightarrow> None
                | Inr pod \<Rightarrow> Some (pod\<lparr>podNamespace := arNamespace req\<rparr>))))"

definition patch_response :: "codecs \<Rightarrow> ('c, 'k) Modifier \<Rightarrow> Pod \<Rightarrow> podPatchConfig option \<Rightarrow> AdmissionResponse" where
  "patch_response codec m pod cfg =
     (case cfg of
        None \<Rightarrow> allowAll
      | Some c \<Rightarrow>
          (case marshalPatch codec (fst (getPodSpecPatch m pod c)) of
             Inl err \<Rightarrow> denyWith err
           | Inr b \<Rightarrow> allowAll\<lparr>Patch := Some b, PatchType := Some ''JSONPatch''\<rparr>))"

lemma MutatePod_bad:
  "reviewed_pod codec ar = None \<Longrightarrow> \<exists>msg. MutatePod codec cm ccGet wait m g ar = Ok (m, g, denyWith msg)"
  by (auto simp: MutatePod_def reviewed_pod_def split: option.splits sum.splits)

lemma MutatePod_pod:
  assumes "reviewed_pod codec ar = Some pod"
  shows "MutatePod codec cm ccGet wait m g ar =
    go_bind (buildPodPatchConfig cm ccGet wait m g pod) (\<lambda>(m', g', cfg). Ok (m', g', patch_response codec m' pod cfg))"
proof -
  obtain review req raw where ar: "ar = Some review" "arRequest review = Some req"
    "unmarshalPod codec (ObjectRaw req) = Inr raw" "pod = raw\<lparr>podNamespace := arNamespace req\<rparr>"
    using assms by (auto simp: reviewed_pod_def split: option.splits sum.splits)
  show ?thesis
    by (cases "buildPodPatchConfig cm ccGet wait m g pod")
       (auto simp: MutatePod_def ar patch_response_def split: option.split sum.split)
qed

lemma MutatePod_Ok:
  assumes "MutatePod codec cm ccGet wait m g ar = Ok (m', g', resp)"
  obtains (bad) msg where "reviewed_pod codec ar = None" "m' = m" "g' = g" "resp = denyWith msg"
  | (pod) pod cfg where "reviewed_pod codec ar = Some pod"
      "buildPodPatchConfig cm ccGet wait m g pod = Ok (m', g', cfg)" "resp = patch_response codec m' pod cfg"
proof (cases "reviewed_pod codec ar")
  case None
  with MutatePod_bad [OF None, of cm ccGet wait m g] assms bad show thesis by auto
next
  case (Some pod)
  with assms pod show thesis by (auto simp: MutatePod_pod go_bind_eq_Ok)
qed

section \<open>Returning\<close>

lemma start_returns:
  assumes "Cache m = Some c" and "ContainerCredentialsConfig m = Some k"
    and "\<exists>d \<in> set (rand m). sint d \<le> sint jitterMax"
    and "sint (saLookupGraceTime m) \<le> 0 \<or> length (fetchRequests (notifs c)) < fetchCap (notifs c)"
  shows "\<exists>r. buildStart realCache ccGet m g pod = Ok r"
proof (cases "ccGet k (podNamespace pod) (podServiceAccountName pod)")
  case (Some cc)
  obtain regional common skip e where
    "mGetCommonConfigurations realCache c (podServiceAccountName pod) (podNamespace pod) = (regional, common)"
    "parsePodAnnotations m pod common = (e, skip)"
    by (metis surj_pair)
  moreover obtain m' e' where "addJitterToDefaultToken m e = Ok (m', e')"
    using addJitter_returns [OF assms(3)] by blast
  ultimately show ?thesis
    using assms(1,2) Some by (simp add: buildStart_def)
next
  case None
  define grace where "grace = (0 < sint (saLookupGraceTime m))"
  obtain c' resp where "Get c (saRequest pod grace) = Ok (c', resp)"
    using Get_returns [of c "saRequest pod grace"] assms(4) by (auto simp: saRequest_def grace_def)
  then show ?thesis
    using assms(1,2) None by (auto simp: buildStart_def realCache_def grace_def [symmetric] Let_def split: prod.split)
qed

lemma resume_returns: "Cache m = Some c \<Longrightarrow> \<exists>r. buildResume realCache m g pod w = Ok r"
  using Get_quiet [of "saRequest pod False" c]
  by (cases w) (auto simp: buildResume_def realCache_def saRequest_def Let_def split: prod.split)

lemma build_returns:
  assumes "Cache m = Some c" and "ContainerCredentialsConfig m = Some k"
    and "\<exists>d \<in> set (rand m). sint d \<le> sint jitterMax"
    and "sint (saLookupGraceTime m) \<le> 0 \<or> length (fetchRequests (notifs c)) < fetchCap (notifs c)"
  shows "\<exists>r. buildPodPatchConfig realCache ccGet wait m g pod = Ok r"
proof -
  obtain m1 g1 r where start: "buildStart realCache ccGet m g pod = Ok (m1, g1, r)"
    using start_returns [OF assms] by (metis surj_pair)
  obtain c1 where c1: "Cache m1 = Some c1"
    using rc.start_cache [OF start] by blast
  show ?thesis
  proof (cases r)
    case (Waiting ch)
    obtain c' w where "wait ch c1 = (c', w)" by fastforce
    with start Waiting c1 resume_returns [of "m1\<lparr>Cache := Some c'\<rparr>" c' g1 pod w] show ?thesis
      by (simp add: buildPodPatchConfig_def)
  qed (simp add: buildPodPatchConfig_def start)
qed

section \<open>Accounts in the annotation cache\<close>

definition webIdentityConfig :: "('c, 'k) Modifier \<Rightarrow> Pod \<Rightarrow> Entry \<Rightarrow> podPatchConfig" where
  "webIdentityConfig m pod e =
     (let (tokenExpiration, containersToSkip) = parsePodAnnotations m pod (eTokenExpiration e)
      in \<lparr>ContainersToSkip = containersToSkip, TokenExpiration = tokenExpiration,
          UseRegionalSTS = eUseRegionalSTS e, Audience = eAudience e,
          cfgMountPath = MountPath m, VolumeName = volName m, TokenPath = tokenName m,
          WebIdentityPatchConfig = Some (eRoleARN e), ContainerCredentialsPatchConfig = None\<rparr>)"

lemma webIdentityConfig_Cache [simp]: "webIdentityConfig (m\<lparr>Cache := x\<rparr>) pod e = webIdentityConfig m pod e"
  by (simp add: webIdentityConfig_def parsePodAnnotations_def)

lemma Get_annotated:
  assumes "saCache c (CacheKey req) = Some e" and "eRoleARN e \<noteq> []"
  shows "Get c req = Ok (c, fromEntry e (emptyResponse\<lparr>FoundInCache := True\<rparr>))"
  using assms by (simp add: Get_def getSA_found Let_def emptyResponse_def fromEntry_def)

lemma finish_entry:
  assumes "eRoleARN e \<noteq> []"
  shows "finishWebIdentity m g pod (fromEntry e r) =
    (g\<lparr>podCountStsWebIdentity := Suc (podCountStsWebIdentity g)\<rparr>, Some (webIdentityConfig m pod e))"
  using assms by (simp add: finishWebIdentity_def webIdentityConfig_def fromEntry_def split: prod.split)

lemma build_annotated:
  assumes "Cache m = Some c" and "ContainerCredentialsConfig m = Some k"
    and "ccGet k (podNamespace pod) (podServiceAccountName pod) = None"
    and "saCache c (cache_key (podNamespace pod) (podServiceAccountName pod)) = Some e" and "eRoleARN e \<noteq> []"
  shows "buildPodPatchConfig realCache ccGet wait m g pod =
    Ok (m, g\<lparr>podCountStsWebIdentity := Suc (podCountStsWebIdentity g)\<rparr>, Some (webIdentityConfig m pod e))"
proof -
  have "Get c (saRequest pod b) = Ok (c, fromEntry e (emptyResponse\<lparr>FoundInCache := True\<rparr>))" for b
    by (rule Get_annotated) (simp_all add: assms(4,5) CacheKey_def saRequest_def)
  moreover have "m\<lparr>Cache := Some c\<rparr> = m"
    using assms(1) by simp
  moreover have "FoundInCache (fromEntry e (emptyResponse\<lparr>FoundInCache := True\<rparr>))"
    by (simp add: fromEntry_def)
  ultimately show ?thesis
    using assms(1-3) by (simp add: buildPodPatchConfig_def buildStart_def realCache_def finish_entry [OF assms(5)] Let_def)
qed

lemma resume_annotated:
  assumes "Cache m = Some c"
    and "saCache c (cache_key (podNamespace pod) (podServiceAccountName pod)) = Some e" and "eRoleARN e \<noteq> []"
  shows "buildResume realCache m g pod Notified =
    Ok (m, g\<lparr>podCountStsWebIdentity := Suc (podCountStsWebIdentity g)\<rparr>, Some (webIdentityConfig m pod e))"
proof -
  have "Get c (saRequest pod False) = Ok (c, fromEntry e (emptyResponse\<lparr>FoundInCache := True\<rparr>))"
    by (rule Get_annotated) (simp_all add: assms CacheKey_def saRequest_def)
  moreover have "FoundInCache (fromEntry e (emptyResponse\<lparr>FoundInCache := True\<rparr>))"
    by (simp add: fromEntry_def)
  ultimately show ?thesis
    using assms(1) by (simp add: buildResume_def realCache_def finish_entry [OF assms(3)] Let_def)
qed

lemma resume_unknown:
  assumes "Cache m = Some c" and "\<not> found_in c (saRequest pod False)"
  shows "buildResume realCache m g pod Notified = Ok (m, countMissing g, None)"
  using assms Get_quiet [of "saRequest pod False" c]
  by (simp add: buildResume_def realCache_def saRequest_def found_in_def effective_def response_of_def emptyResponse_def)

section \<open>The grace period\<close>

text \<open>
  A pod whose account is not known yet waits on the channel the lookup registered; what happens then
  depends on how the wait ends and on the cache at that time.
\<close>

lemma grace_outcomes:
  assumes "Cache m = Some c" and "ContainerCredentialsConfig m = Some k"
    and "\<lparr>Namespace = podNamespace pod, ServiceAccountName = podServiceAccountName pod\<rparr> \<notin> identities_of k"
    and "0 < sint (saLookupGraceTime m)" and "\<not> found_in c (saRequest pod True)"
    and "length (fetchRequests (notifs c)) < fetchCap (notifs c)"
  shows "\<exists>ch c1. Get c (saRequest pod True) = Ok (c1, response_of None False (Some ch)) \<and>
      handlers (notifs c1) (cache_key (podNamespace pod) (podServiceAccountName pod)) = Some ch"
    and "buildPodPatchConfig realCache fcGet (\<lambda>_ _. (c2, TimedOut)) m g pod = Ok (m\<lparr>Cache := Some c2\<rparr>, countMissing g, None)"
    and "saCache c2 (cache_key (podNamespace pod) (podServiceAccountName pod)) = Some e \<Longrightarrow> eRoleARN e \<noteq> [] \<Longrightarrow>
      buildPodPatchConfig realCache fcGet (\<lambda>_ _. (c2, Notified)) m g pod =
        Ok (m\<lparr>Cache := Some c2\<rparr>, g\<lparr>podCountStsWebIdentity := Suc (podCountStsWebIdentity g)\<rparr>, Some (webIdentityConfig m pod e))"
    and "\<not> found_in c2 (saRequest pod False) \<Longrightarrow>
      buildPodPatchConfig realCache fcGet (\<lambda>_ _. (c2, Notified)) m g pod = Ok (m\<lparr>Cache := Some c2\<rparr>, countMissing g, None)"
proof -
  obtain c1 resp where get: "Get c (saRequest pod True) = Ok (c1, resp)"
    using Get_returns [of c "saRequest pod True"] assms(6) by blast
  obtain entry x where sa: "getSA c (saRequest pod True) = Ok (c1, entry, x)"
    and "resp = response_of None False x"
    using get assms(5) by (elim Get_Ok) (auto simp: found_in_def effective_def)
  moreover obtain ch where "x = Some ch"
    using getSA_cases(4) [OF sa] assms(5) by (auto simp: found_in_def saRequest_def)
  ultimately have resp: "resp = response_of None False (Some ch)" and ch: "getSA c (saRequest pod True) = Ok (c1, entry, Some ch)"
    by simp_all
  have reg: "handlers (notifs c1) (CacheKey (saRequest pod True)) = Some ch"
    using ch assms(5) by (auto simp: getSA_def go_bind_eq_Ok found_in_def nt.register_waiting split: if_splits)
  have "buildStart realCache fcGet m g pod = Ok (m\<lparr>Cache := Some c1\<rparr>, g, Waiting (Some ch))"
    using assms(1-4) get resp
    by (simp add: buildStart_def realCache_def fc.get_eq response_of_def emptyResponse_def)
  then have build: "buildPodPatchConfig realCache fcGet (\<lambda>_ _. (c2, w)) m g pod =
      buildResume realCache (m\<lparr>Cache := Some c2\<rparr>) g pod w" for w
    by (simp add: buildPodPatchConfig_def)
  show "\<exists>ch c1. Get c (saRequest pod True) = Ok (c1, response_of None False (Some ch)) \<and>
      handlers (notifs c1) (cache_key (podNamespace pod) (podServiceAccountName pod)) = Some ch"
    using get resp reg by (auto simp: CacheKey_def saRequest_def)
  show "buildPodPatchConfig realCache fcGet (\<lambda>_ _. (c2, TimedOut)) m g pod = Ok (m\<lparr>Cache := Some c2\<rparr>, countMissing g, None)"
    by (simp add: build buildResume_def)
  show "buildPodPatchConfig realCache fcGet (\<lambda>_ _. (c2, Notified)) m g pod =
      Ok (m\<lparr>Cache := Some c2\<rparr>, g\<lparr>podCountStsWebIdentity := Suc (podCountStsWebIdentity g)\<rparr>, Some (webIdentityConfig m pod e))"
    if "saCache c2 (cache_key (podNamespace pod) (podServiceAccountName pod)) = Some e" "eRoleARN e \<noteq> []"
    using resume_annotated [of "m\<lparr>Cache := Some c2\<rparr>" c2 pod e g] that by (simp add: build)
  show "buildPodPatchConfig realCache fcGet (\<lambda>_ _. (c2, Notified)) m g pod = Ok (m\<lparr>Cache := Some c2\<rparr>, countMissing g, None)"
    if "\<not> found_in c2 (saRequest pod False)"
    using resume_unknown [of "m\<lparr>Cache := Some c2\<rparr>" c2 pod g] that by (simp add: build)
qed

section \<open>Example values\<close>

definition exampleCodecs :: codecs where
  "exampleCodecs = \<lparr>unmarshalPod = (\<lambda>s. Inr examplePod), marshalPatch = (\<lambda>ps. Inr ''[]'')\<rparr>"

definition exampleReview :: "AdmissionReview option" where
  "exampleReview = Some \<lparr>arRequest = Some \<lparr>UID = ''u-1'', arNamespace = ''ns'', ObjectRaw = []\<rparr>, arResponse = None\<rparr>"

definition timesOut :: "chan option \<Rightarrow> 'c \<Rightarrow> 'c \<times> wake" where
  "timesOut ch c = (c, TimedOut)"

lemma MutatePod_returns_example:
  "\<exists>m' g' resp. MutatePod exampleCodecs realCache fcGet timesOut exampleModifier zeroMetrics exampleReview = Ok (m', g', resp)"
proof -
  have pod: "reviewed_pod exampleCodecs exampleReview = Some (examplePod\<lparr>podNamespace := ''ns''\<rparr>)"
    by (simp add: reviewed_pod_def exampleReview_def exampleCodecs_def)
  have "\<exists>r. buildPodPatchConfig realCache fcGet timesOut exampleModifier zeroMetrics (examplePod\<lparr>podNamespace := ''ns''\<rparr>) = Ok r"
    by (rule build_returns [OF example_sel(1,3)]) (simp_all add: sint_jitterMax)
  then show ?thesis
    by (auto simp: MutatePod_pod [OF pod])
qed

section \<open>Claims\<close>

text \<open>
  C8. The handler never panics: once the modifier has a cache and a container credentials
  configuration (as \<open>main\<close> sets it up), \<open>MutatePod\<close> on the real cache does not panic,
  whatever the review is (nil, without a request, with a malformed object), whatever the codecs
  answer, whatever the other goroutines do to the cache while it waits and however the wait ends.
\<close>

theorem MutatePod_never_panics:
  assumes "Cache m = Some c" and "ContainerCredentialsConfig m = Some k"
  shows "MutatePod codec realCache fcGet wait m g ar \<noteq> Panic p"
proof (cases "reviewed_pod codec ar")
  case None
  from MutatePod_bad [OF this, of realCache fcGet wait m g] show ?thesis by auto
next
  case (Some pod)
  then show ?thesis
    using rc.build_no_panic [OF assms, of fcGet wait g pod p] by (auto simp: MutatePod_pod go_bind_eq_Panic)
qed

theorem MutatePod_never_panics_witness:
  "\<forall>p. MutatePod exampleCodecs realCache fcGet timesOut exampleModifier zeroMetrics exampleReview \<noteq> Panic p"
  using MutatePod_never_panics [OF example_sel(1,3)] by blast

text \<open>
  C14. The shape of the response: a review without a request or with an object that is not a pod is
  refused with a message and changes nothing; any other pod is admitted, with a JSON patch when
  and only when it got a configuration, except that a patch that cannot be encoded is
  refused. A refusal never carries a patch.
\<close>

theorem MutatePod_response:
  assumes "MutatePod codec cm ccGet wait m g ar = Ok (m', g', resp)"
  shows "(reviewed_pod codec ar = None \<longrightarrow> \<not> Allowed resp \<and> m' = m \<and> g' = g) \<and>
    (Allowed resp \<longleftrightarrow> Result resp = None) \<and> (Patch resp \<noteq> None \<longrightarrow> Allowed resp) \<and>
    (PatchType resp = (if Patch resp = None then None else Some ''JSONPatch'')) \<and>
    (\<forall>pod. reviewed_pod codec ar = Some pod \<longrightarrow>
       (\<exists>cfg. buildPodPatchConfig cm ccGet wait m g pod = Ok (m', g', cfg) \<and>
         (case cfg of
            None \<Rightarrow> resp = allowAll
          | Some c \<Rightarrow> (\<forall>b. marshalPatch codec (fst (getPodSpecPatch m' pod c)) = Inr b \<longrightarrow>
                        Allowed resp \<and> Patch resp = Some b) \<and>
                      (\<forall>err. marshalPatch codec (fst (getPodSpecPatch m' pod c)) = Inl err \<longrightarrow>
                        Result resp = Some err))))"
  using assms
proof (cases rule: MutatePod_Ok)
  case (bad msg)
  then show ?thesis by (simp add: denyWith_def)
next
  case (pod pod cfg)
  then show ?thesis
    by (cases cfg) (auto simp: patch_response_def allowAll_def denyWith_def split: sum.split)
qed

lemma MutatePod_nil:
  "MutatePod codec cm ccGet wait m g None = Ok (m, g, denyWith ''bad content'')"
  by (simp add: MutatePod_def)

theorem MutatePod_response_witness:
  "\<exists>resp. MutatePod exampleCodecs realCache fcGet timesOut exampleModifier zeroMetrics None =
       Ok (exampleModifier, zeroMetrics, resp) \<and> \<not> Allowed resp \<and> Patch resp = None"
  using MutatePod_response [OF MutatePod_nil, of exampleCodecs exampleModifier zeroMetrics realCache fcGet timesOut]
  by (auto simp: MutatePod_nil reviewed_pod_def)

text \<open>
  C15. \<open>MutatePod\<close> returns: without a grace period it comes back on every review, if the random
  source delivers a number the jitter accepts (it is drawn only for container credentials
  with the default lifetime). With a grace period it also needs room in the queue of fetch
  requests for the registration.
\<close>

theorem MutatePod_returns:
  assumes "Cache m = Some c" and "ContainerCredentialsConfig m = Some k"
    and "d \<in> set (rand m)" and "sint d \<le> 9223372036854773205"
    and "sint (saLookupGraceTime m) \<le> 0 \<or> length (fetchRequests (notifs c)) < fetchCap (notifs c)"
  shows "\<exists>m' g' resp. MutatePod codec realCache fcGet wait m g ar = Ok (m', g', resp)"
proof (cases "reviewed_pod codec ar")
  case None
  from MutatePod_bad [OF this] show ?thesis by blast
next
  case (Some pod)
  have "\<exists>r. buildPodPatchConfig realCache fcGet wait m g pod = Ok r"
    by (rule build_returns [OF assms(1,2) _ assms(5)]) (use assms(3,4) in \<open>auto simp: sint_jitterMax\<close>)
  then show ?thesis
    by (auto simp: MutatePod_pod [OF Some])
qed

theorem MutatePod_returns_witness:
  "\<exists>m' g' resp. MutatePod exampleCodecs realCache fcGet timesOut exampleModifier zeroMetrics exampleReview = Ok (m', g', resp)"
  by (rule MutatePod_returns [OF example_sel(1,3), of 2]) simp_all

text \<open>
  C25. The namespace an account is looked up in is the one of the admission request: whatever
  namespace the submitted object claims, the response, the state and the counters are the same.
\<close>

theorem namespace_from_request:
  assumes "\<And>raw. unmarshalPod codec' raw =
      map_sum id (\<lambda>pod. pod\<lparr>podNamespace := claimed raw\<rparr>) (unmarshalPod codec raw)"
    and "marshalPatch codec' = marshalPatch codec"
  shows "MutatePod codec' cm ccGet wait m g ar = MutatePod codec cm ccGet wait m g ar"
proof -
  have pod: "reviewed_pod codec' ar = reviewed_pod codec ar"
    unfolding reviewed_pod_def using assms(1) by (auto split: option.split sum.splits)
  have resp: "patch_response codec' = (patch_response codec :: ('a, 'b) Modifier \<Rightarrow> _)"
    using assms(2) by (intro ext) (simp add: patch_response_def split: option.split)
  show ?thesis
  proof (cases "reviewed_pod codec ar")
    case None
    with pod assms(1) show ?thesis
      by (auto simp: reviewed_pod_def MutatePod_def split: option.splits sum.splits)
  next
    case (Some p)
    with pod resp show ?thesis by (simp add: MutatePod_pod)
  qed
qed

theorem namespace_from_request_witness:
  "MutatePod (exampleCodecs\<lparr>unmarshalPod := (\<lambda>s. Inr (examplePod\<lparr>podNamespace := ''kube-system''\<rparr>))\<rparr>)
     realCache fcGet timesOut exampleModifier zeroMetrics exampleReview =
   MutatePod exampleCodecs realCache fcGet timesOut exampleModifier zeroMetrics exampleReview"
  by (rule namespace_from_request [where claimed = "\<lambda>_. ''kube-system''"]) (simp_all add: exampleCodecs_def)

end
