(* ===== verification/ServerProps.thy ===== *)
theory ServerProps
  imports Server AdmissionProps
begin

text \<open>
  Properties of the HTTP side: what goes over the wire for each kind of request, that the
  counted and the logged status are the one on the wire as long as no write fails, and the
  cases where they are not.
\<close>

section \<open>What a writer has sent\<close>

primrec conn :: "ResponseWriter \<Rightarrow> netConn" where
  "conn (NetWriter n) = n"
| "conn (statusLoggingResponseWriter w st b) = conn w"

definition wireStatus :: "ResponseWriter \<Rightarrow> int" where
  "wireStatus w = (case wire (conn w) of None \<Rightarrow> 200 | Some (code, _) \<Rightarrow> code)"

text \<open>Every wrapper knows the status and the size of what was sent.\<close>

primrec tracks :: "ResponseWriter \<Rightarrow> bool" where
  "tracks (NetWriter n) \<longleftrightarrow> True"
| "tracks (statusLoggingResponseWriter w st b) \<longleftrightarrow>
     tracks w \<and> st = wireStatus w \<and> b = length (sentBody (conn w))"

definition unsent :: "ResponseWriter \<Rightarrow> bool" where
  "unsent w \<longleftrightarrow> wire (conn w) = None \<and> sentBody (conn w) = [] \<and> outcomes (conn w) = []"

text \<open>Nothing fails: the connection takes every write.\<close>

definition reliable :: "ResponseWriter \<Rightarrow> bool" where
  "reliable w \<longleftrightarrow> outcomes (conn w) = []"

lemma netWrite_reliable:
  "outcomes n = [] \<Longrightarrow> netWrite n data =
     ((if wire n = None then n\<lparr>wire := Some (200, header n)\<rparr> else n)\<lparr>sentBody := sentBody n @ data\<rparr>, length data, None)"
  by (simp add: netWrite_def)

lemma wire_netWrite:
  "wire (fst (netWrite n data)) = (case wire n of None \<Rightarrow> Some (200, header n) | Some x \<Rightarrow> Some x)"
  by (auto simp: netWrite_def Let_def split: list.split writeOutcome.split option.split)

lemma conn_setHeader [simp]: "conn (setHeader w k v) = (conn w)\<lparr>header := (header (conn w))(k := v)\<rparr>"
  by (induction w) (simp_all add: fun_upd_def)

lemma conn_WriteHeader [simp]:
  "conn (WriteHeader w code) = (if wire (conn w) = None then (conn w)\<lparr>wire := Some (code, header (conn w))\<rparr> else conn w)"
  by (induction w) auto

lemma conn_Write [simp]: "conn (fst (Write w data)) = fst (netWrite (conn w) data)"
  and Write_result [simp]: "snd (Write w data) = snd (netWrite (conn w) data)"
  by (induction w) (auto split: prod.splits)

lemma tracks_setHeader [simp]: "tracks (setHeader w k v) = tracks w"
  by (induction w) (auto simp: wireStatus_def)

lemma tracks_WriteHeader: "tracks w \<Longrightarrow> wire (conn w) = None \<Longrightarrow> tracks (WriteHeader w code)"
  by (induction w) (auto simp: wireStatus_def)

lemma tracks_Write: "tracks w \<Longrightarrow> outcomes (conn w) = [] \<Longrightarrow> tracks (fst (Write w data))"
proof (induction w)
  case (statusLoggingResponseWriter w st b)
  have "conn (fst (Write w data)) = fst (netWrite (conn w) data)"
    and "snd (Write w data) = snd (netWrite (conn w) data)" by simp_all
  with statusLoggingResponseWriter show ?case
    by (cases "Write w data") (auto simp: wireStatus_def netWrite_reliable split: if_splits)
qed (simp split: prod.split)

lemma Error_unsent:
  assumes "tracks w" and "unsent w"
  shows "tracks (Error w msg code)" and "wireStatus (Error w msg code) = code"
    and "sentBody (conn (Error w msg code)) = msg @ [CHR 0x0A]" and "outcomes (conn (Error w msg code)) = []"
  using assms unfolding unsent_def Error_def Let_def
  by (auto simp: wireStatus_def netWrite_reliable intro!: tracks_Write tracks_WriteHeader)

lemma Write_unsent:
  assumes "tracks w" and "unsent w"
  shows "tracks (fst (Write w data))" and "wireStatus (fst (Write w data)) = 200"
    and "sentBody (conn (fst (Write w data))) = data" and "snd (snd (Write w data)) = None"
  using assms unfolding unsent_def
  by (auto simp: wireStatus_def netWrite_reliable intro!: tracks_Write)

lemma writeReview_bad:
  "marshalReview rc review = Inl err \<Longrightarrow>
     Write (Error w (''could not encode response: '' @ err) 500) [] = (w2, k, None) \<Longrightarrow> writeReview rc w review = w2"
  unfolding writeReview_def by simp

lemma writeReview_good:
  "marshalReview rc review = Inr bytes \<Longrightarrow> Write w bytes = (w2, k, None) \<Longrightarrow> writeReview rc w review = w2"
  unfolding writeReview_def by simp

lemma writeReview_failing:
  "marshalReview rc review = Inr bytes \<Longrightarrow> Write w bytes = (w2, k, Some e) \<Longrightarrow>
     writeReview rc w review = Error w2 (''could not write response: '' @ e) 500"
  unfolding writeReview_def by simp

lemma writeReview_unsent:
  assumes "tracks w" and "unsent w"
  shows "tracks (writeReview rc w review)"
    and "wireStatus (writeReview rc w review) = (case marshalReview rc review of Inl _ \<Rightarrow> 500 | Inr _ \<Rightarrow> 200)"
    and "marshalReview rc review = Inr bytes \<Longrightarrow> sentBody (conn (writeReview rc w review)) = bytes"
proof -
  have "tracks (writeReview rc w review) \<and>
    wireStatus (writeReview rc w review) = (case marshalReview rc review of Inl _ \<Rightarrow> 500 | Inr _ \<Rightarrow> 200) \<and>
    (\<forall>bytes. marshalReview rc review = Inr bytes \<longrightarrow> sentBody (conn (writeReview rc w review)) = bytes)"
  proof (cases "marshalReview rc review")
    case (Inl err)
    let ?w = "Error w (''could not encode response: '' @ err) 500"
    note e = Error_unsent [OF assms, of "''could not encode response: '' @ err" 500]
    have "snd (snd (Write ?w [])) = None"
      using e(4) by (simp add: netWrite_reliable)
    then have "Write ?w [] = (fst (Write ?w []), fst (snd (Write ?w [])), None)"
      by (metis prod.collapse)
    then have "writeReview rc w review = fst (Write ?w [])"
      by (rule writeReview_bad [OF Inl])
    then show ?thesis
      using Inl e tracks_Write [OF e(1,4), of "[]"]
      by (auto simp: wireStatus_def netWrite_reliable split: option.splits)
  next
    case (Inr bytes)
    moreover have "Write w bytes = (fst (Write w bytes), fst (snd (Write w bytes)), None)"
      using Write_unsent(4) [OF assms, of bytes] by (metis prod.collapse)
    ultimately have "writeReview rc w review = fst (Write w bytes)"
      by (rule writeReview_good)
    then show ?thesis
      using Inr Write_unsent [OF assms, of bytes] by simp
  qed
  then show "tracks (writeReview rc w review)"
    and "wireStatus (writeReview rc w review) = (case marshalReview rc review of Inl _ \<Rightarrow> 500 | Inr _ \<Rightarrow> 200)"
    and "marshalReview rc review = Inr bytes \<Longrightarrow> sentBody (conn (writeReview rc w review)) = bytes"
    by auto
qed

section \<open>Handlers and their middleware\<close>

primrec depth :: "ResponseWriter \<Rightarrow> nat" where
  "depth (NetWriter n) = 0"
| "depth (statusLoggingResponseWriter w st b) = Suc (depth w)"

lemma depth_setHeader [simp]: "depth (setHeader w k v) = depth w"
  by (induction w) auto

lemma depth_WriteHeader [simp]: "depth (WriteHeader w code) = depth w"
  by (induction w) auto

lemma depth_Write [simp]: "depth (fst (Write w data)) = depth w"
  by (induction w) (auto split: prod.splits)

lemma depth_Error [simp]: "depth (Error w msg code) = depth w"
  by (simp add: Error_def Let_def)

lemma depth_writeReview [simp]: "depth (writeReview rc w review) = depth w"
proof -
  have "depth w2 = depth w1" if "Write w1 d = (w2, k, e)" for w1 w2 d k e
    using depth_Write [of w1 d] that by simp
  then show ?thesis
    by (auto simp: writeReview_def split: sum.split prod.split option.split)
qed

definition same_metrics :: "'a serverMetrics_scheme \<Rightarrow> 'a serverMetrics_scheme \<Rightarrow> bool" where
  "same_metrics s s' \<longleftrightarrow> requestCounter s' = requestCounter s \<and> accessLog s' = accessLog s"

text \<open>A run of the stack that \<open>main\<close> builds, taken apart.\<close>

abbreviation stacked :: "netConn \<Rightarrow> ResponseWriter" where
  "stacked n \<equiv> statusLoggingResponseWriter (statusLoggingResponseWriter (NetWriter n) 200 0) 200 0"

lemma stacked_unsent: "unsent (NetWriter n) \<Longrightarrow> tracks (stacked n) \<and> unsent (stacked n)"
  by (simp add: unsent_def wireStatus_def)

lemma wrapped_eq:
  assumes "formError r = None"
  shows "wrapped h (NetWriter n) r s =
    (case h (stacked n) r s of
       (w1, s1, Blocked) \<Rightarrow> (inner (inner w1), s1, Blocked)
     | (w1, s1, out) \<Rightarrow>
         (inner (inner w1), logRequest r (inner w1) (monitor (Method r) (URLPath r) (status w1) s1), out))"
  using assms
  by (auto simp: wrapped_def Apply_def Logging_def InstrumentRoute_def split: prod.split outcome.split)

lemma wrapped_run:
  assumes "formError r = None" and "wrapped h (NetWriter n) r s = (w', s', Returned)"
  obtains w1 s1 where "h (stacked n) r s = (w1, s1, Returned)" "w' = inner (inner w1)"
    "s' = logRequest r (inner w1) (monitor (Method r) (URLPath r) (status w1) s1)"
  using assms by (auto simp: wrapped_eq split: prod.splits outcome.splits)

text \<open>
  What the middleware relies on: a handler that returns has only written to the writer it was
  given, in a way the writer can follow, and has left the request metrics alone.
\<close>

locale honest_handler =
  fixes h :: "'a serverMetrics_scheme handler"
  assumes honest: "tracks w \<Longrightarrow> unsent w \<Longrightarrow> h w r s = (w', s', Returned) \<Longrightarrow>
    tracks w' \<and> depth w' = depth w \<and> same_metrics s s'"
begin

text \<open>The stack that \<open>main\<close> builds counts and logs the status and the size on the wire.\<close>

lemma wrapped_follows_wire:
  assumes "unsent (NetWriter n)" and "formError r = None" and "wrapped h (NetWriter n) r s = (w', s', Returned)"
  shows "requestCounter s' = (requestCounter s)((Method r, URLPath r, Itoa (wireStatus w')) :=
      Suc (requestCounter s (Method r, URLPath r, Itoa (wireStatus w')))) \<and>
    accessLog s' = accessLog s @ [\<lparr>logPath = URLPath r, logMethod = Method r, logStatus = wireStatus w',
      logUserAgent = UserAgent r, logBytes = length (sentBody (conn w'))\<rparr>]"
proof -
  obtain w1 s1 where run: "h (stacked n) r s = (w1, s1, Returned)" and w': "w' = inner (inner w1)"
    and s': "s' = logRequest r (inner w1) (monitor (Method r) (URLPath r) (status w1) s1)"
    by (rule wrapped_run [OF assms(2,3)])
  have w1: "tracks w1" "depth w1 = 2" "same_metrics s s1"
    using honest [OF _ _ run] stacked_unsent [OF assms(1)] by auto
  then obtain i st b st' b' where "w1 = statusLoggingResponseWriter (statusLoggingResponseWriter i st b) st' b'"
    by (cases w1; cases "inner w1") auto
  then show ?thesis
    using w1 by (auto simp: w' s' logRequest_def monitor_def same_metrics_def wireStatus_def)
qed

end

lemma Handle_honest:
  assumes "tracks w" and "unsent w" and "Handle rc codec cm ccGet wait w r s = (w', s', Returned)"
  shows "tracks w' \<and> depth w' = depth w \<and> same_metrics s s'"
proof (cases "ContentType r = ''application/json''")
  case False
  with assms Error_unsent [OF assms(1,2)] show ?thesis
    by (auto simp: Handle_def same_metrics_def)
next
  case True
  obtain ar err where dec: "decodeReview rc (case Body r of Some (Inr data) \<Rightarrow> data | _ \<Rightarrow> []) = (ar, err)"
    by fastforce
  obtain m' g' resp where "w' = writeReview rc w (responseReview ar resp)" "s' = s\<lparr>modifier := m', podCounters := g'\<rparr>"
    using assms(3) True dec unfolding Handle_def Let_def by (auto split: go.splits)
  with writeReview_unsent [OF assms(1,2)] show ?thesis
    by (simp add: same_metrics_def)
qed

interpretation mutate_route: honest_handler "Handle rc codec cm ccGet wait" for rc codec cm ccGet wait
  by unfold_locales (rule Handle_honest)

interpretation deny_route: honest_handler "Deny rc" for rc
  by unfold_locales (auto simp: Deny_def same_metrics_def intro: writeReview_unsent)

interpretation error_route: honest_handler InternalServerError
  by unfold_locales (auto simp: InternalServerError_def same_metrics_def intro: Error_unsent)

section \<open>Example values\<close>

definition exampleServer :: "(serviceAccountCache, FileConfig) server" where
  "exampleServer = \<lparr>requestCounter = (\<lambda>_. 0), requestLatencies = (\<lambda>_. 0), requestLatenciesSummary = (\<lambda>_. 0),
     accessLog = [], modifier = exampleModifier, podCounters = zeroMetrics\<rparr>"

definition freshConn :: netConn where
  "freshConn = \<lparr>header = Map.empty, wire = None, sentBody = [], outcomes = []\<rparr>"

definition exampleReviewCodecs :: reviewCodecs where
  "exampleReviewCodecs =
     \<lparr>decodeReview = (\<lambda>b. (the exampleReview, None)),
      marshalReview = (\<lambda>rv. Inr (case arResponse rv of None \<Rightarrow> [] | Some a \<Rightarrow> respUID a))\<rparr>"

definition mutateRequest :: HttpRequest where
  "mutateRequest = \<lparr>Method = ''POST'', URLPath = ''/mutate'', EscapedPath = ''/mutate'', ContentType = ''application/json'',
     UserAgent = ''kube-apiserver'', Body = Some (Inr ''{}''), formError = None\<rparr>"

lemma unsent_fresh [simp]: "unsent (NetWriter freshConn)"
  by (simp add: unsent_def freshConn_def)

lemma Handle_json:
  assumes "ContentType r = ''application/json''"
    and "decodeReview rc (case Body r of Some (Inr data) \<Rightarrow> data | _ \<Rightarrow> []) = (ar, None)"
    and "MutatePod codec cm ccGet wait (modifier s) (podCounters s) (Some ar) = Ok (m', g', resp)"
  shows "Handle rc codec cm ccGet wait w r s =
    (writeReview rc w (responseReview ar resp), s\<lparr>modifier := m', podCounters := g'\<rparr>, Returned)"
  using assms by (simp add: Handle_def)

lemma exampleHandle:
  "\<exists>m' g' resp. Handle exampleReviewCodecs exampleCodecs realCache fcGet timesOut w mutateRequest exampleServer =
     (writeReview exampleReviewCodecs w (responseReview (the exampleReview) resp),
      exampleServer\<lparr>modifier := m', podCounters := g'\<rparr>, Returned)"
proof -
  obtain m' g' resp where
    "MutatePod exampleCodecs realCache fcGet timesOut (modifier exampleServer) (podCounters exampleServer)
       (Some (the exampleReview)) = Ok (m', g', resp)"
    using MutatePod_returns_example by (auto simp: exampleServer_def exampleReview_def)
  then show ?thesis
    using Handle_json [of mutateRequest exampleReviewCodecs "the exampleReview" exampleCodecs realCache fcGet timesOut
        exampleServer m' g' resp w]
    by (auto simp: mutateRequest_def exampleReviewCodecs_def)
qed

text \<open>A write that fails: the error page changes the wrappers' status, not the wire's.\<close>

definition denyReview :: AdmissionReview where
  "denyReview = \<lparr>arRequest = None, arResponse = Some (denyWith ''Test deny message'')\<rparr>"

lemma conn_inner [simp]: "conn (inner w) = conn w"
  by (cases w) auto

lemma status_WriteHeader: "0 < depth w \<Longrightarrow> status (WriteHeader w code) = code"
  by (cases w) auto

lemma status_Write: "status (fst (Write w data)) = status w"
  by (cases w) (auto split: prod.split)

lemma Error_sent:
  assumes "wire (conn w) = Some (st, hs)" and "0 < depth w"
  shows "status (Error w msg code) = code" and "wireStatus (Error w msg code) = st"
proof -
  show "status (Error w msg code) = code"
    using assms(2) by (simp add: Error_def status_Write status_WriteHeader)
  show "wireStatus (Error w msg code) = st"
    using assms(1) by (simp add: Error_def wireStatus_def Let_def wire_netWrite)
qed

lemma writeReview_fails:
  assumes "marshalReview rc review = Inr bytes" and "snd (snd (netWrite (conn w) bytes)) = Some e"
    and "wire (conn w) = None"
  shows "status (writeReview rc (statusLoggingResponseWriter w st b) review) = 500"
    and "wireStatus (writeReview rc (statusLoggingResponseWriter w st b) review) = 200"
proof -
  let ?w = "statusLoggingResponseWriter w st b"
  have "snd (snd (Write ?w bytes)) = Some e"
    using assms(2) Write_result [of ?w bytes] by simp
  then have "Write ?w bytes = (fst (Write ?w bytes), fst (snd (Write ?w bytes)), Some e)"
    by (metis prod.collapse)
  then have eq: "writeReview rc ?w review = Error (fst (Write ?w bytes)) (''could not write response: '' @ e) 500"
    by (rule writeReview_failing [OF assms(1)])
  have "\<exists>hs. wire (conn (fst (Write ?w bytes))) = Some (200, hs)"
    using assms(3) unfolding conn_Write wire_netWrite by simp
  moreover have "0 < depth (fst (Write ?w bytes))"
    using depth_Write [of ?w bytes] by simp
  ultimately show "status (writeReview rc ?w review) = 500" "wireStatus (writeReview rc ?w review) = 200"
    unfolding eq using Error_sent by blast+
qed

section \<open>What the client gets\<close>

text \<open>
  For a JSON request that decodes, and a modifier that returns, the client gets status 200 and the
  encoding of a review whose response is the modifier's with the UID of the request, also when the
  pod is refused; the state becomes the modifier's new state. A body that does not decode is
  answered with a refusal that carries the UID as far as it was decoded, and changes no state.
\<close>

definition answered ::
  "reviewCodecs \<Rightarrow> codecs \<Rightarrow> 'c cacheMethods \<Rightarrow> ('k \<Rightarrow> string \<Rightarrow> string \<Rightarrow> PatchConfig option)
     \<Rightarrow> (chan option \<Rightarrow> 'c \<Rightarrow> 'c \<times> wake) \<Rightarrow> string \<Rightarrow> ('c, 'k) server \<Rightarrow> ('c, 'k) server \<Rightarrow> ResponseWriter \<Rightarrow> bool" where
  "answered rc codec cm ccGet wait body s s' w' \<longleftrightarrow>
     (\<exists>resp. (case snd (decodeReview rc body) of
         None \<Rightarrow> MutatePod codec cm ccGet wait (modifier s) (podCounters s) (Some (fst (decodeReview rc body))) =
                   Ok (modifier s', podCounters s', resp)
       | Some e \<Rightarrow> resp = denyWith e \<and> modifier s' = modifier s \<and> podCounters s' = podCounters s) \<and>
       (\<forall>bytes. marshalReview rc (responseReview (fst (decodeReview rc body)) resp) = Inr bytes \<longrightarrow>
          wireStatus w' = 200 \<and> sentBody (conn w') = bytes) \<and>
       (\<forall>err. marshalReview rc (responseReview (fst (decodeReview rc body)) resp) = Inl err \<longrightarrow> wireStatus w' = 500))"

lemma Handle_review:
  assumes "tracks w" and "unsent w" and "ContentType r = ''application/json''"
    and "Handle rc codec cm ccGet wait w r s = (w', s', Returned)"
  shows "answered rc codec cm ccGet wait (case Body r of Some (Inr data) \<Rightarrow> data | _ \<Rightarrow> []) s s' w'"
proof -
  let ?body = "case Body r of Some (Inr data) \<Rightarrow> data | _ \<Rightarrow> []"
  obtain ar err where dec: "decodeReview rc ?body = (ar, err)"
    by fastforce
  obtain m' g' resp where run: "(case err of Some e \<Rightarrow> Ok (modifier s, podCounters s, denyWith e)
      | None \<Rightarrow> MutatePod codec cm ccGet wait (modifier s) (podCounters s) (Some ar)) = Ok (m', g', resp)"
    and w': "w' = writeReview rc w (responseReview ar resp)" and s': "s' = s\<lparr>modifier := m', podCounters := g'\<rparr>"
    using assms(3,4) dec unfolding Handle_def Let_def by (auto split: go.splits)
  then show ?thesis
    using writeReview_unsent(2,3) [OF assms(1,2), of rc "responseReview ar resp"]
    unfolding answered_def dec w' s' by (intro exI [of _ resp]) (cases err; simp)
qed

lemma Handle_other_content:
  assumes "tracks w" and "unsent w" and "ContentType r \<noteq> ''application/json''"
  shows "\<exists>w'. Handle rc codec cm ccGet wait w r s = (w', s, Returned) \<and> depth w' = depth w \<and>
    wireStatus w' = 415 \<and> sentBody (conn w') = invalidContentType @ [CHR 0x0A]"
  using Error_unsent(2,3) [OF assms(1,2), of invalidContentType 415] assms(3)
  by (simp add: Handle_def)

section \<open>Claims\<close>

text \<open>
  C35. Two cases in which the record and the wire differ. When the form does not parse, the client
  gets 400 but the log says 200 with an empty body, and the request is not counted. When the
  write of the response fails after the status was sent, the client has 200 and the counter
  says 500.
\<close>

theorem metrics_off_the_wire:
  assumes "wire n = None" and "sentBody n = []"
  shows "(outcomes n = [] \<and> formError r = Some e \<longrightarrow>
      (\<exists>w' s'. wrapped h (NetWriter n) r s = (w', s', Returned) \<and> wireStatus w' = 400 \<and>
        requestCounter s' = requestCounter s \<and>
        accessLog s' = accessLog s @ [\<lparr>logPath = URLPath r, logMethod = Method r, logStatus = 200,
          logUserAgent = UserAgent r, logBytes = 0\<rparr>])) \<and>
    (outcomes n = [WriteFails k msg] \<and> formError r = None \<and> marshalReview rc denyReview = Inr bytes \<longrightarrow>
      (\<exists>w' s'. wrapped (Deny rc) (NetWriter n) r s = (w', s', Returned) \<and> wireStatus w' = 200 \<and>
        requestCounter s' = (requestCounter s)((Method r, URLPath r, Itoa 500) :=
          Suc (requestCounter s (Method r, URLPath r, Itoa 500)))))"
proof (intro conjI impI)
  assume "outcomes n = [] \<and> formError r = Some e"
  with assms show "\<exists>w' s'. wrapped h (NetWriter n) r s = (w', s', Returned) \<and> wireStatus w' = 400 \<and>
        requestCounter s' = requestCounter s \<and>
        accessLog s' = accessLog s @ [\<lparr>logPath = URLPath r, logMethod = Method r, logStatus = 200,
          logUserAgent = UserAgent r, logBytes = 0\<rparr>]"
    using Error_unsent(2) [of "NetWriter n" formErrorBody 400]
    by (auto simp: wrapped_def Apply_def Logging_def logRequest_def unsent_def)
next
  assume "outcomes n = [WriteFails k msg] \<and> formError r = None \<and> marshalReview rc denyReview = Inr bytes"
  then have out: "outcomes n = [WriteFails k msg]" and form: "formError r = None"
    and bytes: "marshalReview rc denyReview = Inr bytes" by auto
  let ?w = "statusLoggingResponseWriter (statusLoggingResponseWriter (NetWriter n) 200 0) 200 0"
  let ?w1 = "writeReview rc ?w denyReview"
  have w1: "status ?w1 = 500" "wireStatus (inner (inner ?w1)) = 200"
    using writeReview_fails [OF bytes, where w = "statusLoggingResponseWriter (NetWriter n) 200 0" and st = 200 and b = 0] assms out
    by (simp_all add: netWrite_def conn_inner wireStatus_def)
  then show "\<exists>w' s'. wrapped (Deny rc) (NetWriter n) r s = (w', s', Returned) \<and> wireStatus w' = 200 \<and>
        requestCounter s' = (requestCounter s)((Method r, URLPath r, Itoa 500) :=
          Suc (requestCounter s (Method r, URLPath r, Itoa 500)))"
    using form
    by (simp add: wrapped_def Apply_def Logging_def InstrumentRoute_def Deny_def denyReview_def [symmetric]
        logRequest_def monitor_def Let_def)
qed

theorem metrics_off_the_wire_witness:
  "\<exists>w' s'. wrapped (InternalServerError :: (serviceAccountCache, FileConfig) server handler) (NetWriter freshConn)
     (mutateRequest\<lparr>formError := Some ''invalid semicolon separator in query''\<rparr>) exampleServer = (w', s', Returned) \<and>
     wireStatus w' = 400 \<and> map logStatus (accessLog s') = [200]"
  using metrics_off_the_wire [of freshConn "mutateRequest\<lparr>formError := Some ''invalid semicolon separator in query''\<rparr>"
      "''invalid semicolon separator in query''" InternalServerError exampleServer]
  by (fastforce simp: exampleServer_def freshConn_def)

end
