(* ===== verification/CacheDump.thy ===== *)
theory CacheDump
  imports ConfigMapProps FakeCache ServerProps JsonEncode
begin

text \<open>
  \<open>ToJSON\<close> of \<open>pkg/cache/cache.go\<close> and \<open>pkg/cache/fake.go\<close>: the dump of the annotation table that the
  debug handler serves. Go encodes a map with its keys sorted and a struct with its fields in
  the order of the declaration, under their names; encoding these types cannot fail, so the
  branch that returns the empty string is never taken. The dump is in the format the
  ConfigMap has, and reading it back gives the table.
\<close>

definition encode_Entry :: "Entry \<Rightarrow> json" where
  "encode_Entry e =
     JObj [(''RoleARN'', JStr (eRoleARN e)), (''Audience'', JStr (eAudience e)),
           (''UseRegionalSTS'', JBool (eUseRegionalSTS e)), (''TokenExpiration'', JNum (Itoa (sint (eTokenExpiration e))))]"

definition encode_pointer :: "Entry option \<Rightarrow> json" where
  "encode_pointer p = (case p of None \<Rightarrow> JNull | Some e \<Rightarrow> encode_Entry e)"

text \<open>The table at the given keys, in their order.\<close>

definition encode_table :: "string list \<Rightarrow> (string \<rightharpoonup> Entry) \<Rightarrow> json" where
  "encode_table keys t = JObj (map (\<lambda>k. (k, encode_pointer (t k))) keys)"

definition ToJSON :: "serviceAccountCache \<Rightarrow> string" where
  "ToJSON c = MarshalIndent '' '' (encode_table (sorted_list_of_set (dom (saCache c))) (saCache c))"

definition fakeToJSON :: "FakeServiceAccountCache \<Rightarrow> string" where
  "fakeToJSON f = MarshalIndent '' '' (encode_table (sorted_list_of_set (dom (fakeCache f))) (fakeCache f))"

section \<open>Decoding the dump\<close>

lemma update_fresh: "k \<notin> fst ` set m \<Longrightarrow> AList.update k v m = m @ [(k, v)]"
  by (induction m) auto

lemma decode_map_fresh:
  assumes "distinct (map fst kvs)" and "fst ` set kvs \<inter> fst ` set m = {}"
    and "\<forall>(k, j) \<in> set kvs. f j = Some (g k)"
  shows "decode_map f kvs m = Some (m @ map (\<lambda>(k, j). (k, g k)) kvs)"
  using assms
proof (induction f kvs m rule: decode_map.induct)
  case (2 f k j kvs m)
  have "AList.update k (g k) m = m @ [(k, g k)]"
    using 2(3) by (intro update_fresh) auto
  with 2 show ?case by auto
qed simp

lemma decode_encode_Entry: "decode_Entry (encode_Entry e) = Some (Some e)"
proof -
  have "\<not> names_field ''Audience'' ''RoleARN''" "\<not> names_field ''UseRegionalSTS'' ''RoleARN''"
    "\<not> names_field ''UseRegionalSTS'' ''Audience''" "\<not> names_field ''TokenExpiration'' ''RoleARN''"
    "\<not> names_field ''TokenExpiration'' ''Audience''" "\<not> names_field ''TokenExpiration'' ''UseRegionalSTS''"
    by code_simp+
  moreover have "names_field k k" for k
    by (simp add: names_field_def)
  ultimately show ?thesis
    by (simp add: decode_Entry_def encode_Entry_def decode_Entry_field_def decode_string_def decode_bool_def
        decode_int64_def ParseInt_Itoa zeroEntry_def)
qed

definition dumpable :: "(string \<rightharpoonup> Entry) \<Rightarrow> bool" where
  "dumpable t \<longleftrightarrow> finite (dom t) \<and>
     (\<forall>k e. t k = Some e \<longrightarrow> valid_utf8 k \<and> valid_utf8 (eRoleARN e) \<and> valid_utf8 (eAudience e))"

lemma valid_ascii: "list_all (\<lambda>c. byte c < 0x80) s \<Longrightarrow> valid_utf8 s"
  by (induction s) (simp_all add: valid_utf8_def to_valid.simps [of "_ # _"] to_valid.simps [of "[]"] rune_len_ascii)

lemma encode_Entry_ok:
  assumes "valid_utf8 (eRoleARN e)" and "valid_utf8 (eAudience e)"
  shows "json_ok (Suc n) (encode_Entry e)"
proof -
  have "valid_utf8 ''RoleARN''" "valid_utf8 ''Audience''" "valid_utf8 ''UseRegionalSTS''" "valid_utf8 ''TokenExpiration''"
    by (rule valid_ascii, simp add: byte_def)+
  with assms show ?thesis
    by (auto simp: encode_Entry_def)
qed

lemma encode_table_ok: "dumpable t \<Longrightarrow> set keys \<subseteq> dom t \<Longrightarrow> json_ok max_depth (encode_table keys t)"
  using encode_Entry_ok [where n = 9998]
  by (fastforce simp: encode_table_def encode_pointer_def dumpable_def max_depth_def split: option.split)

lemma unmarshal_dump:
  assumes "dumpable t" and "distinct keys" and "set keys \<subseteq> dom t"
  shows "unmarshal_SAs (MarshalIndent '' '' (encode_table keys t)) = Inr (map (\<lambda>k. (k, t k)) keys)"
proof -
  have "json_parse (MarshalIndent '' '' (encode_table keys t)) = Some (encode_table keys t)"
    by (rule parse_marshal) (simp_all add: is_ws_def encode_table_ok assms)
  moreover have "decode_map decode_Entry (map (\<lambda>k. (k, encode_pointer (t k))) keys) [] = Some (map (\<lambda>k. (k, t k)) keys)"
    using assms(2,3) decode_map_fresh [of "map (\<lambda>k. (k, encode_pointer (t k))) keys" "[]" decode_Entry t]
    by (force simp: comp_def encode_pointer_def decode_encode_Entry)
  ultimately show ?thesis
    by (simp add: unmarshal_SAs_def encode_table_def)
qed

lemma dump_table: "finite (dom t) \<Longrightarrow> map_of (map (\<lambda>k. (k, t k)) (sorted_list_of_set (dom t))) k = map_option Some (t k)"
  by (auto simp: map_of_map_restrict restrict_map_def domIff)

section \<open>The table stays finite\<close>

lemma addSA_finite: "finite (dom (saCache c)) \<Longrightarrow> addSA c sa = Ok c' \<Longrightarrow> finite (dom (saCache c'))"
  by (auto elim!: addSA_Ok)

lemma on_event_finite:
  assumes "finite (dom (saCache c))" and "on_event ord c ev = Ok c'"
  shows "finite (dom (saCache c'))"
  using assms
  by (cases "(ord, c, ev)" rule: on_event.cases)
     (auto simp: popSA_def go_bind_eq_Ok dom_fun_upd frame dest: addSA_finite populate_keeps)

lemma events_finite:
  assumes "go_fold (\<lambda>ev c. on_event ord c ev) evs (New aud pfx regional expiration compose) = Ok c"
  shows "finite (dom (saCache c))"
  using go_fold_invariant [OF assms, where P = "\<lambda>c. finite (dom (saCache c))"] on_event_finite
  by (simp add: New_def)

section \<open>Claims\<close>

lemma dump_served:
  assumes "Cache (modifier s) = Some c" and "outcomes n = []"
  shows "\<exists>n'. dumpHandle toJSON (NetWriter n) r s = (NetWriter n', s, Returned) \<and> sentBody n' = sentBody n @ toJSON c"
  using assms by (simp add: dumpHandle_def netWrite_def Let_def)

text \<open>
  C19. The dump of the cache is complete and exact: after any sequence of informer events, what
  the debug handler sends (if the connection takes it) is a JSON text from which
  \<open>json.Unmarshal\<close> gets back the annotation table, entry by entry, with the keys in order,
  provided the strings in it are valid UTF-8. It is also a configuration: put into the webhook's
  ConfigMap, it adds exactly these entries to the ConfigMap table, with the default lifetime
  where the lifetime is zero, for every order of iteration.
\<close>

theorem dump_reads_back:
  assumes "go_fold (\<lambda>ev c. on_event ord c ev) evs (New aud pfx regional expiration compose) = Ok c"
    and "\<forall>k e. saCache c k = Some e \<longrightarrow> valid_utf8 k \<and> valid_utf8 (eRoleARN e) \<and> valid_utf8 (eAudience e)"
    and "Cache (modifier s) = Some c" and "outcomes n = []"
  shows "(\<exists>n'. dumpHandle ToJSON (NetWriter n) r s = (NetWriter n', s, Returned) \<and> sentBody n' = sentBody n @ ToJSON c) \<and>
    (\<exists>m. unmarshal_SAs (ToJSON c) = Inr m \<and> map fst m = sorted_list_of_set (dom (saCache c)) \<and>
       (\<forall>k. map_of m k = map_option Some (saCache c k))) \<and>
    ((\<forall>k \<in> dom (saCache c). two_parts k) \<and> permutes_keys ord' \<longrightarrow>
       populateCacheFromCM ord' c' None (webhookCM (ToJSON c)) =
         Ok (c'\<lparr>cmCache := cmCache c' ++ (\<lambda>k. map_option (default_expiration c') (saCache c k))\<rparr>, None))"
proof -
  have fin: "finite (dom (saCache c))"
    by (rule events_finite [OF assms(1)])
  let ?m = "map (\<lambda>k. (k, saCache c k)) (sorted_list_of_set (dom (saCache c)))"
  have read: "unmarshal_SAs (ToJSON c) = Inr ?m"
    unfolding ToJSON_def using fin assms(2) by (intro unmarshal_dump) (auto simp: dumpable_def)
  have keys: "map fst ?m = sorted_list_of_set (dom (saCache c))"
    by (simp add: comp_def)
  have table: "\<forall>k. map_of ?m k = map_option Some (saCache c k)"
    using dump_table [OF fin] by blast
  have "populateCacheFromCM ord' c' None (webhookCM (ToJSON c)) =
      Ok (c'\<lparr>cmCache := cmCache c' ++ (\<lambda>k. map_option (default_expiration c') (saCache c k))\<rparr>, None)"
    if "\<forall>k \<in> dom (saCache c). two_parts k" "permutes_keys ord'"
  proof -
    have "wf_config ?m"
      using that(1) fin by (auto simp: wf_config_def list_all_iff)
    moreover have "cm_table c' ?m = (\<lambda>k. map_option (default_expiration c') (saCache c k))"
      using table by (intro ext) (simp add: cm_table_def split: option.split)
    ultimately show ?thesis
      using populate_add [of "webhookCM (ToJSON c)" ?m ord' c'] read that(2)
      by (simp add: is_webhook_cm_def) (simp add: webhookCM_def)
  qed
  with dump_served [OF assms(3,4), of ToJSON r] read keys table show ?thesis by blast
qed

definition dumpText :: string where
  \<open>dumpText = ''{'' @ [CHR 0x0A] @ '' "ns/sa": {'' @ [CHR 0x0A] @ ''  "RoleARN": "arn:a",'' @ [CHR 0x0A] @
     ''  "Audience": "sts.amazonaws.com",'' @ [CHR 0x0A] @ ''  "UseRegionalSTS": false,'' @ [CHR 0x0A] @
     ''  "TokenExpiration": 86400'' @ [CHR 0x0A] @ '' }'' @ [CHR 0x0A] @ ''}''\<close>

definition dumpedEntry :: Entry where
  "dumpedEntry = \<lparr>eRoleARN = ''arn:a'', eAudience = ''sts.amazonaws.com'', eUseRegionalSTS = False, eTokenExpiration = 86400\<rparr>"

lemma dump_example:
  assumes "saCache c = [''ns/sa'' \<mapsto> dumpedEntry]"
  shows "ToJSON c = dumpText"
proof -
  have "Itoa (sint (eTokenExpiration dumpedEntry)) = ''86400''"
    by (simp add: dumpedEntry_def Itoa_def decimal.simps char_of_def bit_0)
  moreover have "MarshalIndent '' '' (JObj [(''ns/sa'', JObj [(''RoleARN'', JStr ''arn:a''), (''Audience'', JStr ''sts.amazonaws.com''),
      (''UseRegionalSTS'', JBool False), (''TokenExpiration'', JNum ''86400'')])]) = dumpText"
    by code_simp
  ultimately show ?thesis
    by (simp add: ToJSON_def assms encode_table_def encode_pointer_def encode_Entry_def)
       (simp add: dumpedEntry_def)
qed

theorem dump_reads_back_witness:
  "\<exists>c n' m. on_event id exampleCache (SAAdded plainAccount) = Ok c \<and>
     dumpHandle ToJSON (NetWriter freshConn) mutateRequest
       (exampleServer\<lparr>modifier := exampleModifier\<lparr>Cache := Some c\<rparr>\<rparr>) =
       (NetWriter n', exampleServer\<lparr>modifier := exampleModifier\<lparr>Cache := Some c\<rparr>\<rparr>, Returned) \<and>
     sentBody n' = dumpText \<and> unmarshal_SAs dumpText = Inr m \<and> map_of m ''ns/sa'' = Some (Some dumpedEntry)"
proof -
  obtain c where c: "addSA exampleCache plainAccount = Ok c"
    using addSA_total New_inv unfolding exampleCache_def by blast
  have "entry_of_SA exampleCache plainAccount = dumpedEntry"
    by (simp add: entry_of_SA_def annotation_key_def annotation_defs exampleCache_def New_def plainAccount_def
        composeArn_def dumpedEntry_def Let_def)
  then have table: "saCache c = [''ns/sa'' \<mapsto> dumpedEntry]"
    using c by (auto elim!: addSA_Ok simp: plainAccount_def cache_key_def exampleCache_def New_def)
  let ?s = "exampleServer\<lparr>modifier := exampleModifier\<lparr>Cache := Some c\<rparr>\<rparr>"
  have "\<forall>k e. saCache c k = Some e \<longrightarrow> valid_utf8 k \<and> valid_utf8 (eRoleARN e) \<and> valid_utf8 (eAudience e)"
    by (auto simp: table dumpedEntry_def byte_def split: if_splits intro!: valid_ascii)
  moreover have "go_fold (\<lambda>ev c. on_event id c ev) [SAAdded plainAccount] exampleCache = Ok c"
    using c by simp
  moreover have "Cache (modifier ?s) = Some c" "outcomes freshConn = []"
    by (simp_all add: freshConn_def)
  ultimately obtain n' m where
    "dumpHandle ToJSON (NetWriter freshConn) mutateRequest ?s = (NetWriter n', ?s, Returned)"
    "sentBody n' = sentBody freshConn @ ToJSON c" "unmarshal_SAs (ToJSON c) = Inr m"
    "map_of m ''ns/sa'' = map_option Some (saCache c ''ns/sa'')"
    using dump_reads_back [of id "[SAAdded plainAccount]" _ _ _ _ _ c ?s freshConn mutateRequest]
    unfolding exampleCache_def by blast
  then show ?thesis
    using c by (intro exI [of _ c] exI [of _ n'] exI [of _ m]) (simp add: dump_example [OF table] table freshConn_def)
qed

end
