(* ===== verification/FileWatcher.thy ===== *)
theory FileWatcher
  imports ContainerCredentials
begin

text \<open>
  \<open>pkg/filesystem/file_watcher.go\<close> with its one client, \<open>StartWatcher\<close> of
  \<open>pkg/containercredentials/config.go\<close>. The work queue and \<open>fsnotify\<close> are not part of the
  repository: the calls the watcher makes on the queue are recorded in the order it makes
  them. What \<open>os.Stat\<close> and \<open>os.ReadFile\<close> answer is the state of the file.
\<close>

section \<open>The watcher\<close>

datatype fileState =
    Missing
  | Unreadable string
  | StatError string "string + string"
  | Contents string

datatype queueCall = QAdd | QDone | QAddRateLimited | QForget

text \<open>The result of a handler: its new state and its error. A nil content is the empty string here.\<close>

type_synonym ('s, 'e) contentHandler = "'s \<Rightarrow> string \<Rightarrow> 's \<times> 'e option"

datatype 'e loadError = ReadError string | HandlerError 'e

text \<open>Only \<open>ErrNotExist\<close> is singled out; after any other answer of \<open>Stat\<close> the file is read.\<close>

definition readFile :: "fileState \<Rightarrow> string + string" where
  "readFile f = (case f of
      Missing \<Rightarrow> Inl ''file does not exist''
    | Unreadable e \<Rightarrow> Inl e
    | StatError _ r \<Rightarrow> r
    | Contents s \<Rightarrow> Inr s)"

definition loadFile :: "('s, 'e) contentHandler \<Rightarrow> fileState \<Rightarrow> 's \<Rightarrow> 's \<times> 'e loadError option" where
  "loadFile h f s =
     (if f = Missing then (case h s [] of (s', err) \<Rightarrow> (s', map_option HandlerError err))
      else case readFile f of
        Inl e \<Rightarrow> (s, Some (ReadError e))
      | Inr content \<Rightarrow> (case h s content of (s', err) \<Rightarrow> (s', map_option HandlerError err)))"

text \<open>One round of the worker, unless the queue is shutting down; \<open>Done\<close> is deferred.\<close>

definition processNextWorkItem ::
  "('s, 'e) contentHandler \<Rightarrow> bool \<Rightarrow> fileState \<Rightarrow> 's \<Rightarrow> 's \<times> queueCall list \<times> bool" where
  "processNextWorkItem h quit f s =
     (if quit then (s, [], False)
      else case loadFile h f s of
        (s', Some err) \<Rightarrow> (s', [QAddRateLimited, QDone], True)
      | (s', None) \<Rightarrow> (s', [QForget, QDone], True))"

text \<open>\<open>runWorker\<close> over the states the file has at the successive rounds, until the queue shuts down.\<close>

fun runWorker :: "('s, 'e) contentHandler \<Rightarrow> fileState list \<Rightarrow> 's \<Rightarrow> 's \<times> queueCall list" where
  "runWorker h [] s = (case processNextWorkItem h True Missing s of (s', calls, _) \<Rightarrow> (s', calls))"
| "runWorker h (f # fs) s =
     (case processNextWorkItem h False f s of
        (s', calls, continuePoll) \<Rightarrow>
          if continuePoll then (case runWorker h fs s' of (s'', calls') \<Rightarrow> (s'', calls @ calls')) else (s', calls))"

definition processEvent :: "string \<Rightarrow> string \<Rightarrow> queueCall list" where
  "processEvent path eventName = (if eventName = path then [QAdd] else [])"

section \<open>The configuration file\<close>

text \<open>\<open>StartWatcher\<close> gives \<open>Load\<close> to the watcher as its handler.\<close>

abbreviation watch_config :: "fileState list \<Rightarrow> FileConfig \<Rightarrow> FileConfig \<times> queueCall list" where
  "watch_config \<equiv> runWorker Load"

text \<open>The identities that are in force after a file state was processed.\<close>

definition file_identities :: "fileState \<Rightarrow> Identity set \<Rightarrow> Identity set" where
  "file_identities f before =
     (if f = Missing then {}
      else case readFile f of
        Inl _ \<Rightarrow> before
      | Inr s \<Rightarrow> if s = [] then {} else (case unmarshal_Config s of Inl _ \<Rightarrow> before | Inr obj \<Rightarrow> set (Identities obj)))"

lemma loadFile_identities:
  "identities_of (fst (loadFile Load f c)) = file_identities f (identities_of c)"
  by (auto simp: loadFile_def file_identities_def Load_identities split: sum.split prod.split
           dest!: arg_cong [where f = fst])

lemma loadFile_error:
  "snd (loadFile Load f c) = None \<longleftrightarrow>
     f = Missing \<or> (\<exists>s. readFile f = Inr s \<and> (s = [] \<or> (\<exists>obj. unmarshal_Config s = Inr obj)))"
  by (cases f) (auto simp: loadFile_def readFile_def Load_def split: sum.splits prod.splits)

definition loads :: "fileState \<Rightarrow> bool" where
  "loads f \<longleftrightarrow> f = Missing \<or>
     (case readFile f of
        Inl _ \<Rightarrow> False
      | Inr s \<Rightarrow> s = [] \<or> (case unmarshal_Config s of Inl _ \<Rightarrow> False | Inr _ \<Rightarrow> True))"

lemma process_round:
  "processNextWorkItem Load False f c =
     (fst (loadFile Load f c), [if loads f then QForget else QAddRateLimited, QDone], True)"
proof -
  have "snd (loadFile Load f c) = None \<longleftrightarrow> loads f"
    by (auto simp: loadFile_error loads_def split: sum.splits)
  then show ?thesis
    by (cases "loadFile Load f c") (auto simp: processNextWorkItem_def split: option.split)
qed

lemma loadFile_settings: "fc_settings (fst (loadFile Load f c)) = fc_settings c"
proof -
  have "fc_settings (fst (Load c s)) = fc_settings c" for s
    by (simp add: fc_settings_def Load_settings)
  then show ?thesis
    by (auto simp: loadFile_def split: sum.split prod.split dest!: arg_cong [where f = fst])
qed

section \<open>Sequences of file states\<close>

text \<open>
  After any sequence of file states the identities in force are those of the last state that could
  be loaded; a file that cannot be read or does not parse leaves the previous ones in force. Every
  round of the worker finishes its queue item once and asks for a retry exactly when the load failed.
\<close>

lemma watched_file_in_force:
  "identities_of (fst (watch_config fs c)) = foldl (\<lambda>before f. file_identities f before) (identities_of c) fs \<and>
   fc_settings (fst (watch_config fs c)) = fc_settings c \<and>
   snd (watch_config fs c) = concat (map (\<lambda>f. [if loads f then QForget else QAddRateLimited, QDone]) fs)"
proof (induction fs arbitrary: c)
  case Nil
  show ?case by (simp add: processNextWorkItem_def)
next
  case (Cons f fs)
  from Cons [of "fst (loadFile Load f c)"] show ?case
    by (cases "watch_config fs (fst (loadFile Load f c))")
       (simp add: process_round loadFile_identities loadFile_settings)
qed

end
