(* ===== verification/WatchLoop.thy ===== *)
theory WatchLoop
  imports FileWatcher "HOL-Library.Transitive_Closure_Table"
begin

text \<open>
  \<open>NewFileWatcher\<close> and \<open>Watch\<close> of \<open>pkg/filesystem/file_watcher.go\<close>: the call of \<open>Watch\<close> itself, the
  event loop and the worker run side by side, interleaved with changes of the file. The work
  queue of client-go is an argument; \<open>workqueue_contract\<close> is what its documentation promises
  for the one item the watcher uses. What \<open>fsnotify\<close> calls the watched file in its events is an
  argument too. The results: a change of the file while its directory is watched cannot get
  lost, and a change before that can.
\<close>

section \<open>The work queue\<close>

text \<open>
  \<open>qGet\<close> is \<open>None\<close> while \<open>Get\<close> blocks, and otherwise the item, the shutdown flag and the queue. A
  delay that \<open>AddRateLimited\<close> has started ends with \<open>qDelayOver\<close>.
\<close>

record 'q workqueue =
  qAdd :: "'q \<Rightarrow> string \<Rightarrow> 'q"
  qGet :: "'q \<Rightarrow> (string \<times> bool \<times> 'q) option"
  qDone :: "'q \<Rightarrow> string \<Rightarrow> 'q"
  qAddRateLimited :: "'q \<Rightarrow> string \<Rightarrow> 'q"
  qForget :: "'q \<Rightarrow> string \<Rightarrow> 'q"
  qDelayOver :: "'q \<Rightarrow> 'q option"

definition workItemKey :: string where
  "workItemKey = ''key''"

text \<open>In nanoseconds.\<close>

definition workqueueBaseDelay :: nat where
  "workqueueBaseDelay = 10 * 10 ^ 6"

definition workqueueMaxDelay :: nat where
  "workqueueMaxDelay = 5 * 60 * 10 ^ 9"

text \<open>What the documentation says of one item: marked as needing work, being worked on, waiting for a delay.\<close>

record itemState =
  dirty :: bool
  processing :: bool
  delayed :: bool

definition workqueue_contract :: "'q workqueue \<Rightarrow> ('q \<Rightarrow> itemState) \<Rightarrow> bool" where
  "workqueue_contract Q item \<longleftrightarrow>
     (\<forall>q. item (qAdd Q q workItemKey) = (item q)\<lparr>dirty := True\<rparr> \<and>
          item (qDone Q q workItemKey) = (item q)\<lparr>processing := False\<rparr> \<and>
          item (qAddRateLimited Q q workItemKey) = (item q)\<lparr>delayed := True\<rparr> \<and>
          item (qForget Q q workItemKey) = item q \<and>
          (qGet Q q = None \<longleftrightarrow> \<not> (dirty (item q) \<and> \<not> processing (item q))) \<and>
          (\<forall>k quit q'. qGet Q q = Some (k, quit, q') \<longrightarrow>
             k = workItemKey \<and> \<not> quit \<and> item q' = (item q)\<lparr>dirty := False, processing := True\<rparr>) \<and>
          (qDelayOver Q q = None \<longleftrightarrow> \<not> delayed (item q)) \<and>
          (\<forall>q'. qDelayOver Q q = Some q' \<longrightarrow> item q' = (item q)\<lparr>dirty := True, delayed := False\<rparr>))"

section \<open>The watcher\<close>

text \<open>Where the call of \<open>Watch\<close> is: it has returned nil in \<open>Watching\<close>.\<close>

datatype watchPhase = Initial | Enqueued | Started | Watching | WatchError string | Exited string

text \<open>The worker waits in \<open>Get\<close>, has an item, has read the file, or is about to make calls on the queue.\<close>

datatype worker = WIdle | WGot string | WRead string fileState | WCalls string "queueCall list" | WStopped

record ('q, 's) watch =
  phase :: watchPhase
  wq :: 'q
  worker :: worker
  loopOn :: bool
  events :: "string list"
  disk :: fileState
  hstate :: 's

definition NewFileWatcher :: "(nat \<Rightarrow> nat \<Rightarrow> string \<Rightarrow> 'q) \<Rightarrow> string \<Rightarrow> 's \<Rightarrow> fileState \<Rightarrow> ('q, 's) watch" where
  "NewFileWatcher newQueue purpose s0 f =
     \<lparr>phase = Initial, wq = newQueue workqueueBaseDelay workqueueMaxDelay purpose, worker = WIdle, loopOn = False,
      events = [], disk = f, hstate = s0\<rparr>"

text \<open>\<open>StartWatcher\<close> of the container credentials configuration.\<close>

definition StartWatcher :: "(nat \<Rightarrow> nat \<Rightarrow> string \<Rightarrow> 'q) \<Rightarrow> FileConfig \<Rightarrow> fileState \<Rightarrow> ('q, FileConfig) watch" where
  "StartWatcher newQueue f file = NewFileWatcher newQueue ''container-credential-config'' f file"

primrec queue_call :: "'q workqueue \<Rightarrow> string \<Rightarrow> queueCall \<Rightarrow> 'q \<Rightarrow> 'q" where
  "queue_call Q k QAdd q = qAdd Q q k"
| "queue_call Q k QDone q = qDone Q q k"
| "queue_call Q k QAddRateLimited q = qAddRateLimited Q q k"
| "queue_call Q k QForget q = qForget Q q k"

text \<open>
  The steps the program takes. Reading the file may fail at any time; the two calls \<open>os.Stat\<close> and
  \<open>os.ReadFile\<close> are one step, and a file that vanishes between them is such a failure. Nothing
  ends the worker but a queue that shuts down.
\<close>

inductive sys_step ::
  "'q workqueue \<Rightarrow> ('s, 'e) contentHandler \<Rightarrow> string \<Rightarrow> ('q, 's) watch \<Rightarrow> ('q, 's) watch \<Rightarrow> bool"
  for Q h path where
  Enqueue: "phase s = Initial \<Longrightarrow>
    sys_step Q h path s (s\<lparr>phase := Enqueued, wq := qAdd Q (wq s) workItemKey\<rparr>)"
| Create: "phase s = Enqueued \<Longrightarrow> sys_step Q h path s (s\<lparr>phase := Started, loopOn := True\<rparr>)"
| AddDir: "phase s = Started \<Longrightarrow> sys_step Q h path s (s\<lparr>phase := Watching\<rparr>)"
| Event: "loopOn s \<Longrightarrow> events s = e # es \<Longrightarrow>
    sys_step Q h path s
      (s\<lparr>events := es, wq := fold (queue_call Q workItemKey) (processEvent path e) (wq s)\<rparr>)"
| GetItem: "phase s \<in> {Started, Watching} \<Longrightarrow> worker s = WIdle \<Longrightarrow> qGet Q (wq s) = Some (k, quit, q) \<Longrightarrow>
    sys_step Q h path s (s\<lparr>wq := q, worker := (if quit then WStopped else WGot k)\<rparr>)"
| ReadDisk: "worker s = WGot k \<Longrightarrow> sys_step Q h path s (s\<lparr>worker := WRead k (disk s)\<rparr>)"
| Process: "worker s = WRead k f \<Longrightarrow> processNextWorkItem h False f (hstate s) = (s', calls, continuePoll) \<Longrightarrow>
    sys_step Q h path s (s\<lparr>hstate := s', worker := WCalls k calls\<rparr>)"
| QueueCall: "worker s = WCalls k (c # cs) \<Longrightarrow>
    sys_step Q h path s (s\<lparr>wq := queue_call Q k c (wq s), worker := WCalls k cs\<rparr>)"
| NextRound: "worker s = WCalls k [] \<Longrightarrow> sys_step Q h path s (s\<lparr>worker := WIdle\<rparr>)"
| DelayOver: "qDelayOver Q (wq s) = Some q \<Longrightarrow> sys_step Q h path s (s\<lparr>wq := q\<rparr>)"

text \<open>
  What happens to it: the file and its neighbours change, reading fails, \<open>fsnotify\<close> cannot be set
  up, and the context is cancelled. Events are reported while the directory is watched and the
  watcher is open.
\<close>

inductive env_step ::
  "string \<Rightarrow> ('q, 's) watch \<Rightarrow> ('q, 's) watch \<Rightarrow> bool"
  for reported where
  Change: "env_step reported s
    (s\<lparr>disk := f, events := events s @ (if phase s = Watching \<and> loopOn s then [reported] else [])\<rparr>)"
| Neighbour: "phase s = Watching \<Longrightarrow> loopOn s \<Longrightarrow> env_step reported s (s\<lparr>events := events s @ [n]\<rparr>)"
| ReadFails: "worker s = WGot k \<Longrightarrow> env_step reported s (s\<lparr>worker := WRead k (Unreadable e)\<rparr>)"
| CreateFails: "phase s = Enqueued \<Longrightarrow> env_step reported s (s\<lparr>phase := WatchError e\<rparr>)"
| AddDirFails: "phase s = Started \<Longrightarrow> env_step reported s (s\<lparr>phase := Exited e\<rparr>)"
| Cancel: "loopOn s \<Longrightarrow> env_step reported s (s\<lparr>loopOn := False\<rparr>)"

inductive_cases sys_stepE: "sys_step Q h path s t"
inductive_cases env_stepE: "env_step reported s t"

definition wstep ::
  "'q workqueue \<Rightarrow> ('s, 'e) contentHandler \<Rightarrow> string \<Rightarrow> string \<Rightarrow> ('q, 's) watch \<Rightarrow> ('q, 's) watch \<Rightarrow> bool" where
  "wstep Q h path reported s t \<longleftrightarrow> sys_step Q h path s t \<or> env_step reported s t"

section \<open>The invariant\<close>

text \<open>The configuration in force comes from loading what the file holds now.\<close>

definition in_force :: "('s, 'e) contentHandler \<Rightarrow> ('q, 's) watch \<Rightarrow> bool" where
  "in_force h s \<longleftrightarrow> (\<exists>before. loadFile h (disk s) before = (hstate s, None))"

definition fails :: "('s, 'e) contentHandler \<Rightarrow> fileState \<Rightarrow> 's \<Rightarrow> bool" where
  "fails h f s \<longleftrightarrow> snd (loadFile h f s) \<noteq> None"

text \<open>A load is still to come.\<close>

definition pending :: "('s, 'e) contentHandler \<Rightarrow> ('q \<Rightarrow> itemState) \<Rightarrow> string \<Rightarrow> ('q, 's) watch \<Rightarrow> bool" where
  "pending h item path s \<longleftrightarrow>
     dirty (item (wq s)) \<or> delayed (item (wq s)) \<or> path \<in> set (events s) \<or>
     (case worker s of
        WGot _ \<Rightarrow> True
      | WRead _ f \<Rightarrow> f = disk s \<or> fails h f (hstate s)
      | WCalls _ calls \<Rightarrow> QAddRateLimited \<in> set calls
      | _ \<Rightarrow> False)"

text \<open>The worker and the queue agree on who has the item.\<close>

definition worker_inv :: "('q \<Rightarrow> itemState) \<Rightarrow> ('q, 's) watch \<Rightarrow> bool" where
  "worker_inv item s \<longleftrightarrow>
     (case worker s of
        WIdle \<Rightarrow> \<not> processing (item (wq s))
      | WGot k \<Rightarrow> k = workItemKey \<and> processing (item (wq s))
      | WRead k _ \<Rightarrow> k = workItemKey \<and> processing (item (wq s))
      | WCalls k calls \<Rightarrow> k = workItemKey \<and> distinct calls \<and> QAdd \<notin> set calls \<and> (processing (item (wq s)) \<longleftrightarrow> QDone \<in> set calls)
      | WStopped \<Rightarrow> False)"

definition at_rest :: "('q \<Rightarrow> itemState) \<Rightarrow> ('q, 's) watch \<Rightarrow> bool" where
  "at_rest item s \<longleftrightarrow> worker s = WIdle \<and> events s = [] \<and> \<not> dirty (item (wq s)) \<and> \<not> delayed (item (wq s))"

lemma at_rest_not_pending: "at_rest item s \<Longrightarrow> \<not> pending h item path s"
  by (simp add: at_rest_def pending_def)

text \<open>A load is to come, or what is in force is what the file holds and no older reading is on its way.\<close>

definition settled :: "('s, 'e) contentHandler \<Rightarrow> ('q \<Rightarrow> itemState) \<Rightarrow> string \<Rightarrow> ('q, 's) watch \<Rightarrow> bool" where
  "settled h item path s \<longleftrightarrow> pending h item path s \<or> in_force h s \<and> (\<forall>k f. worker s \<noteq> WRead k f)"

definition watched :: "('q, 's) watch \<Rightarrow> bool" where
  "watched s \<longleftrightarrow> phase s = Watching \<and> loopOn s"

lemma workqueue_contractD:
  assumes "workqueue_contract Q item"
  shows "item (qAdd Q q workItemKey) = (item q)\<lparr>dirty := True\<rparr>"
    "item (qDone Q q workItemKey) = (item q)\<lparr>processing := False\<rparr>"
    "item (qAddRateLimited Q q workItemKey) = (item q)\<lparr>delayed := True\<rparr>"
    "item (qForget Q q workItemKey) = item q"
    "qGet Q q = None \<longleftrightarrow> \<not> (dirty (item q) \<and> \<not> processing (item q))"
    "qGet Q q = Some (k, quit, q') \<Longrightarrow> k = workItemKey \<and> \<not> quit \<and> item q' = (item q)\<lparr>dirty := False, processing := True\<rparr>"
    "qDelayOver Q q = None \<longleftrightarrow> \<not> delayed (item q)"
    "qDelayOver Q q = Some q' \<Longrightarrow> item q' = (item q)\<lparr>dirty := True, delayed := False\<rparr>"
  using assms unfolding workqueue_contract_def by blast+

lemma processNextWorkItem_eq:
  "processNextWorkItem h False f s =
     (fst (loadFile h f s), [if fails h f s then QAddRateLimited else QForget, QDone], True)"
  by (cases "loadFile h f s") (auto simp: processNextWorkItem_def fails_def split: option.split)

lemma queue_call_item:
  assumes "workqueue_contract Q item"
  shows "item (queue_call Q workItemKey c q) =
    (case c of
       QAdd \<Rightarrow> (item q)\<lparr>dirty := True\<rparr>
     | QDone \<Rightarrow> (item q)\<lparr>processing := False\<rparr>
     | QAddRateLimited \<Rightarrow> (item q)\<lparr>delayed := True\<rparr>
     | QForget \<Rightarrow> item q)"
  by (cases c) (simp_all add: workqueue_contractD [OF assms])

lemma sys_step_worker_inv:
  assumes "workqueue_contract Q item" and "sys_step Q h path s t" and "worker_inv item s"
  shows "worker_inv item t"
  using assms(2,3)
proof cases
  case (GetItem k quit q)
  then show ?thesis
    using workqueue_contractD(6) [OF assms(1) GetItem(4)] by (simp add: worker_inv_def)
next
  case (Process k f s' calls c)
  with assms(3) show ?thesis
    by (cases "fails h f (hstate s)") (auto simp: worker_inv_def processNextWorkItem_eq)
next
  case (QueueCall k c cs)
  with assms(3) show ?thesis
    by (auto simp: worker_inv_def queue_call_item [OF assms(1)] split: queueCall.splits)
next
  case (DelayOver q)
  with assms(3) show ?thesis
    using workqueue_contractD(8) [OF assms(1) DelayOver(2)]
    by (auto simp: worker_inv_def split: worker.splits)
qed (use assms(3) in \<open>auto simp: worker_inv_def processEvent_def workqueue_contractD [OF assms(1)] split: worker.splits\<close>)

lemma env_step_worker_inv: "env_step reported s t \<Longrightarrow> worker_inv item s \<Longrightarrow> worker_inv item t"
  by (erule env_stepE) (auto simp: worker_inv_def split: worker.splits)

lemma sys_step_settled:
  assumes "workqueue_contract Q item" and "sys_step Q h path s t" and "worker_inv item s" and "watched s"
    and "settled h item path s"
  shows "settled h item path t"
  using assms(2-5)
proof cases
  case (Event e es)
  with assms(5) show ?thesis
    by (auto simp: settled_def pending_def in_force_def processEvent_def workqueue_contractD [OF assms(1)]
        split: worker.splits)
next
  case (GetItem k quit q)
  then show ?thesis
    using workqueue_contractD(6) [OF assms(1) GetItem(4)] by (simp add: settled_def pending_def)
next
  case (Process k f s' calls c)
  show ?thesis
  proof (cases "fails h f (hstate s)")
    case True
    with Process show ?thesis
      by (auto simp: settled_def pending_def processNextWorkItem_eq)
  next
    case False
    then have "loadFile h f (hstate s) = (s', None)"
      using Process(3) by (cases "loadFile h f (hstate s)") (auto simp: fails_def processNextWorkItem_eq)
    with Process assms(5) False show ?thesis
      by (auto simp: settled_def pending_def in_force_def)
  qed
next
  case (QueueCall k c cs)
  with assms(3,5) show ?thesis
    by (auto simp: settled_def pending_def in_force_def worker_inv_def queue_call_item [OF assms(1)]
        split: queueCall.splits)
next
  case (DelayOver q)
  then show ?thesis
    using workqueue_contractD(8) [OF assms(1) DelayOver(2)] by (simp add: settled_def pending_def)
qed (auto simp: settled_def pending_def in_force_def watched_def)

lemma env_step_settled:
  assumes "env_step path s t" and "watched t" and "phase s = Watching" and "settled h item path s"
  shows "settled h item path t"
  using assms
  by cases (auto simp: settled_def pending_def in_force_def watched_def fails_def loadFile_def readFile_def
      split: worker.splits)

lemma wstep_phase: "wstep Q h path reported s t \<Longrightarrow> phase s = Watching \<Longrightarrow> phase t = Watching \<and> (loopOn t \<longrightarrow> loopOn s)"
  unfolding wstep_def by (elim disjE sys_stepE env_stepE) auto

lemma run_settled:
  assumes "workqueue_contract Q item" and "(wstep Q h path path)\<^sup>*\<^sup>* s t" and "worker_inv item s"
    and "phase s = Watching" and "settled h item path s"
  shows "worker_inv item t \<and> phase t = Watching \<and> (watched t \<longrightarrow> settled h item path t)"
  using assms(2)
proof (induction rule: rtranclp_induct)
  case base
  then show ?case using assms by simp
next
  case (step t u)
  then show ?case
    using wstep_phase [OF step.hyps(2)] sys_step_worker_inv [OF assms(1)] env_step_worker_inv
      sys_step_settled [OF assms(1)] env_step_settled
    unfolding wstep_def watched_def by blast
qed

section \<open>Coming to rest\<close>

text \<open>Every step the program takes by itself on a file that loads uses up some of its work.\<close>

definition work :: "('s, 'e) contentHandler \<Rightarrow> ('q \<Rightarrow> itemState) \<Rightarrow> ('q, 's) watch \<Rightarrow> nat" where
  "work h item s =
     8 * length (events s) + (if dirty (item (wq s)) then 6 else 0) + (if delayed (item (wq s)) then 7 else 0) +
     (case worker s of
        WGot _ \<Rightarrow> 5
      | WRead _ f \<Rightarrow> if fails h f (hstate s) then 12 else 4
      | WCalls _ calls \<Rightarrow> Suc (length calls) + (if QAddRateLimited \<in> set calls then 8 else 0)
      | _ \<Rightarrow> 0)"

lemma sys_step_works:
  assumes "workqueue_contract Q item" and "sys_step Q h path s t" and "worker_inv item s" and "watched s"
    and "\<And>st. \<not> fails h (disk s) st"
  shows "work h item t < work h item s \<and> disk t = disk s \<and> watched t"
  using assms(2-5)
proof cases
  case (Event e es)
  then show ?thesis
    using assms(4) by (simp add: work_def processEvent_def watched_def workqueue_contractD [OF assms(1)] split: worker.split)
next
  case (GetItem k quit q)
  have "dirty (item (wq s))"
    using workqueue_contractD(5) [OF assms(1), of "wq s"] GetItem(4) by auto
  with GetItem assms(4) show ?thesis
    using workqueue_contractD(6) [OF assms(1) GetItem(4)] by (simp add: work_def watched_def)
next
  case (Process k f s' calls c)
  with assms(4) show ?thesis
    by (cases "fails h f (hstate s)") (auto simp: work_def processNextWorkItem_eq watched_def)
next
  case (QueueCall k c cs)
  with assms(3,4) show ?thesis
    by (auto simp: work_def watched_def worker_inv_def queue_call_item [OF assms(1)] split: queueCall.splits)
next
  case (DelayOver q)
  have "delayed (item (wq s))"
    using workqueue_contractD(7) [OF assms(1), of "wq s"] DelayOver(2) by auto
  with DelayOver assms(4) show ?thesis
    using workqueue_contractD(8) [OF assms(1) DelayOver(2)] by (auto simp: work_def watched_def split: worker.split)
qed (use assms(4,5) in \<open>auto simp: work_def watched_def\<close>)

lemma sys_step_possible:
  assumes "workqueue_contract Q item" and "worker_inv item s" and "watched s" and "\<not> at_rest item s"
  shows "\<exists>t. sys_step Q h path s t"
proof (cases "events s")
  case (Cons e es)
  then show ?thesis
    using assms(3) Event by (fastforce simp: watched_def)
next
  case Nil
  show ?thesis
  proof (cases "worker s")
    case WIdle
    then consider "dirty (item (wq s)) \<and> \<not> processing (item (wq s))" | "delayed (item (wq s))"
      using assms(2,4) Nil by (auto simp: at_rest_def worker_inv_def)
    then show ?thesis
    proof cases
      case 1
      then obtain k quit q where "qGet Q (wq s) = Some (k, quit, q)"
        using workqueue_contractD(5) [OF assms(1), of "wq s"] by (cases "qGet Q (wq s)") auto
      then show ?thesis
        using GetItem WIdle assms(3) by (fastforce simp: watched_def)
    next
      case 2
      then obtain q where "qDelayOver Q (wq s) = Some q"
        using workqueue_contractD(7) [OF assms(1), of "wq s"] by (cases "qDelayOver Q (wq s)") auto
      then show ?thesis
        by (blast intro: DelayOver)
    qed
  next
    case (WRead k f)
    then show ?thesis by (cases "processNextWorkItem h False f (hstate s)") (blast intro: Process)
  next
    case (WCalls k calls)
    then show ?thesis by (cases calls) (blast intro: QueueCall NextRound)+
  qed (use assms(2) in \<open>auto simp: worker_inv_def intro: ReadDisk\<close>)
qed

lemma comes_to_rest:
  assumes "workqueue_contract Q item" and "worker_inv item s" and "watched s" and "\<And>st. \<not> fails h (disk s) st"
  shows "\<exists>t. (sys_step Q h path)\<^sup>*\<^sup>* s t \<and> at_rest item t \<and> watched t \<and> disk t = disk s"
  using assms(2-4)
proof (induction "work h item s" arbitrary: s rule: less_induct)
  case less
  show ?case
  proof (cases "at_rest item s")
    case True
    with less show ?thesis by blast
  next
    case False
    then obtain t where t: "sys_step Q h path s t"
      using sys_step_possible [OF assms(1) less.prems(1,2)] by blast
    then have "work h item t < work h item s" "disk t = disk s" "watched t" "worker_inv item t"
      using sys_step_works [OF assms(1) t less.prems] sys_step_worker_inv [OF assms(1) t less.prems(1)] by auto
    with less t show ?thesis
      by (metis converse_rtranclp_into_rtranclp)
  qed
qed

text \<open>No run of the program's own steps is longer than its work, and one that cannot go on is at rest.\<close>

lemma own_run:
  assumes "workqueue_contract Q item" and "(sys_step Q h path ^^ n) s t" and "worker_inv item s" and "watched s"
    and "\<And>st. \<not> fails h (disk s) st"
  shows "n + work h item t \<le> work h item s \<and> disk t = disk s \<and> watched t \<and> worker_inv item t"
  using assms(2)
proof (induction n arbitrary: t)
  case 0
  with assms show ?case by simp
next
  case (Suc n)
  then obtain u where u: "(sys_step Q h path ^^ n) s u" and step: "sys_step Q h path u t" by auto
  note before = Suc.IH [OF u]
  then show ?case
    using sys_step_works [OF assms(1) step] sys_step_worker_inv [OF assms(1) step] assms(5) by fastforce
qed

lemma own_run_rests:
  assumes "workqueue_contract Q item" and "(sys_step Q h path)\<^sup>*\<^sup>* s u" and "\<nexists>v. sys_step Q h path u v"
    and "worker_inv item s" and "watched s" and "\<And>st. \<not> fails h (disk s) st"
  shows "at_rest item u \<and> disk u = disk s \<and> watched u"
proof -
  obtain n where "(sys_step Q h path ^^ n) s u"
    using assms(2) unfolding rtranclp_is_Sup_relpowp by blast
  from own_run [OF assms(1) this assms(4-6)] show ?thesis
    using sys_step_possible [OF assms(1), of u h path] assms(3) by blast
qed

section \<open>The name of the file in events\<close>

text \<open>\<open>filepath.Dir\<close>: everything up to the last slash, cleaned.\<close>

definition Dir :: "string \<Rightarrow> string" where
  "Dir p = Clean (rev (dropWhile (\<lambda>c. c \<noteq> CHR ''/'') (rev p)))"

lemma Dir_plain:
  assumes "es \<noteq> []" and "list_all plain_elem es" and "plain_elem f"
  shows "Dir (CHR ''/'' # Join CHR ''/'' es @ CHR ''/'' # f) = CHR ''/'' # Join CHR ''/'' es"
proof -
  have "dropWhile (\<lambda>c. c \<noteq> CHR ''/'') (rev f @ CHR ''/'' # xs) = CHR ''/'' # xs" for xs
    using assms(3) by (subst dropWhile_append2) (simp_all add: plain_elem_def, metis)
  then have cut: "rev (dropWhile (\<lambda>c. c \<noteq> CHR ''/'') (rev (CHR ''/'' # Join CHR ''/'' es @ CHR ''/'' # f))) =
      CHR ''/'' # Join CHR ''/'' (es @ [[]])"
    using assms(1) by (simp add: Join_append_single)
  have "Split CHR ''/'' (Join CHR ''/'' (es @ [[]])) = es @ [[]]"
    by (rule Split_Join) (use assms(2) in \<open>auto simp only: list_all_iff plain_elem_def set_append, auto\<close>)
  moreover have "clean_elems True [] (es @ [[]]) = es"
  proof -
    have "clean_elems True st (es @ [[]]) = rev st @ es" for st
      using assms(2) by (induction es arbitrary: st) (simp_all add: plain_elem_def)
    then show ?thesis by simp
  qed
  ultimately show ?thesis
    unfolding Dir_def cut by (simp add: Clean_def)
qed

section \<open>Claims\<close>

definition unused :: itemState where
  "unused = \<lparr>dirty = False, processing = False, delayed = False\<rparr>"

lemma reachable_worker_inv:
  assumes "workqueue_contract Q item" and "item (newQueue workqueueBaseDelay workqueueMaxDelay purpose) = unused"
    and "(wstep Q h path reported)\<^sup>*\<^sup>* (NewFileWatcher newQueue purpose s0 f0) s"
  shows "worker_inv item s"
  using assms(3)
proof (induction rule: rtranclp_induct)
  case base
  then show ?case by (simp add: NewFileWatcher_def worker_inv_def assms(2) unused_def)
next
  case (step t u)
  then show ?case
    unfolding wstep_def using sys_step_worker_inv [OF assms(1)] env_step_worker_inv by blast
qed

text \<open>The state right after the file has changed to \<open>f\<close> while it is watched.\<close>

definition changed :: "string \<Rightarrow> fileState \<Rightarrow> ('q, 's) watch \<Rightarrow> ('q, 's) watch" where
  "changed reported f s = s\<lparr>disk := f, events := events s @ [reported]\<rparr>"

text \<open>
  C16. No change of a watched file is lost. Let \<open>fsnotify\<close> report a file of a watched directory as the
  directory, a slash and the file's name, and let the path be absolute and clean. From
  every state the program can be in once \<open>Watch\<close> has returned and until its context is cancelled,
  let the file change. Then, as long as the context is not cancelled, whatever happens, further
  changes, failing reads and events for other files in any interleaving with the worker: whenever
  the program is at rest, the handler's state comes from the contents the file has then. If the new
  contents load, the program's own steps come to an end however they interleave: their number is
  bounded, there is such an end, and at every such end the program is at rest with the new contents in
  force. If the new contents never load, the program never rests on them but goes on trying.
\<close>

theorem change_takes_effect:
  assumes "workqueue_contract Q item" and "item (newQueue workqueueBaseDelay workqueueMaxDelay purpose) = unused"
    and "path = CHR ''/'' # Join CHR ''/'' es @ CHR ''/'' # file" and "es \<noteq> []"
    and "list_all plain_elem es" and "plain_elem file" and "reported = Dir path @ ''/'' @ file"
    and "(wstep Q h path reported)\<^sup>*\<^sup>* (NewFileWatcher newQueue purpose s0 f0) s" and "watched s"
  shows "wstep Q h path reported s (changed reported f s) \<and>
    (\<forall>u. (wstep Q h path reported)\<^sup>*\<^sup>* (changed reported f s) u \<and> watched u \<longrightarrow>
       (at_rest item u \<longrightarrow> in_force h u) \<and>
       (disk u = f \<and> (\<forall>st. fails h f st) \<longrightarrow> \<not> at_rest item u \<and> (\<exists>v. sys_step Q h path u v))) \<and>
    ((\<forall>st. \<not> fails h f st) \<longrightarrow>
      (\<exists>bound. \<forall>n u. (sys_step Q h path ^^ n) (changed reported f s) u \<longrightarrow> n \<le> bound) \<and>
      (\<exists>u. (sys_step Q h path)\<^sup>*\<^sup>* (changed reported f s) u \<and> at_rest item u \<and> disk u = f \<and> in_force h u) \<and>
      (\<forall>u. (sys_step Q h path)\<^sup>*\<^sup>* (changed reported f s) u \<and> (\<nexists>v. sys_step Q h path u v) \<longrightarrow>
         at_rest item u \<and> disk u = f \<and> in_force h u))"
proof -
  let ?t = "changed reported f s"
  have name: "reported = path"
    using Dir_plain [OF assms(4-6)] assms(3,7) by simp
  have step: "wstep Q h path reported s ?t"
    using Change [of reported s f] assms(9) by (simp add: wstep_def changed_def watched_def)
  have inv: "worker_inv item ?t"
    using reachable_worker_inv [OF assms(1,2,8)] by (simp add: worker_inv_def changed_def split: worker.splits)
  have ok: "settled h item path ?t" "watched ?t" and disk: "disk ?t = f"
    using assms(9) by (simp_all add: settled_def pending_def changed_def name watched_def)
  have run: "worker_inv item u" "at_rest item u \<Longrightarrow> in_force h u"
    if "(wstep Q h path reported)\<^sup>*\<^sup>* ?t u" "watched u" for u
    using run_settled [OF assms(1) that(1) [unfolded name] inv [unfolded name]] ok that(2) at_rest_not_pending [of item u]
    by (auto simp: settled_def name watched_def)
  have own: "(wstep Q h path reported)\<^sup>*\<^sup>* ?t u" if "(sys_step Q h path)\<^sup>*\<^sup>* ?t u" for u
    using that by (rule rtranclp_mono [THEN predicate2D, rotated]) (auto simp: wstep_def)
  have retries: "\<not> at_rest item u \<and> (\<exists>v. sys_step Q h path u v)"
    if u: "(wstep Q h path reported)\<^sup>*\<^sup>* ?t u" "watched u" "disk u = f" "\<forall>st. fails h f st" for u
  proof -
    have "\<not> in_force h u"
      using u(3,4) unfolding in_force_def fails_def by (metis snd_conv)
    then show ?thesis
      using run [OF u(1,2)] sys_step_possible [OF assms(1) _ u(2)] by blast
  qed
  have rests: "at_rest item u \<and> disk u = f \<and> in_force h u"
    if "\<forall>st. \<not> fails h f st" "(sys_step Q h path)\<^sup>*\<^sup>* ?t u" "\<nexists>v. sys_step Q h path u v" for u
    using own_run_rests [OF assms(1) that(2,3) inv ok(2)] that(1) run(2) [OF own [OF that(2)]] disk by simp
  have bounded: "n \<le> work h item ?t" if "\<forall>st. \<not> fails h f st" "(sys_step Q h path ^^ n) ?t u" for n u
    using own_run [OF assms(1) that(2) inv ok(2)] that(1) disk by simp
  have ends: "\<exists>u. (sys_step Q h path)\<^sup>*\<^sup>* ?t u \<and> at_rest item u \<and> disk u = f \<and> in_force h u" if "\<forall>st. \<not> fails h f st"
    using comes_to_rest [OF assms(1) inv ok(2), of h path] that disk run(2) own by metis
  show ?thesis
    using step run(2) retries rests bounded ends by blast
qed

definition simpleQueue :: "itemState workqueue" where
  "simpleQueue =
     \<lparr>qAdd = (\<lambda>q k. q\<lparr>dirty := True\<rparr>),
      qGet = (\<lambda>q. if dirty q \<and> \<not> processing q
                  then Some (workItemKey, False, q\<lparr>dirty := False, processing := True\<rparr>) else None),
      qDone = (\<lambda>q k. q\<lparr>processing := False\<rparr>), qAddRateLimited = (\<lambda>q k. q\<lparr>delayed := True\<rparr>), qForget = (\<lambda>q k. q),
      qDelayOver = (\<lambda>q. if delayed q then Some (q\<lparr>dirty := True, delayed := False\<rparr>) else None)\<rparr>"

lemma simpleQueue_contract: "workqueue_contract simpleQueue id"
  by (simp add: workqueue_contract_def simpleQueue_def)

lemma sys_step_to: "sys_step Q h path s t \<Longrightarrow> t = t' \<Longrightarrow> sys_step Q h path s t'"
  by simp

text \<open>The first load, with nothing in between.\<close>

lemma first_load:
  assumes "workqueue_contract Q item" and "item (wq s) = unused" and "phase s = Initial" and "worker s = WIdle"
    and "\<not> fails h (disk s) (hstate s)"
  shows "\<exists>q. item q = unused \<and> (sys_step Q h path)\<^sup>*\<^sup>* s
    (s\<lparr>phase := Started, loopOn := True, wq := q, hstate := fst (loadFile h (disk s) (hstate s))\<rparr>)"
proof -
  note contract = workqueue_contractD [OF assms(1)]
  let ?q1 = "qAdd Q (wq s) workItemKey"
  let ?s1 = "s\<lparr>phase := Enqueued, wq := ?q1\<rparr>"
  let ?s2 = "?s1\<lparr>phase := Started, loopOn := True\<rparr>"
  have i1: "item ?q1 = unused\<lparr>dirty := True\<rparr>"
    using contract(1) assms(2) by simp
  obtain q2 where get: "qGet Q ?q1 = Some (workItemKey, False, q2)" and i2: "item q2 = unused\<lparr>processing := True\<rparr>"
    using contract(5) [of ?q1] contract(6) [of ?q1] i1 by (cases "qGet Q ?q1") (auto simp: unused_def)
  let ?q3 = "qForget Q q2 workItemKey" and ?h = "fst (loadFile h (disk s) (hstate s))"
  let ?got = "?s2\<lparr>wq := q2, worker := WGot workItemKey\<rparr>"
  let ?read = "?s2\<lparr>wq := q2, worker := WRead workItemKey (disk s)\<rparr>"
  let ?forget = "?s2\<lparr>wq := q2, worker := WCalls workItemKey [QForget, QDone], hstate := ?h\<rparr>"
  let ?done = "?s2\<lparr>wq := ?q3, worker := WCalls workItemKey [QDone], hstate := ?h\<rparr>"
  let ?next = "?s2\<lparr>wq := qDone Q ?q3 workItemKey, worker := WCalls workItemKey [], hstate := ?h\<rparr>"
  have "sys_step Q h path s ?s1"
    by (rule Enqueue [OF assms(3)])
  moreover have "sys_step Q h path ?s1 ?s2"
    by (rule Create) simp
  moreover have "sys_step Q h path ?s2 ?got"
    by (rule sys_step_to [OF GetItem [where k = workItemKey and quit = False and q = q2]]) (use assms(4) get in simp_all)
  moreover have "sys_step Q h path ?got ?read"
    by (rule sys_step_to [OF ReadDisk [where k = workItemKey]]) simp_all
  moreover have "sys_step Q h path ?read ?forget"
    by (rule sys_step_to [OF Process [OF _ processNextWorkItem_eq, where k = workItemKey and f = "disk s"]], simp,
        rule watch.equality) (use assms(5) in simp_all)
  moreover have "sys_step Q h path ?forget ?done"
    by (rule sys_step_to [OF QueueCall [where k = workItemKey and c = QForget and cs = "[QDone]"]], simp,
        rule watch.equality) simp_all
  moreover have "sys_step Q h path ?done ?next"
    by (rule sys_step_to [OF QueueCall [where k = workItemKey and c = QDone and cs = "[]"]], simp,
        rule watch.equality) simp_all
  moreover have "sys_step Q h path ?next (?s2\<lparr>wq := qDone Q ?q3 workItemKey, worker := WIdle, hstate := ?h\<rparr>)"
    by (rule sys_step_to [OF NextRound [where k = workItemKey]], simp, rule watch.equality) simp_all
  ultimately have "(sys_step Q h path)\<^sup>*\<^sup>* s (?s2\<lparr>wq := qDone Q ?q3 workItemKey, worker := WIdle, hstate := ?h\<rparr>)"
    by (meson converse_rtranclp_into_rtranclp rtranclp.rtrancl_refl)
  moreover have "?s2\<lparr>wq := qDone Q ?q3 workItemKey, worker := WIdle, hstate := ?h\<rparr> =
      s\<lparr>phase := Started, loopOn := True, wq := qDone Q ?q3 workItemKey, hstate := ?h\<rparr>"
    using assms(4) by (intro watch.equality) simp_all
  moreover have "item (qDone Q ?q3 workItemKey) = unused"
    using contract(2) [of ?q3] contract(4) [of q2] i2 by (simp add: unused_def)
  ultimately show ?thesis by metis
qed

text \<open>The first load, then a change of the file, then the watch.\<close>

lemma loads_then_watches:
  assumes "workqueue_contract Q item" and "item (newQueue workqueueBaseDelay workqueueMaxDelay purpose) = unused"
    and "\<not> fails h f0 s0"
  shows "\<exists>u. (wstep Q h path reported)\<^sup>*\<^sup>* (NewFileWatcher newQueue purpose s0 f0) u \<and> watched u \<and> at_rest item u \<and>
    disk u = f \<and> hstate u = fst (loadFile h f0 s0)"
proof -
  let ?s = "NewFileWatcher newQueue purpose s0 f0"
  obtain q where q: "item q = unused" "(sys_step Q h path)\<^sup>*\<^sup>* ?s
      (?s\<lparr>phase := Started, loopOn := True, wq := q, hstate := fst (loadFile h f0 s0)\<rparr>)"
    using first_load [OF assms(1), of ?s h path] assms(2,3) by (auto simp: NewFileWatcher_def)
  let ?loaded = "?s\<lparr>phase := Started, loopOn := True, wq := q, hstate := fst (loadFile h f0 s0)\<rparr>"
  let ?u = "?loaded\<lparr>disk := f, phase := Watching\<rparr>"
  have "(wstep Q h path reported)\<^sup>*\<^sup>* ?s ?loaded"
    using q(2) by (rule rtranclp_mono [THEN predicate2D, rotated]) (auto simp: wstep_def)
  moreover have "wstep Q h path reported ?loaded (?loaded\<lparr>disk := f\<rparr>)"
    using Change [where s = ?loaded and f = f and reported = reported] by (simp add: wstep_def)
  moreover have "sys_step Q h path (?loaded\<lparr>disk := f\<rparr>) ?u"
    by (rule AddDir) simp
  then have "wstep Q h path reported (?loaded\<lparr>disk := f\<rparr>) ?u"
    unfolding wstep_def ..
  ultimately have "(wstep Q h path reported)\<^sup>*\<^sup>* ?s ?u"
    by (meson rtranclp.rtrancl_into_rtrancl)
  moreover have "watched ?u \<and> at_rest item ?u \<and> disk ?u = f \<and> hstate ?u = fst (loadFile h f0 s0)"
    by (simp add: watched_def at_rest_def q(1)) (simp add: NewFileWatcher_def unused_def)
  ultimately show ?thesis by blast
qed

text \<open>
  C39. A change before the watch is lost. \<open>Watch\<close> starts the worker, which loads the file, before it
  adds the directory to the watcher: if the file changes between the two, \<open>Watch\<close> returns without
  an error, the program is at rest, and the handler has seen only what the file held before,
  whatever it holds now. Only a later event for the file makes up for it.
\<close>

theorem early_change_lost:
  assumes "workqueue_contract Q item" and "item (newQueue workqueueBaseDelay workqueueMaxDelay purpose) = unused"
    and "\<not> fails h f0 s0"
  shows "\<exists>u. (wstep Q h path reported)\<^sup>*\<^sup>* (NewFileWatcher newQueue purpose s0 f0) u \<and> watched u \<and> at_rest item u \<and>
    disk u = f \<and> hstate u = fst (loadFile h f0 s0)"
  by (rule loads_then_watches [where item = item and newQueue = newQueue and purpose = purpose, OF assms])

definition exampleFile :: string where
  \<open>exampleFile = ''{"identities":[{"namespace":"ns","serviceAccount":"sa"}]}''\<close>

abbreviation emptyConfig :: FileConfig where
  "emptyConfig \<equiv> NewFileConfig ''aud'' ''/mnt'' ''vol'' ''tok'' ''http://169.254.170.23/v1/credentials''"

abbreviation newSimple :: "nat \<Rightarrow> nat \<Rightarrow> string \<Rightarrow> itemState" where
  "newSimple \<equiv> \<lambda>_ _ _. unused"

lemma exampleFile_identities: "file_identities (Contents exampleFile) before = {\<lparr>Namespace = ''ns'', ServiceAccountName = ''sa''\<rparr>}"
proof -
  have "unmarshal_Config exampleFile = Inr \<lparr>Identities = [\<lparr>Namespace = ''ns'', ServiceAccountName = ''sa''\<rparr>]\<rparr>"
    by code_simp
  then show ?thesis
    by (simp add: file_identities_def readFile_def exampleFile_def)
qed

lemma Load_missing: "\<not> fails Load Missing c"
  by (simp add: fails_def loadFile_def Load_def)

lemma Load_example: "\<not> fails Load (Contents exampleFile) c"
proof -
  have "unmarshal_Config exampleFile = Inr \<lparr>Identities = [\<lparr>Namespace = ''ns'', ServiceAccountName = ''sa''\<rparr>]\<rparr>"
    by code_simp
  then show ?thesis
    using loadFile_error [of "Contents exampleFile" c] by (simp add: fails_def readFile_def)
qed

theorem early_change_lost_witness:
  "\<exists>u. (wstep simpleQueue Load ''/etc/config.json'' ''/etc/config.json'')\<^sup>*\<^sup>*
       (StartWatcher newSimple emptyConfig Missing) u \<and>
     watched u \<and> at_rest id u \<and> identities_of (hstate u) = {} \<and>
     file_identities (disk u) {} = {\<lparr>Namespace = ''ns'', ServiceAccountName = ''sa''\<rparr>}"
proof -
  have "identities_of (fst (loadFile Load Missing emptyConfig)) = {}"
    by (simp add: loadFile_identities file_identities_def)
  then show ?thesis
    using early_change_lost [OF simpleQueue_contract, of newSimple "''container-credential-config''" Load Missing
        emptyConfig "''/etc/config.json''" "''/etc/config.json''" "Contents exampleFile"]
    by (auto simp: Load_missing exampleFile_identities StartWatcher_def)
qed

theorem change_takes_effect_witness:
  "\<exists>s u. (sys_step simpleQueue Load ''/etc/webhook/config.json'')\<^sup>*\<^sup>*
       (changed ''/etc/webhook/config.json'' (Contents exampleFile) s) u \<and> watched s \<and> at_rest id u \<and> disk u = Contents exampleFile \<and>
     identities_of (hstate u) = {\<lparr>Namespace = ''ns'', ServiceAccountName = ''sa''\<rparr>}"
proof -
  let ?path = "''/etc/webhook/config.json''"
  have path: "?path = CHR ''/'' # Join CHR ''/'' [''etc'', ''webhook''] @ CHR ''/'' # ''config.json''"
    by simp
  have plain: "list_all plain_elem [''etc'', ''webhook'']" "plain_elem ''config.json''"
    by (simp_all add: plain_elem_def)
  have reported: "?path = Dir ?path @ ''/'' @ ''config.json''"
    unfolding path by (subst Dir_plain) (use plain in simp_all)
  obtain s where s: "(wstep simpleQueue Load ?path ?path)\<^sup>*\<^sup>* (NewFileWatcher newSimple [] emptyConfig Missing) s" "watched s"
    using loads_then_watches [OF simpleQueue_contract, of newSimple "[]" Load Missing emptyConfig ?path ?path]
    by (auto simp: Load_missing)
  obtain u where u: "(sys_step simpleQueue Load ?path)\<^sup>*\<^sup>* (changed ?path (Contents exampleFile) s) u" "at_rest id u" "disk u = Contents exampleFile" "in_force Load u"
    using change_takes_effect [OF simpleQueue_contract _ path _ plain reported s, where f = "Contents exampleFile"] Load_example
    by auto
  moreover have "identities_of (hstate u) = {\<lparr>Namespace = ''ns'', ServiceAccountName = ''sa''\<rparr>}"
    using u(3,4) loadFile_identities [of "Contents exampleFile"] unfolding in_force_def by (metis exampleFile_identities fst_conv)
  ultimately show ?thesis using s(2) by blast
qed

end
