(* ===== verification/PatchTypes.thy ===== *)
theory PatchTypes
  imports PodProps
begin

text \<open>
  The patch as a typed document. A path is a JSON pointer (RFC 6901): elements between slashes, with
  \<open>~1\<close> for a slash and \<open>~0\<close> for a tilde. \<open>add_at\<close> says which values may be added where in a pod and what
  that does (RFC 6902): the parent of the place must exist, an index must be within the array,
  and the kind of the value must be the kind of the place. The patches of the handler never
  get stuck under these rules.
\<close>

section \<open>JSON pointers\<close>

fun unescape_elem :: "string \<Rightarrow> string" where
  "unescape_elem [] = []"
| "unescape_elem (a # s) =
     (if a = CHR ''~'' then
        (case s of
           b # t \<Rightarrow> if b = CHR ''1'' then CHR ''/'' # unescape_elem t
                    else if b = CHR ''0'' then CHR ''~'' # unescape_elem t else a # unescape_elem s
         | [] \<Rightarrow> [a])
      else a # unescape_elem s)"

definition parse_pointer :: "string \<Rightarrow> string list option" where
  "parse_pointer s =
     (case Split CHR ''/'' s of
        e # es \<Rightarrow> if e = [] then Some (map unescape_elem es) else None
      | [] \<Rightarrow> None)"

section \<open>Typed additions\<close>

definition array_index :: "string \<Rightarrow> nat \<Rightarrow> nat option" where
  "array_index i n =
     (if is_numeral i \<and> (hd i = CHR ''0'' \<longrightarrow> length i = 1) \<and> numeral_val i \<le> n then Some (numeral_val i)
      else if i = ''-'' then Some n else None)"

definition insert_at :: "nat \<Rightarrow> 'a \<Rightarrow> 'a list \<Rightarrow> 'a list" where
  "insert_at i x xs = take i xs @ x # drop i xs"

definition add_label :: "string \<Rightarrow> patchValue \<Rightarrow> Pod \<Rightarrow> Pod option" where
  "add_label k v p =
     (case (Labels p, v) of
        (Some l, VString s) \<Rightarrow> Some (p\<lparr>Labels := Some (l(k \<mapsto> s))\<rparr>)
      | _ \<Rightarrow> None)"

definition add_volume :: "string \<Rightarrow> patchValue \<Rightarrow> Pod \<Rightarrow> Pod option" where
  "add_volume i v p =
     (case (Volumes p, v) of
        (Some vs, VVolume vol) \<Rightarrow>
          map_option (\<lambda>n. p\<lparr>Volumes := Some (insert_at n vol vs)\<rparr>) (array_index i (length vs))
      | _ \<Rightarrow> None)"

definition add_at :: "string list \<Rightarrow> patchValue \<Rightarrow> Pod \<Rightarrow> Pod option" where
  "add_at path v p =
     (if path = [''metadata'', ''labels'']
      then (case v of VLabels kvs \<Rightarrow> Some (p\<lparr>Labels := Some (map_of kvs)\<rparr>) | _ \<Rightarrow> None)
      else if take 2 path = [''metadata'', ''labels''] \<and> length path = 3 then add_label (path ! 2) v p
      else if path = [''spec'', ''volumes'']
      then (case v of VVolumes vs \<Rightarrow> Some (p\<lparr>Volumes := Some vs\<rparr>) | _ \<Rightarrow> None)
      else if take 2 path = [''spec'', ''volumes''] \<and> length path = 3 then add_volume (path ! 2) v p
      else if path = [''spec'', ''containers'']
      then (case v of VContainers cs \<Rightarrow> Some (p\<lparr>Containers := cs\<rparr>) | _ \<Rightarrow> None)
      else if path = [''spec'', ''initContainers'']
      then (case v of VContainers cs \<Rightarrow> Some (p\<lparr>InitContainers := cs\<rparr>) | _ \<Rightarrow> None)
      else None)"

definition apply_typed :: "patchOperation \<Rightarrow> Pod \<Rightarrow> Pod option" where
  "apply_typed op p =
     (if Op op \<noteq> ''add'' then None
      else Option.bind (parse_pointer (Path op)) (\<lambda>path. add_at path (Value op) p))"

fun apply_all :: "patchOperation list \<Rightarrow> Pod \<Rightarrow> Pod option" where
  "apply_all [] p = Some p"
| "apply_all (op # ops) p = Option.bind (apply_typed op p) (apply_all ops)"

lemma apply_all_append: "apply_all (xs @ ys) p = Option.bind (apply_all xs p) (apply_all ys)"
  by (induction xs arbitrary: p) (auto simp: bind_assoc cong: bind_option_cong)

section \<open>The handler's paths\<close>

lemma pointers:
  "parse_pointer ''/metadata/labels'' = Some [''metadata'', ''labels'']"
  "parse_pointer ''/metadata/labels/eks.amazonaws.com~1pod-identity'' = Some [''metadata'', ''labels'', podIdentityLabel]"
  "parse_pointer ''/spec/volumes'' = Some [''spec'', ''volumes'']"
  "parse_pointer ''/spec/volumes/0'' = Some [''spec'', ''volumes'', ''0'']"
  "parse_pointer ''/spec/containers'' = Some [''spec'', ''containers'']"
  "parse_pointer ''/spec/initContainers'' = Some [''spec'', ''initContainers'']"
  by (simp_all add: parse_pointer_def podIdentityLabel_def)

lemma index_zero: "array_index ''0'' n = Some 0"
  by (simp add: array_index_def is_numeral_def is_digit_def numeral_val_def digit_val_def)

lemma apply_labelPatch: "apply_all (labelPatch p cfg) p = Some (p\<lparr>Labels := mutatedLabels p cfg\<rparr>)"
  by (cases "Labels p")
     (auto simp: labelPatch_def mutatedLabels_def apply_typed_def pointers add_at_def add_label_def podIdentityLabel_def)

lemma apply_volumePatch:
  "Volumes q = Volumes p \<Longrightarrow> apply_all (volumePatch p cfg) q = Some (q\<lparr>Volumes := mutatedVolumes p cfg\<rparr>)"
  by (cases "Volumes p")
     (auto simp: volumePatch_def mutatedVolumes_def apply_typed_def pointers add_at_def add_volume_def index_zero insert_at_def)

lemma patch_applies: "apply_all (fst (getPodSpecPatch m p cfg)) p = Some (mutated m p cfg)"
proof -
  have "InitContainers p = [] \<Longrightarrow> mutatedContainers m p cfg (InitContainers p) = InitContainers p"
    by (simp add: mutatedContainers_def)
  then show ?thesis
    by (simp add: getPodSpecPatch_eq mutated_def apply_all_append apply_labelPatch apply_volumePatch apply_typed_def pointers
        add_at_def)
qed

section \<open>Claims\<close>

text \<open>
  C11. The patch is well typed: every operation adds, at a place of the pod that exists when its turn
  comes, a value of the kind that belongs there, the label's path included, whose escaped slash
  names the same label that is set when the pod has none; and the pod it leads to is the one
  with the token volume, the label and the patched containers in the place of the old ones.
\<close>

theorem patch_well_typed:
  "apply_all (fst (getPodSpecPatch m p cfg)) p = Some (mutated m p cfg)"
  by (rule patch_applies)

end
