(* ===== verification/PatchJson.thy ===== *)
theory PatchJson
  imports PatchTypes JsonEncode
begin

text \<open>
  The patch as the bytes the webhook answers with. \<open>json.Marshal\<close> of the operations follows the
  struct tags of \<open>patchOperation\<close>; the encodings of volumes and containers belong to the Kubernetes
  types and are arguments. Applying the bytes to the JSON document of the pod, by the rules of
  RFC 6902 on JSON trees, gives the document of the mutated pod: the untyped patch simulates the
  typed one of theory \<open>PatchTypes\<close>.
\<close>

section \<open>Encoding the operations\<close>

record kubeJson =
  encVolume :: "Volume \<Rightarrow> string + json"
  encContainer :: "Container \<Rightarrow> string + json"
  decVolume :: "json \<Rightarrow> Volume option"
  decContainer :: "json \<Rightarrow> Container option"

primrec encode_list :: "('a \<Rightarrow> string + json) \<Rightarrow> 'a list \<Rightarrow> string + json list" where
  "encode_list enc [] = Inr []"
| "encode_list enc (x # xs) =
     (case enc x of
        Inl err \<Rightarrow> Inl err
      | Inr j \<Rightarrow> (case encode_list enc xs of Inl err \<Rightarrow> Inl err | Inr js \<Rightarrow> Inr (j # js)))"

text \<open>The keys of a map are written in order.\<close>

definition encode_labels :: "(string \<times> string) list \<Rightarrow> json" where
  "encode_labels kvs = JObj (map (\<lambda>(k, v). (k, JStr v)) (sort_key fst kvs))"

primrec encode_value :: "kubeJson \<Rightarrow> patchValue \<Rightarrow> string + json" where
  "encode_value lib (VString s) = Inr (JStr s)"
| "encode_value lib (VLabels kvs) = Inr (encode_labels kvs)"
| "encode_value lib (VVolume v) = encVolume lib v"
| "encode_value lib (VVolumes vs) = map_sum id JArr (encode_list (encVolume lib) vs)"
| "encode_value lib (VContainers cs) = map_sum id JArr (encode_list (encContainer lib) cs)"

definition encode_op :: "kubeJson \<Rightarrow> patchOperation \<Rightarrow> string + json" where
  "encode_op lib op =
     map_sum id (\<lambda>v. JObj [(''op'', JStr (Op op)), (''path'', JStr (Path op)), (''value'', v)]) (encode_value lib (Value op))"

definition marshalOps :: "kubeJson \<Rightarrow> patchOperation list \<Rightarrow> string + string" where
  "marshalOps lib ops = map_sum id (\<lambda>js. Marshal (JArr js)) (encode_list (encode_op lib) ops)"

section \<open>RFC 6902 on trees\<close>

fun json_add :: "string list \<Rightarrow> json \<Rightarrow> json \<Rightarrow> json option" where
  "json_add [] v doc = Some v"
| "json_add [k] v (JObj kvs) = Some (JObj (AList.update k v kvs))"
| "json_add [i] v (JArr vs) = map_option (\<lambda>n. JArr (insert_at n v vs)) (array_index i (length vs))"
| "json_add (k # p) v (JObj kvs) =
     (case map_of kvs k of
        None \<Rightarrow> None
      | Some j \<Rightarrow> map_option (\<lambda>j'. JObj (AList.update k j' kvs)) (json_add p v j))"
| "json_add (i # p) v (JArr vs) =
     (case array_index i (length vs) of
        None \<Rightarrow> None
      | Some n \<Rightarrow>
          if n < length vs then map_option (\<lambda>j'. JArr (vs[n := j'])) (json_add p v (vs ! n)) else None)"
| "json_add p v doc = None"

definition json_op :: "json \<Rightarrow> json \<Rightarrow> json option" where
  "json_op op doc =
     (case op of
        JObj kvs \<Rightarrow>
          (case (map_of kvs ''op'', map_of kvs ''path'', map_of kvs ''value'') of
             (Some (JStr name), Some (JStr path), Some v) \<Rightarrow>
               if name = ''add'' then Option.bind (parse_pointer path) (\<lambda>p. json_add p v doc) else None
           | _ \<Rightarrow> None)
      | _ \<Rightarrow> None)"

fun json_ops :: "json list \<Rightarrow> json \<Rightarrow> json option" where
  "json_ops [] doc = Some doc"
| "json_ops (op # ops) doc = Option.bind (json_op op doc) (json_ops ops)"

text \<open>A patch as text: only \<open>add\<close> operations are understood here, the handler sends no others.\<close>

definition json_patch :: "string \<Rightarrow> json \<Rightarrow> json option" where
  "json_patch bytes doc = (case json_parse bytes of Some (JArr ops) \<Rightarrow> json_ops ops doc | _ \<Rightarrow> None)"

section \<open>The document of a pod\<close>

definition labels_doc :: "json option \<Rightarrow> (string \<rightharpoonup> string) option \<Rightarrow> bool" where
  "labels_doc j l \<longleftrightarrow>
     (case l of
        None \<Rightarrow> j = None \<or> j = Some JNull
      | Some m \<Rightarrow> \<exists>kvs. j = Some (JObj kvs) \<and> (\<forall>k. map_of kvs k = map_option JStr (m k)))"

definition array_doc :: "(json \<Rightarrow> 'a option) \<Rightarrow> json option \<Rightarrow> 'a list \<Rightarrow> bool" where
  "array_doc dec j xs \<longleftrightarrow> (\<exists>js. j = Some (JArr js) \<and> map dec js = map Some xs)"

definition absent :: "json option \<Rightarrow> bool" where
  "absent j \<longleftrightarrow> j = None \<or> j = Some JNull"

text \<open>
  The members that the handler reads and writes, as the Kubernetes schema lays them out. A nil slice
  or map is an absent or null member; \<open>metadata\<close> and \<open>spec\<close> are there.
\<close>

definition pod_members :: "kubeJson \<Rightarrow> (string \<rightharpoonup> json) \<Rightarrow> (string \<rightharpoonup> json) \<Rightarrow> Pod \<Rightarrow> bool" where
  "pod_members lib md sp p \<longleftrightarrow>
     labels_doc (md ''labels'') (Labels p) \<and>
     (case Volumes p of None \<Rightarrow> absent (sp ''volumes'') | Some vs \<Rightarrow> array_doc (decVolume lib) (sp ''volumes'') vs) \<and>
     (array_doc (decContainer lib) (sp ''containers'') (Containers p) \<or> Containers p = [] \<and> absent (sp ''containers'')) \<and>
     (array_doc (decContainer lib) (sp ''initContainers'') (InitContainers p) \<or>
        InitContainers p = [] \<and> absent (sp ''initContainers''))"

definition pod_doc :: "kubeJson \<Rightarrow> json \<Rightarrow> Pod \<Rightarrow> bool" where
  "pod_doc lib doc p \<longleftrightarrow>
     (\<exists>kvs md sp. doc = JObj kvs \<and> map_of kvs ''metadata'' = Some (JObj md) \<and> map_of kvs ''spec'' = Some (JObj sp) \<and>
        pod_members lib (map_of md) (map_of sp) p)"

text \<open>Nothing but the four members differs.\<close>

definition differ_only :: "string set \<Rightarrow> (string \<rightharpoonup> json) \<Rightarrow> (string \<rightharpoonup> json) \<Rightarrow> bool" where
  "differ_only ks a b \<longleftrightarrow> (\<forall>k. k \<notin> ks \<longrightarrow> a k = b k)"

definition same_elsewhere :: "json \<Rightarrow> json \<Rightarrow> bool" where
  "same_elsewhere doc doc' \<longleftrightarrow>
     (\<exists>kvs md sp kvs' md' sp'. doc = JObj kvs \<and> doc' = JObj kvs' \<and>
        map_of kvs ''metadata'' = Some (JObj md) \<and> map_of kvs ''spec'' = Some (JObj sp) \<and>
        map_of kvs' ''metadata'' = Some (JObj md') \<and> map_of kvs' ''spec'' = Some (JObj sp') \<and>
        differ_only {''metadata'', ''spec''} (map_of kvs) (map_of kvs') \<and>
        differ_only {''labels''} (map_of md) (map_of md') \<and>
        differ_only {''volumes'', ''containers'', ''initContainers''} (map_of sp) (map_of sp'))"

lemma same_elsewhere_refl: "pod_doc lib doc p \<Longrightarrow> same_elsewhere doc doc"
  unfolding pod_doc_def same_elsewhere_def differ_only_def by blast

lemma same_elsewhere_trans:
  assumes "same_elsewhere a b" and "same_elsewhere b c"
  shows "same_elsewhere a c"
proof -
  obtain kvs md sp kvs' md' sp' where ab: "a = JObj kvs" "b = JObj kvs'" "map_of kvs ''metadata'' = Some (JObj md)"
    "map_of kvs ''spec'' = Some (JObj sp)" "map_of kvs' ''metadata'' = Some (JObj md')" "map_of kvs' ''spec'' = Some (JObj sp')"
    "differ_only {''metadata'', ''spec''} (map_of kvs) (map_of kvs')" "differ_only {''labels''} (map_of md) (map_of md')"
    "differ_only {''volumes'', ''containers'', ''initContainers''} (map_of sp) (map_of sp')"
    using assms(1) unfolding same_elsewhere_def by (elim exE conjE) (rule that)
  obtain kvs2 md2 sp2 where c: "c = JObj kvs2" "map_of kvs2 ''metadata'' = Some (JObj md2)" "map_of kvs2 ''spec'' = Some (JObj sp2)"
    "differ_only {''metadata'', ''spec''} (map_of kvs') (map_of kvs2)" "differ_only {''labels''} (map_of md') (map_of md2)"
    "differ_only {''volumes'', ''containers'', ''initContainers''} (map_of sp') (map_of sp2)"
    using assms(2) ab(2,5,6) unfolding same_elsewhere_def by auto
  have "differ_only ks f h" if "differ_only ks f g" "differ_only ks g h" for ks f g h
    using that by (simp add: differ_only_def)
  with ab c show ?thesis
    unfolding same_elsewhere_def by (intro exI conjI) assumption+
qed

section \<open>Writing a member\<close>

lemma json_add_member:
  "map_of kvs a = Some (JObj ms) \<Longrightarrow> json_add [a, k] v (JObj kvs) = Some (JObj (AList.update a (JObj (AList.update k v ms)) kvs))"
  by simp

lemma json_add_inside:
  "map_of kvs a = Some (JObj ms) \<Longrightarrow> map_of ms k = Some j \<Longrightarrow> json_add [x] v j = Some j' \<Longrightarrow>
     json_add [a, k, x] v (JObj kvs) = Some (JObj (AList.update a (JObj (AList.update k j' ms)) kvs))"
  by simp

lemma put_metadata:
  assumes "map_of kvs ''metadata'' = Some (JObj md)" and "map_of kvs ''spec'' = Some (JObj sp)"
    and "pod_members lib ((map_of md)(''labels'' \<mapsto> j)) (map_of sp) q"
  shows "pod_doc lib (JObj (AList.update ''metadata'' (JObj (AList.update ''labels'' j md)) kvs)) q \<and>
    same_elsewhere (JObj kvs) (JObj (AList.update ''metadata'' (JObj (AList.update ''labels'' j md)) kvs))"
  using assms by (simp add: pod_doc_def same_elsewhere_def update_conv' differ_only_def)

lemma put_spec:
  assumes "map_of kvs ''metadata'' = Some (JObj md)" and "map_of kvs ''spec'' = Some (JObj sp)"
    and "pod_members lib (map_of md) ((map_of sp)(k \<mapsto> j)) q" and "k \<in> {''volumes'', ''containers'', ''initContainers''}"
  shows "pod_doc lib (JObj (AList.update ''spec'' (JObj (AList.update k j sp)) kvs)) q \<and>
    same_elsewhere (JObj kvs) (JObj (AList.update ''spec'' (JObj (AList.update k j sp)) kvs))"
  using assms by (auto simp: pod_doc_def same_elsewhere_def update_conv' differ_only_def)

section \<open>Faithful encodings\<close>

text \<open>The codec of the Kubernetes types gives this value a valid tree, and reads it back.\<close>

definition faithful :: "('a \<Rightarrow> string + json) \<Rightarrow> (json \<Rightarrow> 'a option) \<Rightarrow> 'a \<Rightarrow> bool" where
  "faithful enc dec x \<longleftrightarrow> (\<exists>j. enc x = Inr j \<and> dec j = Some x \<and> json_ok 1000 j)"

lemma encode_list_faithful:
  "list_all (faithful enc dec) xs \<Longrightarrow>
     \<exists>js. encode_list enc xs = Inr js \<and> map dec js = map Some xs \<and> list_all (json_ok 1000) js"
  by (induction xs) (auto simp: faithful_def)

primrec value_ok :: "kubeJson \<Rightarrow> patchValue \<Rightarrow> bool" where
  "value_ok lib (VString s) \<longleftrightarrow> valid_utf8 s"
| "value_ok lib (VLabels kvs) \<longleftrightarrow> distinct (map fst kvs) \<and> list_all (\<lambda>(k, v). valid_utf8 k \<and> valid_utf8 v) kvs"
| "value_ok lib (VVolume v) \<longleftrightarrow> faithful (encVolume lib) (decVolume lib) v"
| "value_ok lib (VVolumes vs) \<longleftrightarrow> list_all (faithful (encVolume lib) (decVolume lib)) vs"
| "value_ok lib (VContainers cs) \<longleftrightarrow> list_all (faithful (encContainer lib) (decContainer lib)) cs"

text \<open>The tree of a value, as the place it goes to reads it.\<close>

primrec value_tree :: "kubeJson \<Rightarrow> patchValue \<Rightarrow> json \<Rightarrow> bool" where
  "value_tree lib (VString s) j \<longleftrightarrow> j = JStr s"
| "value_tree lib (VLabels kvs) j \<longleftrightarrow> labels_doc (Some j) (Some (map_of kvs))"
| "value_tree lib (VVolume v) j \<longleftrightarrow> decVolume lib j = Some v"
| "value_tree lib (VVolumes vs) j \<longleftrightarrow> array_doc (decVolume lib) (Some j) vs"
| "value_tree lib (VContainers cs) j \<longleftrightarrow> array_doc (decContainer lib) (Some j) cs"

lemma encode_labels_doc:
  assumes "distinct (map fst kvs)"
  shows "labels_doc (Some (encode_labels kvs)) (Some (map_of kvs))"
proof -
  have "map_of (map (\<lambda>(k, v). (k, JStr v)) xs) k = map_option JStr (map_of xs k)" for xs :: "(string \<times> string) list" and k
    by (induction xs) auto
  moreover have "distinct (map fst (sort_key fst kvs))"
    by (rule card_distinct) (use distinct_card [OF assms] in simp)
  then have "map_of (sort_key fst kvs) = map_of kvs"
    using map_of_inject_set [of "sort_key fst kvs" kvs] assms by simp
  ultimately show ?thesis
    by (simp add: labels_doc_def encode_labels_def)
qed

lemma encode_value_tree:
  assumes "value_ok lib v"
  shows "\<exists>j. encode_value lib v = Inr j \<and> value_tree lib v j \<and> json_ok 1001 j"
proof (cases v)
  case (VLabels kvs)
  then have "\<forall>kv \<in> set (sort_key fst kvs). valid_utf8 (fst kv) \<and> valid_utf8 (snd kv)"
    using assms by (auto simp: list_all_iff)
  then have "json_ok 1001 (encode_labels kvs)"
    by (auto simp: encode_labels_def)
  with VLabels assms show ?thesis
    by (simp add: encode_labels_doc)
next
  case (VVolumes vs)
  with encode_list_faithful [of "encVolume lib" "decVolume lib" vs] assms show ?thesis
    by (auto simp: array_doc_def list_all_iff)
next
  case (VContainers cs)
  with encode_list_faithful [of "encContainer lib" "decContainer lib" cs] assms show ?thesis
    by (auto simp: array_doc_def list_all_iff)
next
  case (VVolume x)
  then obtain j where "encVolume lib x = Inr j" "decVolume lib j = Some x" "json_ok 1000 j"
    using assms by (auto simp: faithful_def)
  with VVolume json_ok_mono [of 1000 j 1001] show ?thesis by simp
qed (use assms in simp)

section \<open>The untyped patch simulates the typed one\<close>

lemma three_elems: "take 2 path = [a, b] \<Longrightarrow> length path = 3 \<Longrightarrow> path = [a, b, path ! 2]"
  by (cases path; cases "tl path"; cases "tl (tl path)") auto

lemma pod_docE:
  assumes "pod_doc lib doc p"
  obtains kvs md sp where "doc = JObj kvs" "map_of kvs ''metadata'' = Some (JObj md)" "map_of kvs ''spec'' = Some (JObj sp)"
    "pod_members lib (map_of md) (map_of sp) p"
  using assms unfolding pod_doc_def by blast

lemma add_label_sim:
  assumes "add_label k v p = Some q" and "value_tree lib v j" and "pod_doc lib doc p"
  shows "\<exists>doc'. json_add [''metadata'', ''labels'', k] j doc = Some doc' \<and> pod_doc lib doc' q \<and> same_elsewhere doc doc'"
proof -
  obtain l s where l: "Labels p = Some l" "v = VString s" "q = p\<lparr>Labels := Some (l(k \<mapsto> s))\<rparr>"
    using assms(1) by (auto simp: add_label_def split: option.splits patchValue.splits)
  from assms(3) obtain kvs md sp where doc: "doc = JObj kvs" "map_of kvs ''metadata'' = Some (JObj md)"
    "map_of kvs ''spec'' = Some (JObj sp)" "pod_members lib (map_of md) (map_of sp) p"
    by (rule pod_docE)
  obtain ls where ls: "map_of md ''labels'' = Some (JObj ls)" "\<forall>k. map_of ls k = map_option JStr (l k)"
    using doc(4) l(1) by (auto simp: pod_members_def labels_doc_def)
  have "pod_members lib ((map_of md)(''labels'' \<mapsto> JObj (AList.update k (JStr s) ls))) (map_of sp) q"
    using doc(4) ls(2) l(3) by (auto simp: pod_members_def labels_doc_def update_conv')
  from put_metadata [OF doc(2,3) this] show ?thesis
    using json_add_inside [OF doc(2) ls(1), of k "JStr s"] assms(2) l(2) doc(1) by simp
qed

lemma add_volume_sim:
  assumes "add_volume i v p = Some q" and "value_tree lib v j" and "pod_doc lib doc p"
  shows "\<exists>doc'. json_add [''spec'', ''volumes'', i] j doc = Some doc' \<and> pod_doc lib doc' q \<and> same_elsewhere doc doc'"
proof -
  obtain vs vol n where v: "Volumes p = Some vs" "v = VVolume vol" "array_index i (length vs) = Some n"
    "q = p\<lparr>Volumes := Some (insert_at n vol vs)\<rparr>"
    using assms(1) by (auto simp: add_volume_def split: option.splits patchValue.splits)
  from assms(3) obtain kvs md sp where doc: "doc = JObj kvs" "map_of kvs ''metadata'' = Some (JObj md)"
    "map_of kvs ''spec'' = Some (JObj sp)" "pod_members lib (map_of md) (map_of sp) p"
    by (rule pod_docE)
  obtain js where js: "map_of sp ''volumes'' = Some (JArr js)" "map (decVolume lib) js = map Some vs"
    using doc(4) v(1) by (auto simp: pod_members_def array_doc_def)
  then have "length js = length vs"
    by (metis length_map)
  then have "json_add [i] j (JArr js) = Some (JArr (insert_at n j js))"
    using v(3) by simp
  moreover have "map (decVolume lib) (insert_at n j js) = map Some (insert_at n vol vs)"
    using js(2) assms(2) v(2) by (simp add: insert_at_def take_map [symmetric] drop_map [symmetric])
  then have "pod_members lib (map_of md) ((map_of sp)(''volumes'' \<mapsto> JArr (insert_at n j js))) q"
    using doc(4) v(4) by (auto simp: pod_members_def array_doc_def)
  ultimately show ?thesis
    using json_add_inside [OF doc(3) js(1)] put_spec [OF doc(2,3)] doc(1) by fastforce
qed

lemma pod_members_put:
  assumes "pod_members lib md sp p"
  shows "labels_doc (Some j) l \<Longrightarrow> pod_members lib (md(''labels'' \<mapsto> j)) sp (p\<lparr>Labels := l\<rparr>)"
    and "array_doc (decVolume lib) (Some j) vs \<Longrightarrow> pod_members lib md (sp(''volumes'' \<mapsto> j)) (p\<lparr>Volumes := Some vs\<rparr>)"
    and "array_doc (decContainer lib) (Some j) cs \<Longrightarrow> pod_members lib md (sp(''containers'' \<mapsto> j)) (p\<lparr>Containers := cs\<rparr>)"
    and "array_doc (decContainer lib) (Some j) cs \<Longrightarrow>
      pod_members lib md (sp(''initContainers'' \<mapsto> j)) (p\<lparr>InitContainers := cs\<rparr>)"
  using assms by (auto simp: pod_members_def split: option.splits)

lemma add_member_sim:
  assumes "pod_doc lib doc p"
  shows "labels_doc (Some j) l \<Longrightarrow>
      \<exists>doc'. json_add [''metadata'', ''labels''] j doc = Some doc' \<and> pod_doc lib doc' (p\<lparr>Labels := l\<rparr>) \<and> same_elsewhere doc doc'"
    and "array_doc (decVolume lib) (Some j) vs \<Longrightarrow>
      \<exists>doc'. json_add [''spec'', ''volumes''] j doc = Some doc' \<and> pod_doc lib doc' (p\<lparr>Volumes := Some vs\<rparr>) \<and> same_elsewhere doc doc'"
    and "array_doc (decContainer lib) (Some j) cs \<Longrightarrow>
      \<exists>doc'. json_add [''spec'', ''containers''] j doc = Some doc' \<and> pod_doc lib doc' (p\<lparr>Containers := cs\<rparr>) \<and> same_elsewhere doc doc'"
    and "array_doc (decContainer lib) (Some j) cs \<Longrightarrow>
      \<exists>doc'. json_add [''spec'', ''initContainers''] j doc = Some doc' \<and> pod_doc lib doc' (p\<lparr>InitContainers := cs\<rparr>) \<and> same_elsewhere doc doc'"
proof -
  from assms obtain kvs md sp where doc: "doc = JObj kvs" "map_of kvs ''metadata'' = Some (JObj md)"
    "map_of kvs ''spec'' = Some (JObj sp)" "pod_members lib (map_of md) (map_of sp) p"
    by (rule pod_docE)
  note put = pod_members_put [OF doc(4)]
    and add = json_add_member [OF doc(2)] json_add_member [OF doc(3)]
  show "\<exists>doc'. json_add [''metadata'', ''labels''] j doc = Some doc' \<and> pod_doc lib doc' (p\<lparr>Labels := l\<rparr>) \<and> same_elsewhere doc doc'"
    if "labels_doc (Some j) l"
    unfolding doc(1) add(1) using put_metadata [OF doc(2,3) put(1) [OF that]] by blast
  show "\<exists>doc'. json_add [''spec'', ''volumes''] j doc = Some doc' \<and> pod_doc lib doc' (p\<lparr>Volumes := Some vs\<rparr>) \<and> same_elsewhere doc doc'"
    if "array_doc (decVolume lib) (Some j) vs"
    unfolding doc(1) add(2) using put_spec [OF doc(2,3) put(2) [OF that]] by blast
  show "\<exists>doc'. json_add [''spec'', ''containers''] j doc = Some doc' \<and> pod_doc lib doc' (p\<lparr>Containers := cs\<rparr>) \<and> same_elsewhere doc doc'"
    if "array_doc (decContainer lib) (Some j) cs"
    unfolding doc(1) add(2) using put_spec [OF doc(2,3) put(3) [OF that]] by blast
  show "\<exists>doc'. json_add [''spec'', ''initContainers''] j doc = Some doc' \<and> pod_doc lib doc' (p\<lparr>InitContainers := cs\<rparr>) \<and> same_elsewhere doc doc'"
    if "array_doc (decContainer lib) (Some j) cs"
    unfolding doc(1) add(2) using put_spec [OF doc(2,3) put(4) [OF that]] by blast
qed

lemma add_sim:
  assumes "add_at path v p = Some q" and "value_tree lib v j" and "pod_doc lib doc p"
  shows "\<exists>doc'. json_add path j doc = Some doc' \<and> pod_doc lib doc' q \<and> same_elsewhere doc doc'"
proof -
  note add = assms(1) [unfolded add_at_def] and whole = add_member_sim [OF assms(3)]
  consider (labels) "path = [''metadata'', ''labels'']"
    | (label) "take 2 path = [''metadata'', ''labels''] \<and> length path = 3" "path \<noteq> [''metadata'', ''labels'']"
    | (volumes) "path = [''spec'', ''volumes'']"
    | (volume) "take 2 path = [''spec'', ''volumes''] \<and> length path = 3" "path \<noteq> [''spec'', ''volumes'']"
    | (containers) "path = [''spec'', ''containers'']" | (init) "path = [''spec'', ''initContainers'']"
    using add by (metis option.distinct(1))
  then show ?thesis
  proof cases
    case labels
    with add obtain kvs where "v = VLabels kvs" "q = p\<lparr>Labels := Some (map_of kvs)\<rparr>"
      by (cases v) simp_all
    with whole(1) assms(2) labels show ?thesis by simp
  next
    case label
    then have "add_label (path ! 2) v p = Some q"
      using add by simp
    from add_label_sim [OF this assms(2,3)] show ?thesis
      using three_elems [of path] label(1) by metis
  next
    case volumes
    with add obtain vs where "v = VVolumes vs" "q = p\<lparr>Volumes := Some vs\<rparr>"
      by (cases v) simp_all
    with whole(2) assms(2) volumes show ?thesis by simp
  next
    case volume
    then have "path \<noteq> [''metadata'', ''labels'']" by auto
    with volume have "add_volume (path ! 2) v p = Some q"
      using add by simp
    from add_volume_sim [OF this assms(2,3)] show ?thesis
      using three_elems [of path] volume(1) by metis
  next
    case containers
    with add obtain cs where "v = VContainers cs" "q = p\<lparr>Containers := cs\<rparr>"
      by (cases v) simp_all
    with whole(3) assms(2) containers show ?thesis by simp
  next
    case init
    with add obtain cs where "v = VContainers cs" "q = p\<lparr>InitContainers := cs\<rparr>"
      by (cases v) simp_all
    with whole(4) assms(2) init show ?thesis by simp
  qed
qed

text \<open>An operation whose strings are valid UTF-8 and whose value is encoded faithfully.\<close>

definition op_ok :: "kubeJson \<Rightarrow> patchOperation \<Rightarrow> bool" where
  "op_ok lib op \<longleftrightarrow> valid_utf8 (Op op) \<and> valid_utf8 (Path op) \<and> value_ok lib (Value op)"

lemma op_sim:
  assumes "apply_typed op p = Some q" and "op_ok lib op" and "pod_doc lib doc p"
  shows "\<exists>j doc'. encode_op lib op = Inr j \<and> json_ok 1002 j \<and> json_op j doc = Some doc' \<and> pod_doc lib doc' q \<and>
    same_elsewhere doc doc'"
proof -
  obtain path where path: "Op op = ''add''" "parse_pointer (Path op) = Some path" "add_at path (Value op) p = Some q"
    using assms(1) by (auto simp: apply_typed_def bind_eq_Some_conv split: if_splits)
  obtain v where v: "encode_value lib (Value op) = Inr v" "value_tree lib (Value op) v" "json_ok 1001 v"
    using encode_value_tree assms(2) by (auto simp: op_ok_def)
  obtain doc' where doc': "json_add path v doc = Some doc'" "pod_doc lib doc' q" "same_elsewhere doc doc'"
    using add_sim [OF path(3) v(2) assms(3)] by blast
  let ?j = "JObj [(''op'', JStr (Op op)), (''path'', JStr (Path op)), (''value'', v)]"
  have "valid_utf8 ''op''" "valid_utf8 ''path''" "valid_utf8 ''value''"
    by code_simp+
  then have "json_ok 1002 ?j"
    using assms(2) v(3) by (simp add: op_ok_def)
  moreover have "encode_op lib op = Inr ?j" "json_op ?j doc = Some doc'"
    using v(1) path doc'(1) by (simp_all add: encode_op_def json_op_def)
  ultimately show ?thesis
    using doc'(2,3) by blast
qed

lemma ops_sim:
  assumes "apply_all ops p = Some q" and "list_all (op_ok lib) ops" and "pod_doc lib doc p"
  shows "\<exists>js doc'. encode_list (encode_op lib) ops = Inr js \<and> list_all (json_ok 1002) js \<and> json_ops js doc = Some doc' \<and>
    pod_doc lib doc' q \<and> same_elsewhere doc doc'"
  using assms
proof (induction ops arbitrary: p doc)
  case Nil
  then show ?case by (simp add: same_elsewhere_refl)
next
  case (Cons op ops)
  then obtain p1 where p1: "apply_typed op p = Some p1" "apply_all ops p1 = Some q"
    by (auto simp: bind_eq_Some_conv)
  obtain j d1 where d1: "encode_op lib op = Inr j" "json_ok 1002 j" "json_op j doc = Some d1" "pod_doc lib d1 p1"
    "same_elsewhere doc d1"
    using op_sim [OF p1(1) _ Cons.prems(3)] Cons.prems(2) by fastforce
  from Cons.IH [OF p1(2) _ d1(4)] obtain js d2 where "encode_list (encode_op lib) ops = Inr js" "list_all (json_ok 1002) js"
    "json_ops js d1 = Some d2" "pod_doc lib d2 q" "same_elsewhere d1 d2"
    using Cons.prems by auto
  with d1 show ?case
    using same_elsewhere_trans by auto
qed

lemma patch_ops_ok:
  assumes "faithful (encVolume lib) (decVolume lib) (tokenVolume cfg)"
    and "list_all (faithful (encContainer lib) (decContainer lib)) (Containers (mutated m p cfg) @ InitContainers (mutated m p cfg))"
  shows "list_all (op_ok lib) (fst (getPodSpecPatch m p cfg))"
proof -
  have "valid_utf8 ''add''" "valid_utf8 ''enabled''" "valid_utf8 ''eks.amazonaws.com/pod-identity''" "valid_utf8 ''/metadata/labels''"
    "valid_utf8 ''/metadata/labels/eks.amazonaws.com~1pod-identity''" "valid_utf8 ''/spec/volumes''" "valid_utf8 ''/spec/volumes/0''"
    "valid_utf8 ''/spec/containers''" "valid_utf8 ''/spec/initContainers''"
    by code_simp+
  with assms show ?thesis
    by (simp add: getPodSpecPatch_eq labelPatch_def volumePatch_def op_ok_def mutated_def)
qed

lemma patch_bytes:
  assumes "faithful (encVolume lib) (decVolume lib) (tokenVolume cfg)"
    and "list_all (faithful (encContainer lib) (decContainer lib)) (Containers (mutated m p cfg) @ InitContainers (mutated m p cfg))"
    and "pod_doc lib doc p"
  shows "\<exists>bytes doc'. marshalOps lib (fst (getPodSpecPatch m p cfg)) = Inr bytes \<and> json_patch bytes doc = Some doc' \<and>
    pod_doc lib doc' (mutated m p cfg) \<and> same_elsewhere doc doc'"
proof -
  obtain js doc' where js: "encode_list (encode_op lib) (fst (getPodSpecPatch m p cfg)) = Inr js" "list_all (json_ok 1002) js"
    "json_ops js doc = Some doc'" "pod_doc lib doc' (mutated m p cfg)" "same_elsewhere doc doc'"
    using ops_sim [OF patch_applies patch_ops_ok [OF assms(1,2)] assms(3)] by blast
  have "json_ok max_depth (JArr js)"
    using js(2) json_ok_mono [of 1002 _ 9999] by (auto simp: max_depth_def list_all_iff)
  then have "json_patch (Marshal (JArr js)) doc = Some doc'"
    using js(3) by (simp add: json_patch_def parse_compact)
  with js show ?thesis
    by (auto simp: marshalOps_def)
qed

section \<open>Claims\<close>

text \<open>
  C12. What the API server makes of the bytes. Let the codec of the Kubernetes types encode the
  token volume and the patched containers faithfully, and let \<open>doc\<close> be the JSON document of the pod.
  Then the patch can be encoded, the bytes parse as a list of operations that apply to the
  document one after the other under the rules of RFC 6902, with every path resolved and every
  index in range, and the result is a document of the mutated pod that differs from the old one in
  no member but the labels, the volumes and the two lists of containers.
\<close>

theorem patch_bytes_effect:
  assumes "faithful (encVolume lib) (decVolume lib) (tokenVolume cfg)"
    and "list_all (faithful (encContainer lib) (decContainer lib)) (Containers (mutated m p cfg) @ InitContainers (mutated m p cfg))"
    and "pod_doc lib doc p"
  shows "\<exists>bytes doc'. marshalOps lib (fst (getPodSpecPatch m p cfg)) = Inr bytes \<and> json_patch bytes doc = Some doc' \<and>
    pod_doc lib doc' (mutated m p cfg) \<and> same_elsewhere doc doc'"
  by (rule patch_bytes [OF assms])

text \<open>A pod with one container; the codec knows the two containers and the volume that occur.\<close>

definition plainContainer :: Container where
  "plainContainer = \<lparr>cName = ''app'', Env = [], VolumeMounts = [], cRest = []\<rparr>"

definition plainPod :: Pod where
  "plainPod = examplePod\<lparr>Containers := [plainContainer], InitContainers := [], Volumes := None, Labels := None\<rparr>"

definition plainCodec :: "('c, 'k) Modifier \<Rightarrow> podPatchConfig \<Rightarrow> kubeJson" where
  "plainCodec m cfg =
     \<lparr>encVolume = (\<lambda>v. Inr (JStr (vName v))), encContainer = (\<lambda>c. Inr (JBool (c = plainContainer))),
      decVolume = (\<lambda>j. Some (tokenVolume cfg)),
      decContainer = (\<lambda>j. Some (if j = JBool True then plainContainer else hd (Containers (mutated m plainPod cfg))))\<rparr>"

definition plainDoc :: json where
  "plainDoc = JObj [(''kind'', JStr ''Pod''), (''metadata'', JObj [(''name'', JStr ''p'')]),
     (''spec'', JObj [(''containers'', JArr [JBool True])])]"

lemma plainCodec_ok:
  shows "valid_utf8 (VolumeName cfg) \<Longrightarrow>
      faithful (encVolume (plainCodec m cfg)) (decVolume (plainCodec m cfg)) (tokenVolume cfg)"
    and "list_all (faithful (encContainer (plainCodec m cfg)) (decContainer (plainCodec m cfg)))
      (Containers (mutated m plainPod cfg) @ InitContainers (mutated m plainPod cfg))"
    and "pod_doc (plainCodec m cfg) plainDoc plainPod"
proof -
  show "faithful (encVolume (plainCodec m cfg)) (decVolume (plainCodec m cfg)) (tokenVolume cfg)" if "valid_utf8 (VolumeName cfg)"
    using that by (simp add: faithful_def plainCodec_def tokenVolume_def)
  obtain c where "Containers (mutated m plainPod cfg) = [c]" "InitContainers (mutated m plainPod cfg) = []"
    by (simp add: mutated_def mutatedContainers_def plainPod_def)
  then show "list_all (faithful (encContainer (plainCodec m cfg)) (decContainer (plainCodec m cfg)))
      (Containers (mutated m plainPod cfg) @ InitContainers (mutated m plainPod cfg))"
    by (simp add: faithful_def plainCodec_def)
  show "pod_doc (plainCodec m cfg) plainDoc plainPod"
    by (simp add: pod_doc_def plainDoc_def pod_members_def plainPod_def labels_doc_def absent_def array_doc_def plainCodec_def)
qed

theorem patch_bytes_effect_witness:
  "\<exists>bytes doc'. marshalOps (plainCodec exampleModifier exampleConfig) (fst (getPodSpecPatch exampleModifier plainPod exampleConfig)) =
       Inr bytes \<and> json_patch bytes plainDoc = Some doc' \<and>
     pod_doc (plainCodec exampleModifier exampleConfig) doc' (mutated exampleModifier plainPod exampleConfig)"
proof -
  have "valid_utf8 (VolumeName exampleConfig)"
    by code_simp
  from patch_bytes_effect [OF plainCodec_ok(1) [OF this] plainCodec_ok(2,3)] show ?thesis by blast
qed

end
