(* ===== verification/System.thy ===== *)
theory System
  imports ConfigMapProps
begin

text \<open>
  The goroutines around the cache as a transition system: the informer's handlers, the handler
  threads that look accounts up, the goroutine that receives fetch requests, the fetches in
  flight, and the debug handler that clears the cache. A step is one critical section of the
  source: \<open>getSA\<close>, \<open>getCM\<close>, \<open>setSA\<close>, \<open>popSA\<close>, \<open>setCM\<close> and \<open>popCM\<close> each hold the lock, and
  \<open>Get\<close> runs up to three of them, between which others may run. The ConfigMap handler is
  given every sequence of \<open>setCM\<close> and \<open>popCM\<close> steps, which includes the ones it takes.

  The goroutine that receives fetch requests and the fetches it starts are a relation of their own,
  \<open>fetcher_step\<close>, so that progress can be claimed of them without help from the informer. The
  relation \<open>step\<close> does not keep track of a lookup that is blocked in its send on the full queue,
  with both locks held: \<open>unlocked_step\<close> has the steps that need no lock such a lookup holds.

  Reachable states satisfy the invariant of the cache, so that no channel is closed twice; no
  waiting thread is forgotten; and for every account that is waited for a fetch is queued,
  in flight, or has failed.
\<close>

section \<open>States\<close>

text \<open>
  A lookup: after \<open>getSA\<close> (with the entry and the notifier it returned), after the first
  \<open>getCM\<close> found nothing, and finished with its response.
\<close>

datatype lookup =
    AfterSA Request "Entry option" "chan option"
  | AfterCM Request "Entry option" "chan option"
  | Answered Request Response

record system =
  sysCache :: serviceAccountCache
  lookups :: "nat \<rightharpoonup> lookup"
  fetching :: "Request list"
  failed :: "Request set"

definition start :: "string \<Rightarrow> string \<Rightarrow> bool \<Rightarrow> int64 \<Rightarrow> ComposeRoleArn \<Rightarrow> system" where
  "start aud pfx regional expiration compose =
     \<lparr>sysCache = New aud pfx regional expiration compose, lookups = Map.empty, fetching = [], failed = {}\<rparr>"

section \<open>The steps of a lookup\<close>

definition base_response :: "Entry option \<Rightarrow> chan option \<Rightarrow> Response" where
  "base_response entry ch = emptyResponse\<lparr>Notifier := ch, FoundInCache := (entry \<noteq> None)\<rparr>"

definition after_getSA :: "Request \<Rightarrow> Entry option \<Rightarrow> chan option \<Rightarrow> lookup" where
  "after_getSA req entry ch =
     (case entry of
        Some e \<Rightarrow> if eRoleARN e \<noteq> [] then Answered req (fromEntry e (base_response entry ch)) else AfterSA req entry ch
      | None \<Rightarrow> AfterSA req entry ch)"

definition cm_found :: "Entry \<Rightarrow> Entry option \<Rightarrow> chan option \<Rightarrow> Response" where
  "cm_found e entry ch = fromEntry e ((base_response entry ch)\<lparr>FoundInCache := True\<rparr>)"

fun lookup_step :: "serviceAccountCache \<Rightarrow> lookup \<Rightarrow> lookup" where
  "lookup_step c (AfterSA req entry ch) =
     (case getCM c (reqName req) (reqNamespace req) of
        Some e \<Rightarrow> Answered req (cm_found e entry ch)
      | None \<Rightarrow> AfterCM req entry ch)"
| "lookup_step c (AfterCM req entry ch) =
     (case getCM c (reqName req) ''*'' of
        Some e \<Rightarrow> Answered req (cm_found e entry ch)
      | None \<Rightarrow> Answered req (base_response entry ch))"
| "lookup_step c (Answered req resp) = Answered req resp"

fun lookup_request :: "lookup \<Rightarrow> Request" where
  "lookup_request (AfterSA req entry ch) = req"
| "lookup_request (AfterCM req entry ch) = req"
| "lookup_request (Answered req resp) = req"

fun lookup_chan :: "lookup \<Rightarrow> chan option" where
  "lookup_chan (AfterSA req entry ch) = ch"
| "lookup_chan (AfterCM req entry ch) = ch"
| "lookup_chan (Answered req resp) = Notifier resp"

text \<open>With no step of another goroutine in between, the steps compute \<open>Get\<close>.\<close>

lemma lookup_steps_Get:
  assumes "getSA c req = Ok (c', entry, ch)"
  shows "Get c req = Ok (c', resp) \<longleftrightarrow>
    lookup_step c' (lookup_step c' (after_getSA req entry ch)) = Answered req resp"
  using assms
  by (auto simp: Get_def after_getSA_def cm_lookup_def base_response_def cm_found_def Let_def
           split: option.splits)

section \<open>The transition system\<close>

text \<open>The receiver takes the first request off the queue and starts a goroutine for it. It takes no lock.\<close>

definition receiver_step :: "system \<Rightarrow> system \<Rightarrow> bool" where
  "receiver_step s s' \<longleftrightarrow>
     (\<exists>req n'. receive (notifs (sysCache s)) = Some (req, n') \<and>
        s' = s\<lparr>sysCache := (sysCache s)\<lparr>notifs := n'\<rparr>, fetching := fetching s @ [req]\<rparr>)"

text \<open>The receiver and the goroutines it starts.\<close>

inductive fetcher_step :: "system \<Rightarrow> system \<Rightarrow> bool" where
  received: "receiver_step s s' \<Longrightarrow> fetcher_step s s'"
| fetched:
    "req \<in> set (fetching s) \<Longrightarrow> saName sa = reqName req \<Longrightarrow> saNamespace sa = reqNamespace req \<Longrightarrow>
     on_fetched (sysCache s) (Some sa) = Ok c' \<Longrightarrow>
     fetcher_step s (s\<lparr>sysCache := c', fetching := remove1 req (fetching s)\<rparr>)"
| fetch_failed:
    "req \<in> set (fetching s) \<Longrightarrow> on_fetched (sysCache s) None = Ok c' \<Longrightarrow>
     fetcher_step s (s\<lparr>sysCache := c', fetching := remove1 req (fetching s), failed := insert req (failed s)\<rparr>)"

inductive step :: "system \<Rightarrow> system \<Rightarrow> bool" where
  begin_lookup:
    "lookups s t = None \<Longrightarrow> getSA (sysCache s) req = Ok (c', entry, ch) \<Longrightarrow>
     step s (s\<lparr>sysCache := c', lookups := (lookups s)(t \<mapsto> after_getSA req entry ch)\<rparr>)"
| go_on:
    "lookups s t = Some l \<Longrightarrow>
     step s (s\<lparr>lookups := (lookups s)(t \<mapsto> lookup_step (sysCache s) l)\<rparr>)"
| finish: "step s (s\<lparr>lookups := (lookups s)(t := None)\<rparr>)"
| sa_added: "addSA (sysCache s) sa = Ok c' \<Longrightarrow> step s (s\<lparr>sysCache := c'\<rparr>)"
| sa_removed: "step s (s\<lparr>sysCache := popSA (sysCache s) name namespace\<rparr>)"
| cm_set: "step s (s\<lparr>sysCache := setCM (sysCache s) name namespace entry\<rparr>)"
| cm_removed: "step s (s\<lparr>sysCache := popCM (sysCache s) name namespace\<rparr>)"
| cleared: "step s (s\<lparr>sysCache := Clear (sysCache s)\<rparr>)"
| fetcher: "fetcher_step s s' \<Longrightarrow> step s s'"

text \<open>
  The steps that are possible while a lookup is blocked in \<open>create\<close>, which holds the registry's lock
  and, for reading, the cache's: lookups that register nothing, reading the ConfigMap's table, the end of
  a request, a fetch that fails, and \<open>Clear\<close>, which takes no lock. The receiver is left out.
\<close>

inductive unlocked_step :: "system \<Rightarrow> system \<Rightarrow> bool" where
  read_begin:
    "lookups s t = None \<Longrightarrow> getSA (sysCache s) req = Ok (sysCache s, entry, None) \<Longrightarrow>
     unlocked_step s (s\<lparr>lookups := (lookups s)(t \<mapsto> after_getSA req entry None)\<rparr>)"
| read_on:
    "lookups s t = Some l \<Longrightarrow>
     unlocked_step s (s\<lparr>lookups := (lookups s)(t \<mapsto> lookup_step (sysCache s) l)\<rparr>)"
| read_finish: "unlocked_step s (s\<lparr>lookups := (lookups s)(t := None)\<rparr>)"
| unlocked_clear: "unlocked_step s (s\<lparr>sysCache := Clear (sysCache s)\<rparr>)"
| unlocked_failure:
    "req \<in> set (fetching s) \<Longrightarrow> on_fetched (sysCache s) None = Ok c' \<Longrightarrow>
     unlocked_step s (s\<lparr>sysCache := c', fetching := remove1 req (fetching s), failed := insert req (failed s)\<rparr>)"

inductive reachable :: "system \<Rightarrow> bool" where
  init: "reachable (start aud pfx regional expiration compose)"
| more: "reachable s \<Longrightarrow> step s s' \<Longrightarrow> reachable s'"

inductive_cases stepE: "step s s'"

text \<open>One case for every kind of step.\<close>

lemma step_cases [consumes 1]:
  assumes "step s s'"
  obtains (begin_lookup) t req c' entry ch
      where "s' = s\<lparr>sysCache := c', lookups := (lookups s)(t \<mapsto> after_getSA req entry ch)\<rparr>"
        "lookups s t = None" "getSA (sysCache s) req = Ok (c', entry, ch)"
  | (go_on) t l where "s' = s\<lparr>lookups := (lookups s)(t \<mapsto> lookup_step (sysCache s) l)\<rparr>" "lookups s t = Some l"
  | (finish) t where "s' = s\<lparr>lookups := (lookups s)(t := None)\<rparr>"
  | (sa_added) sa c' where "s' = s\<lparr>sysCache := c'\<rparr>" "addSA (sysCache s) sa = Ok c'"
  | (sa_removed) name namespace where "s' = s\<lparr>sysCache := popSA (sysCache s) name namespace\<rparr>"
  | (cm_set) name namespace entry where "s' = s\<lparr>sysCache := setCM (sysCache s) name namespace entry\<rparr>"
  | (cm_removed) name namespace where "s' = s\<lparr>sysCache := popCM (sysCache s) name namespace\<rparr>"
  | (cleared) "s' = s\<lparr>sysCache := Clear (sysCache s)\<rparr>"
  | (received) req n' where "s' = s\<lparr>sysCache := (sysCache s)\<lparr>notifs := n'\<rparr>, fetching := fetching s @ [req]\<rparr>"
      "receive (notifs (sysCache s)) = Some (req, n')"
  | (fetched) req sa c' where "s' = s\<lparr>sysCache := c', fetching := remove1 req (fetching s)\<rparr>"
      "req \<in> set (fetching s)" "saName sa = reqName req" "saNamespace sa = reqNamespace req"
      "on_fetched (sysCache s) (Some sa) = Ok c'"
  | (fetch_failed) req c'
      where "s' = s\<lparr>sysCache := c', fetching := remove1 req (fetching s), failed := insert req (failed s)\<rparr>"
        "req \<in> set (fetching s)" "on_fetched (sysCache s) None = Ok c'"
  using assms
proof cases
  case fetcher
  then show thesis
    by cases (auto simp: receiver_step_def intro: received fetched fetch_failed)
qed (auto intro: that)

lemma fetcher_steps: "fetcher_step\<^sup>*\<^sup>* s s' \<Longrightarrow> step\<^sup>*\<^sup>* s s'"
  by (erule rtranclp_mono [THEN predicate2D, rotated]) (auto intro: step.fetcher)

section \<open>The invariant\<close>

definition waits_ok :: "system \<Rightarrow> bool" where
  "waits_ok s \<longleftrightarrow>
     (\<forall>t l ch. lookups s t = Some l \<longrightarrow> lookup_chan l = Some ch \<longrightarrow>
        ch \<in> closedChans (notifs (sysCache s)) \<or>
        handlers (notifs (sysCache s)) (CacheKey (lookup_request l)) = Some ch)"

definition fetch_ok :: "system \<Rightarrow> bool" where
  "fetch_ok s \<longleftrightarrow>
     (\<forall>k ch. handlers (notifs (sysCache s)) k = Some ch \<longrightarrow>
        (\<exists>r \<in> set (fetchRequests (notifs (sysCache s))) \<union> set (fetching s) \<union> failed s. CacheKey r = k))"

definition sys_inv :: "system \<Rightarrow> bool" where
  "sys_inv s \<longleftrightarrow> cache_inv (sysCache s) \<and> waits_ok s \<and> fetch_ok s"

lemma after_getSA_sel [simp]:
  "lookup_request (after_getSA req entry ch) = req" "lookup_chan (after_getSA req entry ch) = ch"
  by (auto simp: after_getSA_def base_response_def fromEntry_def split: option.split)

lemma lookup_step_sel [simp]:
  "lookup_request (lookup_step c l) = lookup_request l" "lookup_chan (lookup_step c l) = lookup_chan l"
  by (cases l; simp add: base_response_def cm_found_def fromEntry_def split: option.split)+

text \<open>What adding an account does to the registry.\<close>

lemma addSA_registry:
  assumes "addSA c sa = Ok c'"
  shows "handlers (notifs c') = (handlers (notifs c))(cache_key (saNamespace sa) (saName sa) := None)"
    and "closedChans (notifs c') =
      closedChans (notifs c) \<union> set_option (handlers (notifs c) (cache_key (saNamespace sa) (saName sa)))"
    and "fetchRequests (notifs c') = fetchRequests (notifs c)"
proof -
  obtain n where b: "broadcast (notifs c) (cache_key (saNamespace sa) (saName sa)) = Ok n" and "notifs c' = n"
    using assms by (auto elim!: addSA_Ok)
  with nt.wake_waiting [OF b] nt.wake_woken [OF b] broadcast_frame [OF b]
  show "handlers (notifs c') = (handlers (notifs c))(cache_key (saNamespace sa) (saName sa) := None)"
    and "closedChans (notifs c') =
      closedChans (notifs c) \<union> set_option (handlers (notifs c) (cache_key (saNamespace sa) (saName sa)))"
    and "fetchRequests (notifs c') = fetchRequests (notifs c)"
    by simp_all
qed

lemma getSA_quiet_or_registered:
  assumes "getSA c req = Ok (c', entry, ch)"
  obtains (quiet) "c' = c" "ch = None"
  | (registered) n x where "create (notifs c) req = Ok (n, x)" "c' = c\<lparr>notifs := n\<rparr>" "ch = Some x"
proof (cases "saCache c (CacheKey req) = None \<and> RequestNotification req")
  case True
  then obtain n x where "create (notifs c) req = Ok (n, x)" and "c' = c\<lparr>notifs := n\<rparr>" and "ch = Some x"
    using assms unfolding getSA_def go_bind_eq_Ok by (simp add: go_bind_eq_Ok) blast
  then show thesis by (rule registered)
next
  case False
  with assms have "c' = c" and "ch = None"
    by (simp_all add: getSA_def split: if_splits)
  then show thesis by (rule quiet)
qed

lemma create_keeps_registered:
  "create n req = Ok (n', x) \<Longrightarrow> handlers n k = Some y \<Longrightarrow> handlers n' k = Some y"
  using create_handlers [of n req n' x] nt.register_again [of n req y] by (cases "k = CacheKey req") auto

lemma create_asks:
  "create n req = Ok (n', x) \<Longrightarrow> handlers n' k \<noteq> None \<Longrightarrow> handlers n k \<noteq> None \<or> k = CacheKey req \<and> req \<in> set (fetchRequests n')"
  using create_handlers [of n req n' x] create_requests [of n req n' x] by (auto split: if_splits)

section \<open>Every step keeps the invariant\<close>

lemma waits_ok_mono:
  assumes "waits_ok s" and "lookups s' \<subseteq>\<^sub>m lookups s"
    and "closedChans (notifs (sysCache s)) \<subseteq> closedChans (notifs (sysCache s'))"
    and "\<And>k ch. handlers (notifs (sysCache s)) k = Some ch \<Longrightarrow>
      handlers (notifs (sysCache s')) k = Some ch \<or> ch \<in> closedChans (notifs (sysCache s'))"
  shows "waits_ok s'"
  using assms unfolding waits_ok_def map_le_def by (metis domI subsetD)

lemma fetch_ok_mono:
  assumes "fetch_ok s"
    and "\<And>k. handlers (notifs (sysCache s')) k \<noteq> None \<Longrightarrow> handlers (notifs (sysCache s)) k \<noteq> None \<or>
      (\<exists>r \<in> set (fetchRequests (notifs (sysCache s'))). CacheKey r = k)"
    and "\<And>r. r \<in> set (fetchRequests (notifs (sysCache s))) \<union> set (fetching s) \<union> failed s \<Longrightarrow>
      handlers (notifs (sysCache s')) (CacheKey r) \<noteq> None \<Longrightarrow>
      r \<in> set (fetchRequests (notifs (sysCache s'))) \<union> set (fetching s') \<union> failed s'"
  shows "fetch_ok s'"
  unfolding fetch_ok_def
proof (intro allI impI)
  fix k ch
  assume h: "handlers (notifs (sysCache s')) k = Some ch"
  then consider x where "handlers (notifs (sysCache s)) k = Some x"
    | r where "r \<in> set (fetchRequests (notifs (sysCache s')))" "CacheKey r = k"
    using assms(2) [of k] by auto
  then show "\<exists>r \<in> set (fetchRequests (notifs (sysCache s'))) \<union> set (fetching s') \<union> failed s'. CacheKey r = k"
  proof cases
    case 1
    then obtain r where "r \<in> set (fetchRequests (notifs (sysCache s))) \<union> set (fetching s) \<union> failed s" "CacheKey r = k"
      using assms(1) unfolding fetch_ok_def by blast
    with assms(3) [of r] h show ?thesis by blast
  qed blast
qed

lemma start_inv: "sys_inv (start aud pfx regional expiration compose)"
  by (simp add: sys_inv_def start_def waits_ok_def fetch_ok_def New_inv)
     (simp add: New_def newNotifications_def)

lemma begin_lookup_inv:
  assumes "sys_inv s" and "getSA (sysCache s) req = Ok (c', entry, ch)"
  shows "sys_inv (s\<lparr>sysCache := c', lookups := (lookups s)(t \<mapsto> after_getSA req entry ch)\<rparr>)"
proof -
  have inv: "cache_inv c'"
    using getSA_inv assms by (auto simp: sys_inv_def)
  from assms(2) show ?thesis
  proof (cases rule: getSA_quiet_or_registered)
    case quiet
    with assms(1) inv show ?thesis
      by (auto simp: sys_inv_def waits_ok_def fetch_ok_def)
  next
    case (registered n x)
    note keep = create_keeps_registered [OF registered(1)] and asks = create_asks [OF registered(1)]
    have closed: "closedChans n = closedChans (notifs (sysCache s))" and reg: "handlers n (CacheKey req) = Some x"
      and reqs: "set (fetchRequests (notifs (sysCache s))) \<subseteq> set (fetchRequests n)"
      using create_frame [OF registered(1)] create_registers [OF registered(1)] create_requests [OF registered(1)] by auto
    have "waits_ok (s\<lparr>sysCache := c'\<rparr>)"
      by (rule waits_ok_mono [of s]) (use assms(1) keep closed registered in \<open>auto simp: sys_inv_def\<close>)
    then have "waits_ok (s\<lparr>sysCache := c', lookups := (lookups s)(t \<mapsto> after_getSA req entry ch)\<rparr>)"
      using reg registered by (auto simp: waits_ok_def)
    moreover have "fetch_ok (s\<lparr>sysCache := c', lookups := (lookups s)(t \<mapsto> after_getSA req entry ch)\<rparr>)"
      by (rule fetch_ok_mono [of s]) (use assms(1) asks reqs registered in \<open>auto simp: sys_inv_def\<close>)
    ultimately show ?thesis
      using inv by (simp add: sys_inv_def)
  qed
qed

text \<open>Adding an account wakes the threads that wait for it; a fetch that ends this way is done.\<close>

lemma added_inv:
  assumes "sys_inv s" and "addSA (sysCache s) sa = Ok c'" and "set (fetching s) - {r} \<subseteq> set fs"
    and "CacheKey r = cache_key (saNamespace sa) (saName sa) \<or> set (fetching s) \<subseteq> set fs"
  shows "sys_inv (s\<lparr>sysCache := c', fetching := fs\<rparr>)"
proof -
  note reg = addSA_registry [OF assms(2)]
  have "cache_inv c'"
    using addSA_inv assms(1,2) by (auto simp: sys_inv_def)
  moreover have "waits_ok (s\<lparr>sysCache := c', fetching := fs\<rparr>)"
    by (rule waits_ok_mono [of s]) (use assms(1) reg in \<open>auto simp: sys_inv_def split: if_splits\<close>)
  moreover have "fetch_ok (s\<lparr>sysCache := c', fetching := fs\<rparr>)"
    by (rule fetch_ok_mono [of s]) (use assms reg in \<open>auto simp: sys_inv_def split: if_splits\<close>)
  ultimately show ?thesis by (simp add: sys_inv_def)
qed

text \<open>Steps that leave the registry alone.\<close>

lemma quiet_inv:
  assumes "sys_inv s" and "cache_inv c'" and "notifs c' = notifs (sysCache s)"
  shows "sys_inv (s\<lparr>sysCache := c'\<rparr>)"
  using assms by (simp add: sys_inv_def waits_ok_def fetch_ok_def)

lemma step_inv:
  assumes "sys_inv s" and "step s s'"
  shows "sys_inv s'"
  using assms(2)
proof (cases rule: step_cases)
  case (begin_lookup t req c' entry ch)
  then show ?thesis using begin_lookup_inv assms(1) by simp
next
  case (go_on t l)
  with assms(1) show ?thesis by (auto simp: sys_inv_def waits_ok_def fetch_ok_def)
next
  case (finish t)
  with assms(1) show ?thesis by (auto simp: sys_inv_def waits_ok_def fetch_ok_def)
next
  case (sa_added sa c')
  have "sys_inv (s\<lparr>sysCache := c', fetching := fetching s\<rparr>)"
    by (rule added_inv [OF assms(1) sa_added(2)]) auto
  with sa_added(1) show ?thesis by simp
next
  case (sa_removed name namespace)
  have "sys_inv (s\<lparr>sysCache := popSA (sysCache s) name namespace\<rparr>)"
    by (rule quiet_inv) (use assms(1) in \<open>auto simp: sys_inv_def popSA_def intro: popSA_inv [unfolded popSA_def]\<close>)
  with sa_removed show ?thesis by simp
next
  case (cm_set name namespace entry)
  have "sys_inv (s\<lparr>sysCache := setCM (sysCache s) name namespace entry\<rparr>)"
    by (rule quiet_inv) (use assms(1) in \<open>auto simp: sys_inv_def setCM_def intro: setCM_inv [unfolded setCM_def]\<close>)
  with cm_set show ?thesis by simp
next
  case (cm_removed name namespace)
  have "sys_inv (s\<lparr>sysCache := popCM (sysCache s) name namespace\<rparr>)"
    by (rule quiet_inv) (use assms(1) in \<open>auto simp: sys_inv_def popCM_def intro: popCM_inv [unfolded popCM_def]\<close>)
  with cm_removed show ?thesis by simp
next
  case cleared
  have "sys_inv (s\<lparr>sysCache := Clear (sysCache s)\<rparr>)"
    by (rule quiet_inv) (use assms(1) in \<open>auto simp: sys_inv_def Clear_def intro: Clear_inv [unfolded Clear_def]\<close>)
  with cleared show ?thesis by simp
next
  case (received req n')
  then have "handlers n' = handlers (notifs (sysCache s))" "closedChans n' = closedChans (notifs (sysCache s))"
    "set (fetchRequests (notifs (sysCache s))) = insert req (set (fetchRequests n'))" "notif_inv n'"
    using assms(1) receive_inv [of "notifs (sysCache s)"]
    by (auto simp: receive_def sys_inv_def cache_inv_def split: list.splits)
  with received assms(1) show ?thesis
    by (auto simp: sys_inv_def waits_ok_def fetch_ok_def cache_inv_def)
next
  case (fetched req sa c')
  have "set (fetching s) - {req} \<subseteq> set (remove1 req (fetching s))"
    by (metis Diff_iff in_set_remove1 insertCI subsetI)
  then have "sys_inv (s\<lparr>sysCache := c', fetching := remove1 req (fetching s)\<rparr>)"
    by (intro added_inv [OF assms(1), of sa c' req])
       (use fetched in \<open>auto simp: on_fetched_def CacheKey_def\<close>)
  with fetched(1) show ?thesis by simp
next
  case (fetch_failed req c')
  then have "c' = sysCache s" by (simp add: on_fetched_def)
  moreover have "fetch_ok s'"
    by (rule fetch_ok_mono [of s])
       (use fetch_failed assms(1) in \<open>auto simp: sys_inv_def on_fetched_def in_set_remove1\<close>)
  ultimately show ?thesis
    using fetch_failed(1) assms(1) by (simp add: sys_inv_def waits_ok_def)
qed

lemma reachable_inv: "reachable s \<Longrightarrow> sys_inv s"
  by (induction rule: reachable.induct) (auto intro: start_inv step_inv)

section \<open>Runs\<close>

text \<open>What the ConfigMap handler does is a run of \<open>setCM\<close> and \<open>popCM\<close> steps.\<close>

lemma cm_loop_steps:
  assumes "go_fold f ks c = Ok c'"
    and "\<And>k c c'. f k c = Ok c' \<Longrightarrow> c' = c \<or> (\<exists>n ns e. c' = setCM c n ns e) \<or> (\<exists>n ns. c' = popCM c n ns)"
  shows "step\<^sup>*\<^sup>* (s\<lparr>sysCache := c\<rparr>) (s\<lparr>sysCache := c'\<rparr>)"
  using assms(1)
proof (induction ks arbitrary: c)
  case (Cons k ks)
  then obtain c1 where c1: "f k c = Ok c1" "go_fold f ks c1 = Ok c'"
    by (auto simp: go_bind_eq_Ok)
  have "step\<^sup>*\<^sup>* (s\<lparr>sysCache := c\<rparr>) (s\<lparr>sysCache := c1\<rparr>)"
    using assms(2) [OF c1(1)] step.cm_set [of "s\<lparr>sysCache := c\<rparr>"] step.cm_removed [of "s\<lparr>sysCache := c\<rparr>"] by auto
  with Cons.IH [OF c1(2)] show ?case by simp
qed simp

lemma populate_steps:
  assumes "populateCacheFromCM ord (sysCache s) old new = Ok (c', err)"
  shows "step\<^sup>*\<^sup>* s (s\<lparr>sysCache := c'\<rparr>)"
proof -
  have set_steps: "go_fold (cm_set_key sas) ks c = Ok c1 \<Longrightarrow> step\<^sup>*\<^sup>* (s\<lparr>sysCache := c\<rparr>) (s\<lparr>sysCache := c1\<rparr>)" for sas ks c c1
    by (erule cm_loop_steps) (auto simp: cm_set_key_def split: option.splits list.splits)
  have pop_steps: "go_fold (cm_pop_key sas) ks c = Ok c1 \<Longrightarrow> step\<^sup>*\<^sup>* (s\<lparr>sysCache := c\<rparr>) (s\<lparr>sysCache := c1\<rparr>)" for sas ks c c1
    by (erule cm_loop_steps) (auto simp: cm_pop_key_def split: if_splits list.splits)
  have "step\<^sup>*\<^sup>* (s\<lparr>sysCache := sysCache s\<rparr>) (s\<lparr>sysCache := c'\<rparr>)"
    using populate_Ok [OF assms] set_steps pop_steps by (metis rtranclp.rtrancl_refl rtranclp_trans)
  then show ?thesis by simp
qed

lemma reachable_steps: "step\<^sup>*\<^sup>* s s' \<Longrightarrow> reachable s \<Longrightarrow> reachable s'"
  by (induction rule: rtranclp_induct) (auto intro: reachable.more)

lemma entry_of_SA_notifs [simp]: "entry_of_SA (c\<lparr>notifs := n\<rparr>) sa = entry_of_SA c sa"
  by (simp add: entry_of_SA_def annotation_key_def Let_def split: option.split sum.split)

text \<open>The receiver empties the queue up to a given request.\<close>

lemma drain:
  assumes "fetchRequests (notifs (sysCache s)) = xs @ r # ys"
  shows "fetcher_step\<^sup>*\<^sup>* s (s\<lparr>sysCache := (sysCache s)\<lparr>notifs := (notifs (sysCache s))\<lparr>fetchRequests := ys\<rparr>\<rparr>,
    fetching := fetching s @ xs @ [r]\<rparr>)"
  using assms
proof (induction xs arbitrary: s)
  case Nil
  then have "receive (notifs (sysCache s)) = Some (r, (notifs (sysCache s))\<lparr>fetchRequests := ys\<rparr>)"
    by (simp add: receive_def)
  then have "fetcher_step s (s\<lparr>sysCache := (sysCache s)\<lparr>notifs := (notifs (sysCache s))\<lparr>fetchRequests := ys\<rparr>\<rparr>,
      fetching := fetching s @ [r]\<rparr>)"
    by (auto intro!: fetcher_step.received simp: receiver_step_def)
  then show ?case by simp
next
  case (Cons x xs)
  then have "receive (notifs (sysCache s)) = Some (x, (notifs (sysCache s))\<lparr>fetchRequests := xs @ r # ys\<rparr>)"
    by (simp add: receive_def)
  then have first: "fetcher_step s (s\<lparr>sysCache := (sysCache s)\<lparr>notifs := (notifs (sysCache s))\<lparr>fetchRequests := xs @ r # ys\<rparr>\<rparr>,
      fetching := fetching s @ [x]\<rparr>)"
    by (auto intro!: fetcher_step.received simp: receiver_step_def)
  show ?case
    using converse_rtranclp_into_rtranclp [where r = fetcher_step, OF first Cons.IH] by simp
qed

lemma fetch_wakes:
  assumes "sys_inv s" and "r \<in> set (fetching s)" and "handlers (notifs (sysCache s)) (CacheKey r) = Some ch"
    and "saName sa = reqName r" and "saNamespace sa = reqNamespace r"
  shows "\<exists>s'. fetcher_step s s' \<and> ch \<in> closedChans (notifs (sysCache s')) \<and>
    saCache (sysCache s') (CacheKey r) = Some (entry_of_SA (sysCache s) sa)"
proof -
  obtain c' where c': "addSA (sysCache s) sa = Ok c'"
    using addSA_total assms(1) by (auto simp: sys_inv_def)
  then have "fetcher_step s (s\<lparr>sysCache := c', fetching := remove1 r (fetching s)\<rparr>)"
    by (intro fetcher_step.fetched [OF assms(2,4,5)]) (simp add: on_fetched_def)
  moreover have "ch \<in> closedChans (notifs c')"
    using addSA_registry(2) [OF c'] assms(3-5) by (simp add: CacheKey_def)
  moreover have "saCache c' (CacheKey r) = Some (entry_of_SA (sysCache s) sa)"
    using c' assms(4,5) by (auto elim!: addSA_Ok simp: CacheKey_def)
  ultimately show ?thesis by fastforce
qed

text \<open>The queue never holds more than its capacity, the one \<open>New\<close> gives it.\<close>

definition queue_ok :: "system \<Rightarrow> bool" where
  "queue_ok s \<longleftrightarrow> fetchCap (notifs (sysCache s)) = 1000 \<and> length (fetchRequests (notifs (sysCache s))) \<le> 1000"

lemma create_queue:
  "create n req = Ok (n', ch) \<Longrightarrow> length (fetchRequests n) \<le> fetchCap n \<Longrightarrow>
     fetchCap n' = fetchCap n \<and> length (fetchRequests n') \<le> fetchCap n"
  by (auto simp: create_def split: option.splits if_splits)

lemma addSA_queue: "addSA c sa = Ok c' \<Longrightarrow> fetchCap (notifs c') = fetchCap (notifs c)"
  by (auto elim!: addSA_Ok simp: broadcast_frame)

lemma step_queue:
  assumes "step s s'" and "queue_ok s"
  shows "queue_ok s'"
  using assms(1)
proof (cases rule: step_cases)
  case (begin_lookup t req c' entry ch)
  from begin_lookup(3) show ?thesis
  proof (cases rule: getSA_quiet_or_registered)
    case (registered n x)
    with create_queue [OF registered(1)] assms(2) begin_lookup(1) show ?thesis by (simp add: queue_ok_def)
  qed (use begin_lookup(1) assms(2) in \<open>simp add: queue_ok_def\<close>)
next
  case (sa_added sa c')
  with addSA_queue [of "sysCache s"] addSA_registry(3) [of "sysCache s"] assms(2) show ?thesis by (simp add: queue_ok_def)
next
  case (fetched req sa c')
  then have "addSA (sysCache s) sa = Ok c'" by (simp add: on_fetched_def)
  with fetched(1) addSA_queue addSA_registry(3) assms(2) show ?thesis by (simp add: queue_ok_def)
qed (use assms(2) in \<open>auto simp: queue_ok_def popSA_def setCM_def popCM_def Clear_def receive_def on_fetched_def
      split: list.splits\<close>)

lemma reachable_queue: "reachable s \<Longrightarrow> queue_ok s"
proof (induction rule: reachable.induct)
  case (init aud pfx regional expiration compose)
  show ?case by (simp add: queue_ok_def start_def New_def newNotifications_def)
qed (rule step_queue)

text \<open>A request whose account somebody waits for is pending, and from there the account arrives.\<close>

lemma pending_request:
  assumes "reachable s" and "handlers (notifs (sysCache s)) k = Some ch" and "\<forall>r \<in> failed s. CacheKey r \<noteq> k"
  shows "\<exists>r. CacheKey r = k \<and> (r \<in> set (fetchRequests (notifs (sysCache s))) \<or> r \<in> set (fetching s))"
  using reachable_inv [OF assms(1)] assms(2,3) unfolding sys_inv_def fetch_ok_def by blast

lemma pending_run:
  assumes "reachable s" and "handlers (notifs (sysCache s)) (CacheKey r) = Some ch"
    and "r \<in> set (fetchRequests (notifs (sysCache s))) \<or> r \<in> set (fetching s)"
    and sa: "saName sa = reqName r" "saNamespace sa = reqNamespace r"
  shows "\<exists>s'. fetcher_step\<^sup>*\<^sup>* s s' \<and> ch \<in> closedChans (notifs (sysCache s')) \<and>
    saCache (sysCache s') (CacheKey r) = Some (entry_of_SA (sysCache s) sa)"
  using assms(3)
proof
  assume "r \<in> set (fetching s)"
  from fetch_wakes [OF reachable_inv [OF assms(1)] this assms(2) sa] show ?thesis by auto
next
  assume "r \<in> set (fetchRequests (notifs (sysCache s)))"
  then obtain xs ys where "fetchRequests (notifs (sysCache s)) = xs @ r # ys"
    by (meson split_list)
  define s1 where "s1 = s\<lparr>sysCache := (sysCache s)\<lparr>notifs := (notifs (sysCache s))\<lparr>fetchRequests := ys\<rparr>\<rparr>,
    fetching := fetching s @ xs @ [r]\<rparr>"
  have run: "fetcher_step\<^sup>*\<^sup>* s s1"
    unfolding s1_def by (rule drain) fact
  have "r \<in> set (fetching s1)" "handlers (notifs (sysCache s1)) (CacheKey r) = Some ch"
    "entry_of_SA (sysCache s1) sa = entry_of_SA (sysCache s) sa"
    using assms(2) by (simp_all add: s1_def)
  then show ?thesis
    using fetch_wakes [OF reachable_inv [OF reachable_steps [OF fetcher_steps [OF run] assms(1)]], of r ch sa] run sa
    by (auto intro: rtranclp.rtrancl_into_rtrancl)
qed

section \<open>The fetchers alone\<close>

text \<open>Every step of the receiver and of a fetch uses up work, and with none left nothing is pending.\<close>

definition fetch_work :: "system \<Rightarrow> nat" where
  "fetch_work s = 2 * length (fetchRequests (notifs (sysCache s))) + length (fetching s)"

lemma length_remove1_Suc: "x \<in> set xs \<Longrightarrow> Suc (length (remove1 x xs)) = length xs"
  by (induction xs) auto

lemma fetcher_step_works:
  assumes "fetcher_step s s'"
  shows "Suc (fetch_work s') = fetch_work s"
  using assms
proof cases
  case received
  then show ?thesis by (auto simp: receiver_step_def receive_def fetch_work_def split: list.splits)
next
  case (fetched req sa c')
  then show ?thesis
    using addSA_registry(3) [of "sysCache s" sa c'] by (auto simp: on_fetched_def fetch_work_def dest: length_remove1_Suc)
next
  case (fetch_failed req c')
  then show ?thesis by (auto simp: on_fetched_def fetch_work_def dest: length_remove1_Suc)
qed

lemma fetcher_run_length: "(fetcher_step ^^ n) s u \<Longrightarrow> n + fetch_work u = fetch_work s"
proof (induction n arbitrary: u)
  case (Suc n)
  then obtain t where t: "(fetcher_step ^^ n) s t" "fetcher_step t u" by auto
  with Suc.IH [OF t(1)] fetcher_step_works [OF t(2)] show ?case by simp
qed simp

lemma fetchers_at_rest:
  assumes "\<nexists>v. fetcher_step u v"
  shows "fetchRequests (notifs (sysCache u)) = []" and "fetching u = []"
proof -
  show "fetchRequests (notifs (sysCache u)) = []"
  proof (cases "fetchRequests (notifs (sysCache u))")
    case (Cons r rs)
    then have "\<exists>v. receiver_step u v" by (simp add: receiver_step_def receive_def)
    with assms show ?thesis using fetcher_step.received by blast
  qed
  show "fetching u = []"
    using assms fetcher_step.fetch_failed [of "hd (fetching u)" u "sysCache u"] by (cases "fetching u") (auto simp: on_fetched_def)
qed

lemma fetcher_step_serves:
  assumes "fetcher_step s s'"
    and "handlers (notifs (sysCache s)) key = Some ch \<or> ch \<in> closedChans (notifs (sysCache s)) \<and> saCache (sysCache s) key \<noteq> None"
  shows "handlers (notifs (sysCache s')) key = Some ch \<or> ch \<in> closedChans (notifs (sysCache s')) \<and> saCache (sysCache s') key \<noteq> None"
  using assms(1)
proof cases
  case received
  with assms(2) show ?thesis by (auto simp: receiver_step_def receive_def split: list.splits)
next
  case (fetched req sa c')
  then have c': "addSA (sysCache s) sa = Ok c'" by (simp add: on_fetched_def)
  then have "saCache c' = (saCache (sysCache s))(cache_key (saNamespace sa) (saName sa) \<mapsto> entry_of_SA (sysCache s) sa)"
    by (auto elim!: addSA_Ok)
  with addSA_registry [OF c'] assms(2) fetched(1) show ?thesis by auto
qed (use assms(2) in \<open>auto simp: on_fetched_def\<close>)

lemma fetcher_run_serves:
  assumes "fetcher_step\<^sup>*\<^sup>* s u" and "handlers (notifs (sysCache s)) key = Some ch"
  shows "handlers (notifs (sysCache u)) key = Some ch \<or> ch \<in> closedChans (notifs (sysCache u)) \<and> saCache (sysCache u) key \<noteq> None"
  using assms(1)
proof (induction rule: rtranclp_induct)
  case (step t u)
  from fetcher_step_serves [OF step.hyps(2) step.IH] show ?case .
qed (simp add: assms(2))

section \<open>A blocked lookup\<close>

lemma blocked_iff:
  assumes "queue_ok s"
  shows "getSA (sysCache s) req = NoReturn \<longleftrightarrow>
    saCache (sysCache s) (CacheKey req) = None \<and> RequestNotification req \<and>
    handlers (notifs (sysCache s)) (CacheKey req) = None \<and> length (fetchRequests (notifs (sysCache s))) = 1000"
  using assms by (auto simp: getSA_def create_def queue_ok_def split: option.splits if_splits)

lemma unlocked_is_step: "unlocked_step s u \<Longrightarrow> step s u"
proof (induction rule: unlocked_step.induct)
  case (read_begin s t req entry)
  from step.begin_lookup [OF this] show ?case by simp
qed (auto intro: step.intros fetcher_step.fetch_failed)

lemma unlocked_step_blocked:
  assumes "unlocked_step s u" and "queue_ok s" and "getSA (sysCache s) req = NoReturn"
  shows "queue_ok u \<and> getSA (sysCache u) req = NoReturn"
proof -
  have "notifs (sysCache u) = notifs (sysCache s) \<and> (saCache (sysCache s) (CacheKey req) = None \<longrightarrow> saCache (sysCache u) (CacheKey req) = None)"
    using assms(1) by cases (auto simp: Clear_def on_fetched_def)
  then show ?thesis
    using assms(2,3) blocked_iff [of u req] blocked_iff [OF assms(2), of req] by (auto simp: queue_ok_def)
qed

lemma unlocked_run_blocked:
  assumes "unlocked_step\<^sup>*\<^sup>* s u" and "queue_ok s" and "getSA (sysCache s) req = NoReturn"
  shows "queue_ok u \<and> getSA (sysCache u) req = NoReturn"
  using assms(1) by (induction rule: rtranclp_induct) (use assms(2,3) unlocked_step_blocked in blast)+

lemma receiver_unblocks:
  assumes "queue_ok u" and "getSA (sysCache u) req = NoReturn"
  shows "\<exists>v. receiver_step u v"
    and "receiver_step u v \<Longrightarrow> \<exists>n ch. getSA (sysCache v) req = Ok ((sysCache v)\<lparr>notifs := n\<rparr>, None, Some ch) \<and>
      handlers n (CacheKey req) = Some ch \<and> fetchRequests n = tl (fetchRequests (notifs (sysCache u))) @ [req]"
proof -
  note blocked = assms(2) [unfolded blocked_iff [OF assms(1)]]
  then obtain r rs where q: "fetchRequests (notifs (sysCache u)) = r # rs" "length rs < 1000"
    by (cases "fetchRequests (notifs (sysCache u))") auto
  then have receive: "receive (notifs (sysCache u)) = Some (r, (notifs (sysCache u))\<lparr>fetchRequests := rs\<rparr>)"
    by (simp add: receive_def)
  then show "\<exists>v. receiver_step u v" by (simp add: receiver_step_def)
  assume "receiver_step u v"
  then have v: "sysCache v = (sysCache u)\<lparr>notifs := (notifs (sysCache u))\<lparr>fetchRequests := rs\<rparr>\<rparr>"
    by (simp add: receiver_step_def receive)
  have "fetchCap (notifs (sysCache u)) = 1000"
    using assms(1) by (simp add: queue_ok_def)
  with blocked q(2) have "\<exists>n ch. create (notifs (sysCache v)) req = Ok (n, ch) \<and> handlers n (CacheKey req) = Some ch \<and>
      fetchRequests n = rs @ [req]"
    by (simp add: create_def v)
  moreover have "saCache (sysCache v) (CacheKey req) = None"
    using blocked by (simp add: v)
  ultimately show "\<exists>n ch. getSA (sysCache v) req = Ok ((sysCache v)\<lparr>notifs := n\<rparr>, None, Some ch) \<and>
      handlers n (CacheKey req) = Some ch \<and> fetchRequests n = tl (fetchRequests (notifs (sysCache u))) @ [req]"
    using blocked q(1) by (auto simp: getSA_def)
qed

section \<open>Claims\<close>

text \<open>
  C3. No wakeup is lost. In every reachable state, whatever the interleaving of lookups,
  informer events, fetches and clears was: a thread that holds a notifier either holds a
  closed one, or its account is not in the annotation cache and its channel is the one that is
  registered; and adding the account, by the informer or by a fetch, succeeds without a panic
  and closes the thread's channel.
\<close>

theorem no_lost_wakeup:
  assumes "reachable s" and "lookups s t = Some l" and "lookup_chan l = Some ch"
  shows "(ch \<notin> closedChans (notifs (sysCache s)) \<longrightarrow>
      saCache (sysCache s) (CacheKey (lookup_request l)) = None \<and>
      handlers (notifs (sysCache s)) (CacheKey (lookup_request l)) = Some ch) \<and>
    (\<forall>sa. cache_key (saNamespace sa) (saName sa) = CacheKey (lookup_request l) \<longrightarrow>
      (\<exists>c'. addSA (sysCache s) sa = Ok c' \<and> ch \<in> closedChans (notifs c')))"
proof -
  have inv: "cache_inv (sysCache s)" and waits: "waits_ok s"
    using reachable_inv [OF assms(1)] by (simp_all add: sys_inv_def)
  have reg: "ch \<in> closedChans (notifs (sysCache s)) \<or>
      handlers (notifs (sysCache s)) (CacheKey (lookup_request l)) = Some ch"
    using waits assms(2,3) by (auto simp: waits_ok_def)
  have "\<exists>c'. addSA (sysCache s) sa = Ok c' \<and> ch \<in> closedChans (notifs c')"
    if key: "cache_key (saNamespace sa) (saName sa) = CacheKey (lookup_request l)" for sa
  proof -
    obtain c' where c': "addSA (sysCache s) sa = Ok c'"
      using addSA_total [OF inv] by blast
    with addSA_registry(2) [OF c'] reg key show ?thesis by auto
  qed
  with reg inv show ?thesis by (auto simp: cache_inv_def)
qed

definition exampleStart :: system where
  "exampleStart = start ''sts.amazonaws.com'' ''eks.amazonaws.com'' False 86400
     \<lparr>Enabled = False, AccountID = [], Partition = [], arnRegion = []\<rparr>"

lemma example_waiting:
  "\<exists>s l. reachable s \<and> lookups s 0 = Some l \<and> lookup_chan l = Some 0 \<and> lookup_request l = exampleRequest \<and>
     0 \<notin> closedChans (notifs (sysCache s)) \<and> failed s = {}"
proof -
  obtain n where n: "create (newNotifications 1000) exampleRequest = Ok (n, 0)" "closedChans n = {}"
    by (simp add: create_def newNotifications_def)
  let ?c = "(sysCache exampleStart)\<lparr>notifs := n\<rparr>"
  have "getSA (sysCache exampleStart) exampleRequest = Ok (?c, None, Some 0)"
    using n(1) by (simp add: getSA_def exampleStart_def start_def New_def exampleRequest_def)
  then have "step exampleStart (exampleStart\<lparr>sysCache := ?c,
      lookups := (lookups exampleStart)(0 \<mapsto> after_getSA exampleRequest None (Some 0))\<rparr>)"
    by (rule step.begin_lookup [rotated]) (simp add: exampleStart_def start_def)
  then have "reachable (exampleStart\<lparr>sysCache := ?c,
      lookups := (lookups exampleStart)(0 \<mapsto> after_getSA exampleRequest None (Some 0))\<rparr>)"
    by (rule reachable.more [rotated]) (simp add: exampleStart_def reachable.init)
  then show ?thesis
    using n(2) by (intro exI conjI) (auto simp: exampleStart_def start_def)
qed

theorem no_lost_wakeup_witness:
  "\<exists>s l c'. reachable s \<and> lookups s 0 = Some l \<and>
     addSA (sysCache s) \<lparr>saName = ''sa'', saNamespace = ''ns'', saAnnotations = Map.empty\<rparr> = Ok c' \<and>
     0 \<in> closedChans (notifs c')"
proof -
  obtain s l where s: "reachable s" "lookups s 0 = Some l" "lookup_chan l = Some 0" "lookup_request l = exampleRequest"
    using example_waiting by blast
  have "cache_key ''ns'' ''sa'' = CacheKey (lookup_request l)"
    by (simp add: s(4) exampleRequest_def CacheKey_def)
  then show ?thesis
    using no_lost_wakeup [OF s(1-3)] s(1,2) by fastforce
qed

text \<open>
  C28. A thread that waits is not forgotten by the fetchers. In every reachable state, if the channel of
  a lookup is still open and no fetch of its account has failed, then a fetch of its account is
  queued or in flight, and steps of the receiver and of fetch goroutines alone, without the
  informer, lead to a state where the channel is closed and the account that the API server
  returned is in the cache. More than that: however the receiver and the fetches interleave and
  whatever the API server answers, they can take only as many steps as there is work, and when none of
  them can take another step, either the channel is closed and the account is cached, or a fetch of
  the account has failed.
\<close>

theorem pending_fetch_completes:
  assumes "reachable s" and "lookups s t = Some l" and "lookup_chan l = Some ch"
    and "ch \<notin> closedChans (notifs (sysCache s))" and "key = CacheKey (lookup_request l)"
    and "\<forall>r \<in> failed s. CacheKey r \<noteq> key"
  shows "(\<exists>r. CacheKey r = key \<and> (r \<in> set (fetchRequests (notifs (sysCache s))) \<or> r \<in> set (fetching s)) \<and>
      (\<forall>sa. saName sa = reqName r \<and> saNamespace sa = reqNamespace r \<longrightarrow>
        (\<exists>s'. fetcher_step\<^sup>*\<^sup>* s s' \<and> ch \<in> closedChans (notifs (sysCache s')) \<and>
           saCache (sysCache s') key = Some (entry_of_SA (sysCache s) sa)))) \<and>
    (\<forall>n u. (fetcher_step ^^ n) s u \<longrightarrow> n \<le> 2 * length (fetchRequests (notifs (sysCache s))) + length (fetching s)) \<and>
    (\<forall>u. fetcher_step\<^sup>*\<^sup>* s u \<and> (\<nexists>v. fetcher_step u v) \<longrightarrow>
      ch \<in> closedChans (notifs (sysCache u)) \<and> saCache (sysCache u) key \<noteq> None \<or> (\<exists>r \<in> failed u. CacheKey r = key))"
proof (intro conjI allI impI)
  have reg: "handlers (notifs (sysCache s)) key = Some ch"
    using reachable_inv [OF assms(1)] assms(2-5) by (auto simp: sys_inv_def waits_ok_def)
  obtain r where r: "CacheKey r = key" "r \<in> set (fetchRequests (notifs (sysCache s))) \<or> r \<in> set (fetching s)"
    using pending_request [OF assms(1) reg assms(6)] by blast
  then show "\<exists>r. CacheKey r = key \<and> (r \<in> set (fetchRequests (notifs (sysCache s))) \<or> r \<in> set (fetching s)) \<and>
      (\<forall>sa. saName sa = reqName r \<and> saNamespace sa = reqNamespace r \<longrightarrow>
        (\<exists>s'. fetcher_step\<^sup>*\<^sup>* s s' \<and> ch \<in> closedChans (notifs (sysCache s')) \<and>
           saCache (sysCache s') key = Some (entry_of_SA (sysCache s) sa)))"
    using pending_run [OF assms(1) _ r(2)] reg by auto
  show "n \<le> 2 * length (fetchRequests (notifs (sysCache s))) + length (fetching s)" if "(fetcher_step ^^ n) s u" for n u
    using fetcher_run_length [OF that] by (simp add: fetch_work_def)
  show "ch \<in> closedChans (notifs (sysCache u)) \<and> saCache (sysCache u) key \<noteq> None \<or> (\<exists>r \<in> failed u. CacheKey r = key)"
    if u: "fetcher_step\<^sup>*\<^sup>* s u \<and> (\<nexists>v. fetcher_step u v)" for u
  proof -
    have "reachable u"
      using u reachable_steps [OF fetcher_steps assms(1)] by blast
    then show ?thesis
      using fetcher_run_serves [OF conjunct1 [OF u] reg] fetchers_at_rest [OF conjunct2 [OF u]] pending_request [of u key ch] by auto
  qed
qed

theorem pending_fetch_completes_witness:
  "\<exists>s r s'. reachable s \<and> CacheKey r = CacheKey exampleRequest \<and> r \<in> set (fetchRequests (notifs (sysCache s))) \<union> set (fetching s) \<and>
     fetcher_step\<^sup>*\<^sup>* s s' \<and> 0 \<notin> closedChans (notifs (sysCache s)) \<and> 0 \<in> closedChans (notifs (sysCache s'))"
proof -
  obtain s l where s: "reachable s" "lookups s 0 = Some l" "lookup_chan l = Some 0" "lookup_request l = exampleRequest"
    "0 \<notin> closedChans (notifs (sysCache s))" "failed s = {}"
    using example_waiting by blast
  then have "\<forall>r \<in> failed s. CacheKey r \<noteq> CacheKey (lookup_request l)" by simp
  from pending_fetch_completes [OF s(1-3,5) refl this, THEN conjunct1] obtain r where r: "CacheKey r = CacheKey exampleRequest"
    "r \<in> set (fetchRequests (notifs (sysCache s))) \<or> r \<in> set (fetching s)"
    and run: "\<And>sa :: ServiceAccount. saName sa = reqName r \<and> saNamespace sa = reqNamespace r \<Longrightarrow>
       \<exists>s'. fetcher_step\<^sup>*\<^sup>* s s' \<and> 0 \<in> closedChans (notifs (sysCache s'))"
    unfolding s(4) by blast
  show ?thesis
    using s(1,5) r run [of "\<lparr>saName = reqName r, saNamespace = reqNamespace r, saAnnotations = Map.empty\<rparr>"] by auto
qed

text \<open>
  C29. A full queue of fetch requests is not a deadlock. In every reachable state a lookup is held
  up only while a thousand requests are queued. It then holds both locks, and whatever the other
  goroutines do that needs none of them, it stays held up; but at every such moment the receiver,
  which needs no lock either, can take a request, and as soon as it has, the send goes through: the
  lookup returns with a channel that is registered for its account, and its request is the
  last of the queue.
\<close>

theorem full_queue_clears:
  assumes "reachable s" and "getSA (sysCache s) req = NoReturn"
  shows "length (fetchRequests (notifs (sysCache s))) = 1000 \<and>
    (\<forall>u. unlocked_step\<^sup>*\<^sup>* s u \<longrightarrow>
      getSA (sysCache u) req = NoReturn \<and> (\<exists>v. receiver_step u v) \<and>
      (\<forall>v. receiver_step u v \<longrightarrow>
        (\<exists>n ch. getSA (sysCache v) req = Ok ((sysCache v)\<lparr>notifs := n\<rparr>, None, Some ch) \<and>
           handlers n (CacheKey req) = Some ch \<and> fetchRequests n = tl (fetchRequests (notifs (sysCache u))) @ [req])))"
proof (intro conjI allI impI)
  have queue: "queue_ok s"
    by (rule reachable_queue [OF assms(1)])
  then show "length (fetchRequests (notifs (sysCache s))) = 1000"
    using blocked_iff assms(2) by blast
  fix u
  assume "unlocked_step\<^sup>*\<^sup>* s u"
  from unlocked_run_blocked [OF this queue assms(2)] have u: "queue_ok u" "getSA (sysCache u) req = NoReturn" by simp_all
  then show "getSA (sysCache u) req = NoReturn" "\<exists>v. receiver_step u v"
    using receiver_unblocks(1) by blast+
  show "\<exists>n ch. getSA (sysCache v) req = Ok ((sysCache v)\<lparr>notifs := n\<rparr>, None, Some ch) \<and>
      handlers n (CacheKey req) = Some ch \<and> fetchRequests n = tl (fetchRequests (notifs (sysCache u))) @ [req]"
    if "receiver_step u v" for v
    by (rule receiver_unblocks(2) [OF u that])
qed

definition nthRequest :: "nat \<Rightarrow> Request" where
  "nthRequest k = \<lparr>reqName = replicate k CHR ''a'', reqNamespace = ''ns'', RequestNotification = True\<rparr>"

lemma nthRequest_key [simp]: "CacheKey (nthRequest j) = CacheKey (nthRequest k) \<longleftrightarrow> j = k"
  by (auto simp: CacheKey_def cache_key_def nthRequest_def)

lemma reachable_queued:
  assumes "k \<le> 1000"
  shows "\<exists>s. reachable s \<and> length (fetchRequests (notifs (sysCache s))) = k \<and> saCache (sysCache s) = Map.empty \<and>
    lookups s = Map.empty \<and> (\<forall>j \<ge> k. handlers (notifs (sysCache s)) (CacheKey (nthRequest j)) = None)"
  using assms
proof (induction k)
  case 0
  show ?case
    by (intro exI [of _ exampleStart])
       (simp add: exampleStart_def reachable.init, simp add: start_def New_def newNotifications_def)
next
  case (Suc k)
  then obtain s where s: "reachable s" "length (fetchRequests (notifs (sysCache s))) = k"
    "saCache (sysCache s) = Map.empty" "lookups s = Map.empty"
    "\<forall>j \<ge> k. handlers (notifs (sysCache s)) (CacheKey (nthRequest j)) = None"
    by auto
  let ?n = "notifs (sysCache s)"
  obtain n' ch where c: "create ?n (nthRequest k) = Ok (n', ch)"
    using create_returns [of ?n "nthRequest k"] reachable_queue [OF s(1)] s(2) Suc.prems by (auto simp: queue_ok_def)
  let ?s = "s\<lparr>sysCache := (sysCache s)\<lparr>notifs := n'\<rparr>, lookups := (lookups s)(0 \<mapsto> after_getSA (nthRequest k) None (Some ch))\<rparr>"
  have "getSA (sysCache s) (nthRequest k) = Ok ((sysCache s)\<lparr>notifs := n'\<rparr>, None, Some ch)"
    using c s(3) by (simp add: getSA_def nthRequest_def)
  from step.begin_lookup [OF _ this, of 0] have "step s ?s"
    using s(4) by simp
  moreover have "step ?s (?s\<lparr>lookups := (lookups ?s)(0 := None)\<rparr>)"
    by (rule step.finish)
  ultimately have "reachable (?s\<lparr>lookups := (lookups ?s)(0 := None)\<rparr>)"
    using s(1) by (blast intro: reachable.more)
  moreover have "length (fetchRequests n') = Suc k"
    using create_requests [OF c] s(2,5) by simp
  moreover have "\<forall>j \<ge> Suc k. handlers n' (CacheKey (nthRequest j)) = None"
    using create_handlers [OF c] s(5) by auto
  ultimately show ?case
    using s(3,4) by (intro exI [of _ "?s\<lparr>lookups := (lookups ?s)(0 := None)\<rparr>"]) simp
qed

theorem full_queue_clears_witness:
  "\<exists>s req v n ch. reachable s \<and> getSA (sysCache s) req = NoReturn \<and> receiver_step s v \<and>
     getSA (sysCache v) req = Ok ((sysCache v)\<lparr>notifs := n\<rparr>, None, Some ch)"
proof -
  obtain s where s: "reachable s" "length (fetchRequests (notifs (sysCache s))) = 1000" "saCache (sysCache s) = Map.empty"
    "handlers (notifs (sysCache s)) (CacheKey (nthRequest 1000)) = None"
    using reachable_queued [of 1000] by auto
  then have "getSA (sysCache s) (nthRequest 1000) = NoReturn"
    using reachable_queue [OF s(1)] by (simp add: getSA_def create_def queue_ok_def) (simp add: nthRequest_def)
  with full_queue_clears [OF s(1)] s(1) show ?thesis by blast
qed

end
