(* ===== verification/Grace.thy ===== *)
theory Grace
  imports System AdmissionProps
begin

text \<open>
  The grace period inside the running system: the lookup of an admission request as a thread of
  theory \<open>System\<close>, the wait in its \<open>select\<close> as steps of the other goroutines, and what
  \<open>buildPodPatchConfig\<close> makes of the state in which the wait ends.
\<close>

section \<open>Waiting\<close>

text \<open>Thread \<open>t\<close> has got its answer, without an entry, and waits on the channel that came with it.\<close>

definition waits :: "system \<Rightarrow> nat \<Rightarrow> Request \<Rightarrow> chan \<Rightarrow> bool" where
  "waits s t req ch \<longleftrightarrow>
     (\<exists>resp. lookups s t = Some (Answered req resp) \<and> \<not> FoundInCache resp \<and> Notifier resp = Some ch)"

text \<open>The steps of a lookup that finds nothing, with no other goroutine in between.\<close>

lemma lookup_waits:
  assumes "lookups s t = None" and "Get (sysCache s) req = Ok (c1, response_of None False (Some ch))"
  shows "step\<^sup>*\<^sup>* s (s\<lparr>sysCache := c1, lookups := (lookups s)(t \<mapsto> Answered req (response_of None False (Some ch)))\<rparr>)"
proof -
  obtain entry x where sa: "getSA (sysCache s) req = Ok (c1, entry, x)"
    using assms(2) by (rule Get_Ok)
  let ?l = "after_getSA req entry x"
  let ?s = "\<lambda>l. s\<lparr>sysCache := c1, lookups := (lookups s)(t \<mapsto> l)\<rparr>"
  have "step s (?s ?l)"
    by (rule step.begin_lookup [OF assms(1) sa])
  moreover have "step (?s l) (?s (lookup_step c1 l))" for l
    using step.go_on [of "?s l" t l] by simp
  ultimately have "step\<^sup>*\<^sup>* s (?s (lookup_step c1 (lookup_step c1 ?l)))"
    by (meson rtranclp.rtrancl_into_rtrancl rtranclp.rtrancl_refl)
  moreover have "lookup_step c1 (lookup_step c1 ?l) = Answered req (response_of None False (Some ch))"
    using lookup_steps_Get [OF sa] assms(2) by blast
  ultimately show ?thesis by simp
qed

text \<open>A registered channel stays registered until its account is cached, and is closed by that.\<close>

lemma step_registered:
  assumes "sys_inv s" and "step s s'" and "handlers (notifs (sysCache s)) key = Some ch"
  shows "handlers (notifs (sysCache s')) key = Some ch \<or> saCache (sysCache s') key \<noteq> None"
proof -
  have added: "handlers (notifs c') key = Some ch \<or> saCache c' key \<noteq> None" if "addSA (sysCache s) sa = Ok c'" for sa c'
    using addSA_registry(1) [OF that] assms(3) that by (cases "key = cache_key (saNamespace sa) (saName sa)") (auto elim!: addSA_Ok)
  from assms(2) show ?thesis
  proof (cases rule: step_cases)
    case (begin_lookup t req c' entry x)
    from begin_lookup(3) show ?thesis
    proof (cases rule: getSA_quiet_or_registered)
      case (registered n y)
      with create_keeps_registered [OF registered(1) assms(3)] begin_lookup(1) show ?thesis by simp
    qed (use begin_lookup(1) assms(3) in simp)
  next
    case (sa_added sa c')
    with added show ?thesis by simp
  next
    case (fetched req sa c')
    then have "addSA (sysCache s) sa = Ok c'" by (simp add: on_fetched_def)
    with fetched(1) added show ?thesis by simp
  qed (use assms(3) in \<open>auto simp: popSA_def setCM_def popCM_def Clear_def receive_def on_fetched_def split: list.splits\<close>)
qed

lemma woken_by_account:
  assumes "reachable s" and "step\<^sup>*\<^sup>* s u" and "handlers (notifs (sysCache s)) key = Some ch"
    and "ch \<in> closedChans (notifs (sysCache u))"
  shows "\<exists>v. step\<^sup>*\<^sup>* s v \<and> step\<^sup>*\<^sup>* v u \<and> saCache (sysCache v) key \<noteq> None"
proof -
  have "handlers (notifs (sysCache u)) key = Some ch \<or> (\<exists>v. step\<^sup>*\<^sup>* s v \<and> step\<^sup>*\<^sup>* v u \<and> saCache (sysCache v) key \<noteq> None)"
    using assms(2)
  proof (induction rule: rtranclp_induct)
    case (step u u')
    have "sys_inv u"
      by (rule reachable_inv [OF reachable_steps [OF step.hyps(1) assms(1)]])
    then show ?case
      using step.IH step_registered [OF _ step.hyps(2), of key ch] step.hyps
      by (meson rtranclp.rtrancl_into_rtrancl rtranclp.rtrancl_refl)
  qed (simp add: assms(3))
  moreover have "handlers (notifs (sysCache u)) key \<noteq> Some ch"
    using reachable_inv [OF reachable_steps [OF assms(2,1)]] assms(4) notif_inv_handler
    by (auto simp: sys_inv_def cache_inv_def)
  ultimately show ?thesis by blast
qed

lemma Get_settings: "Get c req = Ok (c', resp) \<Longrightarrow> entry_of_SA c' sa = entry_of_SA c sa"
  by (elim Get_Ok getSA_quiet_or_registered) simp_all

lemma same_account:
  assumes "CHR ''/'' \<notin> set (podNamespace pod)" and "CHR ''/'' \<notin> set (podServiceAccountName pod)"
    and "CacheKey r = cache_key (podNamespace pod) (podServiceAccountName pod)"
  shows "reqNamespace r = podNamespace pod \<and> reqName r = podServiceAccountName pod"
proof -
  have "CHR ''/'' \<notin> set (reqNamespace r)"
  proof
    assume "CHR ''/'' \<in> set (reqNamespace r)"
    then have "2 \<le> length (filter (\<lambda>c. c = CHR ''/'') (CacheKey r))"
      by (auto simp: CacheKey_def cache_key_def filter_empty_conv Suc_le_eq length_greater_0_conv)
    moreover have "filter (\<lambda>c. c = CHR ''/'') xs = []" if "CHR ''/'' \<notin> set xs" for xs
      using that by (auto simp: filter_empty_conv)
    ultimately show False
      using assms by (simp add: cache_key_def)
  qed
  then show ?thesis
    using assms cache_key_inject [of "reqNamespace r" "podNamespace pod"] by (simp add: CacheKey_def)
qed

section \<open>After a failed fetch\<close>

text \<open>
  A registration that nobody will serve: the account has a channel, but no request for it is queued
  or in flight. Further lookups join it and ask for no fetch, so that it stays as it is until
  the account comes from elsewhere.
\<close>

definition abandoned :: "string \<Rightarrow> system \<Rightarrow> bool" where
  "abandoned key s \<longleftrightarrow> handlers (notifs (sysCache s)) key \<noteq> None \<and>
     (\<forall>r \<in> set (fetchRequests (notifs (sysCache s))) \<union> set (fetching s). CacheKey r \<noteq> key)"

lemma create_asks_nothing:
  "create n req = Ok (n', x) \<Longrightarrow> handlers n key \<noteq> None \<Longrightarrow> r \<in> set (fetchRequests n') \<Longrightarrow> CacheKey r = key \<Longrightarrow>
     r \<in> set (fetchRequests n)"
  by (auto simp: create_def split: option.splits if_splits)

lemma step_asks_nothing:
  assumes "step s s'" and "handlers (notifs (sysCache s)) key \<noteq> None" and "CacheKey r = key"
    and "r \<in> set (fetchRequests (notifs (sysCache s'))) \<union> set (fetching s')"
  shows "r \<in> set (fetchRequests (notifs (sysCache s))) \<union> set (fetching s)"
  using assms(1)
proof (cases rule: step_cases)
  case (begin_lookup t req c' entry x)
  from begin_lookup(3) show ?thesis
  proof (cases rule: getSA_quiet_or_registered)
    case (registered n y)
    with create_asks_nothing [OF registered(1) assms(2) _ assms(3)] begin_lookup(1) assms(4) show ?thesis by auto
  qed (use begin_lookup(1) assms(4) in simp)
next
  case (sa_added sa c')
  with addSA_registry(3) [of "sysCache s"] assms(4) show ?thesis by auto
next
  case (fetched req sa c')
  then have "addSA (sysCache s) sa = Ok c'" by (simp add: on_fetched_def)
  with fetched(1) addSA_registry(3) assms(4) show ?thesis by (auto dest: notin_set_remove1)
qed (use assms(4) in \<open>auto simp: popSA_def setCM_def popCM_def Clear_def receive_def on_fetched_def
      dest: notin_set_remove1 split: list.splits\<close>)

lemma step_abandoned:
  assumes "sys_inv s" and "step s s'" and "abandoned key s"
  shows "abandoned key s' \<or> saCache (sysCache s') key \<noteq> None"
  using assms step_registered [OF assms(1,2), of key] step_asks_nothing [OF assms(2), of key] unfolding abandoned_def by blast

lemma failed_fetch_not_retried:
  assumes "reachable s" and "abandoned key s" and "step\<^sup>*\<^sup>* s u"
  shows "abandoned key u \<or> (\<exists>v. step\<^sup>*\<^sup>* s v \<and> step\<^sup>*\<^sup>* v u \<and> saCache (sysCache v) key \<noteq> None)"
  using assms(3)
proof (induction rule: rtranclp_induct)
  case (step u u')
  have "sys_inv u"
    by (rule reachable_inv [OF reachable_steps [OF step.hyps(1) assms(1)]])
  then show ?case
    using step.IH step_abandoned [OF _ step.hyps(2), of key] step.hyps
    by (meson rtranclp.rtrancl_into_rtrancl rtranclp.rtrancl_refl)
qed (simp add: assms(2))

text \<open>A failed fetch leads there.\<close>

lemma fetch_failure_abandons:
  assumes "reachable s" and "fetching s = [req]" and "fetchRequests (notifs (sysCache s)) = []"
    and "handlers (notifs (sysCache s)) (CacheKey req) \<noteq> None"
  shows "\<exists>s'. step s s' \<and> abandoned (CacheKey req) s'"
proof -
  have "step s (s\<lparr>sysCache := sysCache s, fetching := remove1 req (fetching s), failed := insert req (failed s)\<rparr>)"
    by (intro step.fetcher fetcher_step.fetch_failed) (simp_all add: assms(2) on_fetched_def)
  then show ?thesis
    using assms(2-4) by (intro exI) (auto simp: abandoned_def)
qed

section \<open>Claims\<close>

text \<open>
  C30. The grace period in the running system. In a reachable state let a pod come in whose account is
  neither cached nor in the ConfigMap, with a grace period set and room in the queue of
  fetch requests. The lookup's steps lead to a state in which its thread waits on a channel. From
  there, whatever the other goroutines do until the wait ends in some state \<open>u\<close>: if the period
  runs out, the pod is left alone and counted as missing. The channel is closed only after
  the account was cached. A pod that is woken while the account is there with a role is configured
  for exactly that entry; if the account has gone again, the pod is left alone and counted. And
  unless an earlier fetch of the account has failed, steps of the receiver and of fetch goroutines
  alone, without the informer, lead to a state where the channel is closed and the account that the API
  server returned is cached.
\<close>

theorem grace_period_in_system:
  assumes "reachable s" and "lookups s t = None" and "Cache m = Some (sysCache s)" and "ContainerCredentialsConfig m = Some k"
    and "\<lparr>Namespace = podNamespace pod, ServiceAccountName = podServiceAccountName pod\<rparr> \<notin> identities_of k"
    and "0 < sint (saLookupGraceTime m)" and "\<not> found_in (sysCache s) (saRequest pod True)"
    and "length (fetchRequests (notifs (sysCache s))) < 1000"
    and "CHR ''/'' \<notin> set (podNamespace pod)" and "CHR ''/'' \<notin> set (podServiceAccountName pod)"
    and "key = cache_key (podNamespace pod) (podServiceAccountName pod)"
  shows "\<exists>s1 ch. step\<^sup>*\<^sup>* s s1 \<and> waits s1 t (saRequest pod True) ch \<and>
    (\<forall>u. step\<^sup>*\<^sup>* s1 u \<longrightarrow>
       buildPodPatchConfig realCache fcGet (\<lambda>_ _. (sysCache u, TimedOut)) m g pod =
         Ok (m\<lparr>Cache := Some (sysCache u)\<rparr>, countMissing g, None) \<and>
       (ch \<in> closedChans (notifs (sysCache u)) \<longrightarrow>
          (\<exists>v. step\<^sup>*\<^sup>* s1 v \<and> step\<^sup>*\<^sup>* v u \<and> saCache (sysCache v) key \<noteq> None)) \<and>
       (\<forall>e. saCache (sysCache u) key = Some e \<and> eRoleARN e \<noteq> [] \<longrightarrow>
          buildPodPatchConfig realCache fcGet (\<lambda>_ _. (sysCache u, Notified)) m g pod =
            Ok (m\<lparr>Cache := Some (sysCache u)\<rparr>, g\<lparr>podCountStsWebIdentity := Suc (podCountStsWebIdentity g)\<rparr>,
                Some (webIdentityConfig m pod e))) \<and>
       (\<not> found_in (sysCache u) (saRequest pod False) \<longrightarrow>
          buildPodPatchConfig realCache fcGet (\<lambda>_ _. (sysCache u, Notified)) m g pod =
            Ok (m\<lparr>Cache := Some (sysCache u)\<rparr>, countMissing g, None))) \<and>
    (\<forall>sa. saNamespace sa = podNamespace pod \<and> saName sa = podServiceAccountName pod \<and> (\<forall>r \<in> failed s. CacheKey r \<noteq> key) \<longrightarrow>
       (\<exists>u. fetcher_step\<^sup>*\<^sup>* s1 u \<and> ch \<in> closedChans (notifs (sysCache u)) \<and>
          saCache (sysCache u) key = Some (entry_of_SA (sysCache s) sa)))"
proof -
  have cap: "length (fetchRequests (notifs (sysCache s))) < fetchCap (notifs (sysCache s))"
    using reachable_queue [OF assms(1)] assms(8) by (simp add: queue_ok_def)
  note out = grace_outcomes [OF assms(3-7) cap, folded assms(11)]
  obtain ch c1 where get: "Get (sysCache s) (saRequest pod True) = Ok (c1, response_of None False (Some ch))"
    and reg: "handlers (notifs c1) key = Some ch"
    using out(1) by blast
  define s1 where "s1 = s\<lparr>sysCache := c1, lookups := (lookups s)(t \<mapsto> Answered (saRequest pod True) (response_of None False (Some ch)))\<rparr>"
  have run: "step\<^sup>*\<^sup>* s s1"
    unfolding s1_def by (rule lookup_waits [OF assms(2) get])
  have waiting: "waits s1 t (saRequest pod True) ch"
    by (simp add: waits_def s1_def response_of_def emptyResponse_def)
  have r1: "reachable s1"
    by (rule reachable_steps [OF run assms(1)])
  have reg1: "handlers (notifs (sysCache s1)) key = Some ch"
    using reg by (simp add: s1_def)
  have arrives: "\<exists>u. fetcher_step\<^sup>*\<^sup>* s1 u \<and> ch \<in> closedChans (notifs (sysCache u)) \<and>
      saCache (sysCache u) key = Some (entry_of_SA (sysCache s) sa)"
    if sa: "saNamespace sa = podNamespace pod" "saName sa = podServiceAccountName pod" "\<forall>r \<in> failed s. CacheKey r \<noteq> key" for sa
  proof -
    have "\<forall>r \<in> failed s1. CacheKey r \<noteq> key"
      using sa(3) by (simp add: s1_def)
    then obtain r where r: "CacheKey r = key"
      "r \<in> set (fetchRequests (notifs (sysCache s1))) \<or> r \<in> set (fetching s1)"
      using pending_request [OF r1 reg1] by blast
    have "entry_of_SA (sysCache s1) sa = entry_of_SA (sysCache s) sa"
      using Get_settings [OF get] by (simp add: s1_def)
    then show ?thesis
      using pending_run [OF r1 _ r(2), of ch sa] reg1 r(1) same_account [OF assms(9,10), of r] sa(1,2) assms(11) by auto
  qed
  show ?thesis
    using run waiting out(2-4) [where g = g] arrives woken_by_account [OF r1 _ reg1] by blast
qed

definition graceModifier :: "(serviceAccountCache, FileConfig) Modifier" where
  "graceModifier = exampleModifier\<lparr>Cache := Some (sysCache exampleStart), saLookupGraceTime := 100000000\<rparr>"

theorem grace_period_in_system_witness:
  "\<exists>s1 ch u. step\<^sup>*\<^sup>* exampleStart s1 \<and> waits s1 0 (saRequest examplePod True) ch \<and> fetcher_step\<^sup>*\<^sup>* s1 u \<and>
     ch \<in> closedChans (notifs (sysCache u))"
proof -
  have cache: "saCache (sysCache exampleStart) = Map.empty" "cmCache (sysCache exampleStart) = Map.empty"
    "fetchRequests (notifs (sysCache exampleStart)) = []" "failed exampleStart = {}" "lookups exampleStart 0 = None"
    by (simp_all add: exampleStart_def start_def New_def newNotifications_def)
  have mod: "Cache graceModifier = Some (sysCache exampleStart)"
    "ContainerCredentialsConfig graceModifier =
       Some (NewFileConfig ''aud'' ''/mnt'' ''vol'' ''tok'' ''http://169.254.170.23/v1/credentials'')"
    "0 < sint (saLookupGraceTime graceModifier)"
    by (simp_all add: graceModifier_def)
  have pod: "\<lparr>Namespace = podNamespace examplePod, ServiceAccountName = podServiceAccountName examplePod\<rparr> \<notin>
      identities_of (NewFileConfig ''aud'' ''/mnt'' ''vol'' ''tok'' ''http://169.254.170.23/v1/credentials'')"
    "\<not> found_in (sysCache exampleStart) (saRequest examplePod True)"
    "CHR ''/'' \<notin> set (podNamespace examplePod)" "CHR ''/'' \<notin> set (podServiceAccountName examplePod)"
    by (simp_all add: identities_of_def getCacheItem_def NewFileConfig_def found_in_def cache cm_lookup_def getCM_def examplePod_def)
  have "reachable exampleStart"
    by (simp add: exampleStart_def reachable.init)
  note all = grace_period_in_system [OF this cache(5) mod(1,2) pod(1) mod(3) pod(2) _ pod(3,4) refl, of zeroMetrics]
  obtain s1 ch where s1: "step\<^sup>*\<^sup>* exampleStart s1" "waits s1 0 (saRequest examplePod True) ch"
    and arrives: "\<forall>sa. saNamespace sa = podNamespace examplePod \<and> saName sa = podServiceAccountName examplePod \<and>
        (\<forall>r \<in> failed exampleStart. CacheKey r \<noteq> cache_key (podNamespace examplePod) (podServiceAccountName examplePod)) \<longrightarrow>
        (\<exists>u. fetcher_step\<^sup>*\<^sup>* s1 u \<and> ch \<in> closedChans (notifs (sysCache u)) \<and>
          saCache (sysCache u) (cache_key (podNamespace examplePod) (podServiceAccountName examplePod)) =
            Some (entry_of_SA (sysCache exampleStart) sa))"
    using all cache(3) by (elim meta_impE) (simp, elim exE conjE, rule that)
  have "saNamespace annotatedAccount = podNamespace examplePod" "saName annotatedAccount = podServiceAccountName examplePod"
    by (simp_all add: annotatedAccount_def examplePod_def)
  then show ?thesis
    using arrives [rule_format, of annotatedAccount] s1 cache(4) by auto
qed

end
