(* ===== verification/Routes.thy ===== *)
theory Routes
  imports ServerProps CacheDump
begin

text \<open>
  The two ports of the webhook as a client sees them: \<open>http.ServeMux\<close> over the tables of routes that
  \<open>main.go\<close> registers. The multiplexer sends a path that is not clean elsewhere (what it writes
  then is an argument), compares the unescaped elements of the path with the patterns, all of
  which are exact paths, and answers 404 if there is none.
\<close>

section \<open>The multiplexer\<close>

fun percent_decode :: "string \<Rightarrow> string option" where
  "percent_decode [] = Some []"
| "percent_decode (c # s) =
     (if c = CHR ''%'' then
        (case s of
           a # b # t \<Rightarrow>
             (case (hex_val a, hex_val b) of
                (Some x, Some y) \<Rightarrow> map_option (\<lambda>u. char_of (16 * x + y) # u) (percent_decode t)
              | _ \<Rightarrow> None)
         | _ \<Rightarrow> None)
      else map_option (\<lambda>u. c # u) (percent_decode s))"

definition pathUnescape :: "string \<Rightarrow> string" where
  "pathUnescape s = (case percent_decode s of None \<Rightarrow> s | Some t \<Rightarrow> t)"

definition cleanPath :: "string \<Rightarrow> string" where
  "cleanPath p =
     (if p = [] then ''/''
      else let p1 = (if hd p = CHR ''/'' then p else CHR ''/'' # p); np = Clean p1
           in if last p1 = CHR ''/'' \<and> np \<noteq> ''/'' then np @ ''/'' else np)"

text \<open>The exact path a request is matched as, if an element does not hide a slash.\<close>

definition routePath :: "string \<Rightarrow> string option" where
  "routePath path =
     (let segs = map pathUnescape (Split CHR ''/'' path)
      in if list_all (\<lambda>e. CHR ''/'' \<notin> set e) segs then Some (Join CHR ''/'' segs) else None)"

definition ServeHTTP ::
  "(string \<Rightarrow> ResponseWriter \<Rightarrow> HttpRequest \<Rightarrow> ResponseWriter) \<Rightarrow> (string \<rightharpoonup> 's handler) \<Rightarrow> 's handler" where
  "ServeHTTP redirect mux w r s =
     (let path = (if Method r = ''CONNECT'' then EscapedPath r else cleanPath (EscapedPath r)) in
      if path \<noteq> EscapedPath r then (redirect path w r, s, Returned)
      else case Option.bind (routePath path) mux of
             Some h \<Rightarrow> h w r s
           | None \<Rightarrow> (Error w ''404 page not found'' 404, s, Returned))"

lemma route_mutate: "cleanPath ''/mutate'' = ''/mutate''" "routePath ''/mutate'' = Some ''/mutate''"
  by code_simp+

text \<open>The requests that are sent to the clean form of their path.\<close>

definition unclean :: "HttpRequest \<Rightarrow> bool" where
  "unclean r \<longleftrightarrow> Method r \<noteq> ''CONNECT'' \<and> cleanPath (EscapedPath r) \<noteq> EscapedPath r"

lemma ServeHTTP_cases:
  obtains (redirected) "unclean r" "ServeHTTP redirect mux w r s = (redirect (cleanPath (EscapedPath r)) w r, s, Returned)"
  | (served) p h where "\<not> unclean r" "routePath (EscapedPath r) = Some p" "mux p = Some h" "ServeHTTP redirect mux w r s = h w r s"
  | (missing) "\<not> unclean r" "Option.bind (routePath (EscapedPath r)) mux = None"
      "ServeHTTP redirect mux w r s = (Error w ''404 page not found'' 404, s, Returned)"
proof (cases "unclean r")
  case True
  then show thesis
    by (intro redirected) (auto simp: ServeHTTP_def unclean_def)
next
  case False
  then have "(if Method r = ''CONNECT'' then EscapedPath r else cleanPath (EscapedPath r)) = EscapedPath r"
    by (auto simp: unclean_def)
  then show thesis
    using served missing False
    by (cases "Option.bind (routePath (EscapedPath r)) mux") (auto simp: ServeHTTP_def bind_eq_Some_conv)
qed

section \<open>Handlers behind the routes\<close>

lemma wrapped_state:
  assumes "formError r = None \<Longrightarrow> \<exists>w1. h (stacked n) r s = (w1, s, Returned)"
  shows "\<exists>w' s'. wrapped h (NetWriter n) r s = (w', s', Returned) \<and> modifier s' = modifier s \<and> podCounters s' = podCounters s"
proof (cases "formError r = None")
  case True
  with assms show ?thesis
    by (auto simp: wrapped_eq logRequest_def monitor_def)
next
  case False
  then show ?thesis
    by (auto simp: wrapped_def Apply_def Logging_def logRequest_def)
qed

lemma healthz_ok:
  assumes "unsent (NetWriter n)"
  shows "\<exists>w'. healthz (NetWriter n) r s = (w', s, Returned) \<and> wireStatus w' = 200 \<and> sentBody (conn w') = ''ok''"
  using Write_unsent(2,3) [of "NetWriter n" "''ok''"] assms by (simp add: healthz_def)

lemma wrapped_Handle_json:
  assumes "unsent (NetWriter n)" and "formError r = None" and "ContentType r = ''application/json''"
    and "wrapped (Handle rc codec cm ccGet wait) (NetWriter n) r s = (w', s', Returned)"
  shows "answered rc codec cm ccGet wait (case Body r of Some (Inr data) \<Rightarrow> data | _ \<Rightarrow> []) s s' w'"
proof -
  obtain w1 s1 where run: "Handle rc codec cm ccGet wait (stacked n) r s = (w1, s1, Returned)" and w': "w' = inner (inner w1)"
    and s': "s' = logRequest r (inner w1) (monitor (Method r) (URLPath r) (status w1) s1)"
    by (rule wrapped_run [OF assms(2,4)])
  have same: "modifier s' = modifier s1" "podCounters s' = podCounters s1" "wireStatus w' = wireStatus w1" "conn w' = conn w1"
    by (simp_all add: s' w' logRequest_def monitor_def wireStatus_def)
  show ?thesis
    using Handle_review [OF _ _ assms(3) run] stacked_unsent [OF assms(1)] unfolding answered_def same by blast
qed

lemma wrapped_Handle_other:
  assumes "unsent (NetWriter n)" and "formError r = None" and "ContentType r \<noteq> ''application/json''"
  shows "\<exists>w' s'. wrapped (Handle rc codec cm ccGet wait) (NetWriter n) r s = (w', s', Returned) \<and>
    wireStatus w' = 415 \<and> sentBody (conn w') = invalidContentType @ [CHR 0x0A] \<and>
    modifier s' = modifier s \<and> podCounters s' = podCounters s"
proof -
  obtain w1 where run: "Handle rc codec cm ccGet wait (stacked n) r s = (w1, s, Returned)"
    and w1: "wireStatus w1 = 415" "sentBody (conn w1) = invalidContentType @ [CHR 0x0A]"
    using Handle_other_content [of "stacked n" r rc codec cm ccGet wait s] stacked_unsent [OF assms(1)] assms(3) by blast
  then show ?thesis
    unfolding wrapped_eq [OF assms(2)] run by (simp add: logRequest_def monitor_def wireStatus_def)
qed

lemma wrapped_answer:
  assumes "formError r = None" and "h (stacked n) r s = (w1, s, Returned)"
  shows "\<exists>w' s'. wrapped h (NetWriter n) r s = (w', s', Returned) \<and> wireStatus w' = wireStatus w1 \<and> conn w' = conn w1"
  unfolding wrapped_eq [OF assms(1)] assms(2) by (simp add: wireStatus_def)

definition denial :: AdmissionReview where
  "denial = \<lparr>arRequest = None, arResponse = Some (denyWith ''Test deny message'')\<rparr>"

lemma debug_answers:
  assumes "unsent (NetWriter n)" and "formError r = None"
  shows "\<exists>w' s'. wrapped InternalServerError (NetWriter n) r s = (w', s', Returned) \<and> wireStatus w' = 500"
    and "\<exists>w' s'. wrapped (Deny rc) (NetWriter n) r s = (w', s', Returned) \<and>
      (\<forall>bytes. marshalReview rc denial = Inr bytes \<longrightarrow> wireStatus w' = 200 \<and> sentBody (conn w') = bytes)"
proof -
  note fresh = stacked_unsent [OF assms(1)]
  have "InternalServerError (stacked n) r s = (Error (stacked n) ''test error'' 500, s, Returned)"
    by (simp add: InternalServerError_def)
  from wrapped_answer [where h = InternalServerError and n = n and s = s, OF assms(2) this]
  show "\<exists>w' s'. wrapped InternalServerError (NetWriter n) r s = (w', s', Returned) \<and> wireStatus w' = 500"
    using Error_unsent(2) [of "stacked n" "''test error''" 500] fresh by auto
  have "Deny rc (stacked n) r s = (writeReview rc (stacked n) denial, s, Returned)"
    by (simp add: Deny_def denial_def)
  from wrapped_answer [where h = "Deny rc" and n = n and s = s, OF assms(2) this]
  show "\<exists>w' s'. wrapped (Deny rc) (NetWriter n) r s = (w', s', Returned) \<and>
      (\<forall>bytes. marshalReview rc denial = Inr bytes \<longrightarrow> wireStatus w' = 200 \<and> sentBody (conn w') = bytes)"
    using writeReview_unsent(2,3) [of "stacked n" rc denial] fresh by auto
qed

lemma webhookMux_served:
  assumes "webhookMux debug mutate rc p = Some h" and "p \<noteq> ''/mutate''"
  obtains (healthz) "p = ''/healthz''" "h = healthz"
  | (internal) "debug" "p = ''/debug/alpha/500''" "h = wrapped InternalServerError"
  | (deny) "debug" "p = ''/debug/alpha/deny''" "h = wrapped (Deny rc)"
  using assms by (auto simp: webhookMux_def split: if_splits)

lemma webhook_port:
  assumes "unsent (NetWriter n)" and "routePath (EscapedPath r) \<noteq> Some ''/mutate''"
  shows "case ServeHTTP redirect (webhookMux debug mutate rc) (NetWriter n) r s of (w', s', out) \<Rightarrow>
      out = Returned \<and> modifier s' = modifier s \<and> podCounters s' = podCounters s \<and>
      (if unclean r then s' = s \<and> w' = redirect (cleanPath (EscapedPath r)) (NetWriter n) r
       else if routePath (EscapedPath r) = Some ''/healthz'' then s' = s \<and> wireStatus w' = 200 \<and> sentBody (conn w') = ''ok''
       else if debug \<and> routePath (EscapedPath r) = Some ''/debug/alpha/500'' then formError r = None \<longrightarrow> wireStatus w' = 500
       else if debug \<and> routePath (EscapedPath r) = Some ''/debug/alpha/deny''
       then \<forall>bytes. formError r = None \<and> marshalReview rc denial = Inr bytes \<longrightarrow> wireStatus w' = 200 \<and> sentBody (conn w') = bytes
       else s' = s \<and> wireStatus w' = 404)"
proof (cases rule: ServeHTTP_cases [of r redirect "webhookMux debug mutate rc" "NetWriter n" s])
  case (served p h)
  have "p \<noteq> ''/mutate''"
    using served(2) assms(2) by auto
  with served(3) show ?thesis
  proof (cases rule: webhookMux_served)
    case healthz
    obtain w' where "Server.healthz (NetWriter n) r s = (w', s, Returned)" "wireStatus w' = 200" "sentBody (conn w') = ''ok''"
      using healthz_ok [OF assms(1), of r s] by (elim exE conjE) (rule that)
    then show ?thesis
      unfolding served(2,4) healthz using served(1) by simp
  next
    case internal
    obtain w' s' where w': "wrapped InternalServerError (NetWriter n) r s = (w', s', Returned)" "modifier s' = modifier s" "podCounters s' = podCounters s"
      using wrapped_state [of r InternalServerError n s] by (auto simp: InternalServerError_def)
    then show ?thesis
      unfolding served(2,4) internal using served(1) internal(1) debug_answers(1) [OF assms(1), of r s] by auto
  next
    case deny
    obtain w' s' where w': "wrapped (Deny rc) (NetWriter n) r s = (w', s', Returned)" "modifier s' = modifier s" "podCounters s' = podCounters s"
      using wrapped_state [of r "Deny rc" n s] by (auto simp: Deny_def)
    then show ?thesis
      unfolding served(2,4) deny using served(1) deny(1) debug_answers(2) [OF assms(1), of r rc s] by auto
  qed
next
  case missing
  have other: "routePath (EscapedPath r) \<noteq> Some ''/healthz''"
    "debug \<Longrightarrow> routePath (EscapedPath r) \<noteq> Some ''/debug/alpha/500'' \<and> routePath (EscapedPath r) \<noteq> Some ''/debug/alpha/deny''"
    using missing(2) by (auto simp: webhookMux_def map_add_def split: if_splits)
  have "wireStatus (Error (NetWriter n) ''404 page not found'' 404) = 404"
    using Error_unsent(2) [of "NetWriter n"] assms(1) by simp
  then show ?thesis
    using other missing(1) unfolding missing(3) by auto
qed simp

text \<open>What is left of the state after \<open>/debug/alpha/cache/clear\<close>.\<close>

abbreviation emptied :: "(serviceAccountCache, 'k) server \<Rightarrow> serviceAccountCache \<Rightarrow> (serviceAccountCache, 'k) server" where
  "emptied s c \<equiv> s\<lparr>modifier := (modifier s)\<lparr>Cache := Some (c\<lparr>saCache := Map.empty, cmCache := Map.empty\<rparr>)\<rparr>\<rparr>"

lemma metricsMux_served:
  assumes "metricsMux debug prom toJSON clear p = Some h" and "p \<noteq> ''/metrics''"
  obtains (dump) "debug" "p = ''/debug/alpha/cache''" "h = dumpHandle toJSON"
  | (clear) "debug" "p = ''/debug/alpha/cache/clear''" "h = dumpClear clear"
  using assms by (auto simp: metricsMux_def split: if_splits)

lemma dump_answer:
  assumes "unsent (NetWriter n)" and "Cache (modifier s) = Some c"
  shows "\<exists>w'. dumpHandle toJSON (NetWriter n) r s = (w', s, Returned) \<and> wireStatus w' = 200 \<and> sentBody (conn w') = toJSON c"
proof -
  note sent = Write_unsent(2-4) [of "NetWriter n" "toJSON c"]
  obtain w' k e where w: "Write (NetWriter n) (toJSON c) = (w', k, e)"
    by (cases "Write (NetWriter n) (toJSON c)")
  with sent assms(1) have "e = None" "wireStatus w' = 200" "sentBody (conn w') = toJSON c"
    by simp_all
  with w assms(2) show ?thesis by (simp add: dumpHandle_def)
qed

lemma metrics_port:
  assumes "unsent (NetWriter n)" and "Cache (modifier s) = Some c" and "routePath (EscapedPath r) \<noteq> Some ''/metrics''"
  shows "case ServeHTTP redirect (metricsMux debug prom toJSON Clear) (NetWriter n) r s of (w', s', out) \<Rightarrow>
      out = Returned \<and>
      (if unclean r then s' = s \<and> w' = redirect (cleanPath (EscapedPath r)) (NetWriter n) r
       else if debug \<and> routePath (EscapedPath r) = Some ''/debug/alpha/cache/clear'' then s' = emptied s c
       else s' = s \<and>
         (if debug \<and> routePath (EscapedPath r) = Some ''/debug/alpha/cache'' then wireStatus w' = 200 \<and> sentBody (conn w') = toJSON c
          else wireStatus w' = 404))"
proof (cases rule: ServeHTTP_cases [of r redirect "metricsMux debug prom toJSON Clear" "NetWriter n" s])
  case (served p h)
  have "p \<noteq> ''/metrics''"
    using served(2) assms(3) by auto
  with served(3) show ?thesis
  proof (cases rule: metricsMux_served)
    case dump
    then show ?thesis
      unfolding served(2,4) using served(1) dump_answer [OF assms(1,2), of toJSON r] by auto
  next
    case clear
    then show ?thesis
      unfolding served(2,4) using served(1) assms(2) by (simp add: dumpClear_def Clear_def)
  qed
next
  case missing
  have "debug \<Longrightarrow> routePath (EscapedPath r) \<noteq> Some ''/debug/alpha/cache/clear'' \<and> routePath (EscapedPath r) \<noteq> Some ''/debug/alpha/cache''"
    using missing(2) by (auto simp: metricsMux_def map_add_def)
  with missing show ?thesis
    using Error_unsent(2) [of "NetWriter n" "''404 page not found''" 404] assms(1) by auto
qed simp

section \<open>Claims\<close>

text \<open>
  C33. The mutation route, from the request to the wire. A request to \<open>/mutate\<close> whose form parses, on a
  connection that takes every write: with another content type than JSON it is answered with
  status 415 and a message, without decoding anything, and modifier, cache and pod counters stay as
  they are. With JSON, if the modifier returns, the client gets status 200 and the encoding of a
  review whose response is the modifier's with the UID of the request, also when the pod is
  refused, and the state becomes the modifier's; a body that does not decode gets a refusal and
  changes no state (\<open>answered\<close>). In both cases the request counter goes up by one in exactly one
  series, that of the request's verb and path and of the status on the wire, and the access log
  gets one line with that status and the size of the body that was sent.
\<close>

theorem mutate_route_serves:
  assumes "unsent (NetWriter n)" and "formError r = None" and "EscapedPath r = ''/mutate''"
  shows "case ServeHTTP redirect (webhookMux debug (Handle rc codec cm ccGet wait) rc) (NetWriter n) r s of (w', s', out) \<Rightarrow>
    (ContentType r \<noteq> ''application/json'' \<longrightarrow>
       out = Returned \<and> wireStatus w' = 415 \<and> sentBody (conn w') = invalidContentType @ [CHR 0x0A] \<and>
       modifier s' = modifier s \<and> podCounters s' = podCounters s) \<and>
    (ContentType r = ''application/json'' \<and> out = Returned \<longrightarrow>
       answered rc codec cm ccGet wait (case Body r of Some (Inr data) \<Rightarrow> data | _ \<Rightarrow> []) s s' w') \<and>
    (out = Returned \<longrightarrow>
       requestCounter s' = (requestCounter s)((Method r, URLPath r, Itoa (wireStatus w')) :=
         Suc (requestCounter s (Method r, URLPath r, Itoa (wireStatus w')))) \<and>
       accessLog s' = accessLog s @ [\<lparr>logPath = URLPath r, logMethod = Method r, logStatus = wireStatus w',
         logUserAgent = UserAgent r, logBytes = length (sentBody (conn w'))\<rparr>])"
proof -
  have mux: "webhookMux debug (Handle rc codec cm ccGet wait) rc ''/mutate'' = Some (wrapped (Handle rc codec cm ccGet wait))"
    by (simp add: webhookMux_def map_add_def)
  have serve: "ServeHTTP redirect (webhookMux debug (Handle rc codec cm ccGet wait) rc) (NetWriter n) r s =
      wrapped (Handle rc codec cm ccGet wait) (NetWriter n) r s"
    by (simp add: ServeHTTP_def assms(3) route_mutate mux)
  obtain w' s' out where run: "wrapped (Handle rc codec cm ccGet wait) (NetWriter n) r s = (w', s', out)"
    by (metis prod.collapse)
  have metrics: "requestCounter s' = (requestCounter s)((Method r, URLPath r, Itoa (wireStatus w')) :=
        Suc (requestCounter s (Method r, URLPath r, Itoa (wireStatus w')))) \<and>
      accessLog s' = accessLog s @ [\<lparr>logPath = URLPath r, logMethod = Method r, logStatus = wireStatus w',
        logUserAgent = UserAgent r, logBytes = length (sentBody (conn w'))\<rparr>]" if "out = Returned"
    by (rule mutate_route.wrapped_follows_wire [OF assms(1,2) run [unfolded that]])
  show ?thesis
    unfolding serve run prod.case
  proof (intro conjI impI; (elim conjE)?)
    assume "ContentType r = ''application/json''" "out = Returned"
    with run show "answered rc codec cm ccGet wait (case Body r of Some (Inr data) \<Rightarrow> data | _ \<Rightarrow> []) s s' w'"
      by (intro wrapped_Handle_json [OF assms(1,2)]) simp_all
  qed (use wrapped_Handle_other [OF assms(1,2), of rc codec cm ccGet wait s] run metrics in auto)
qed

theorem mutate_route_serves_witness:
  "\<exists>w' s'. ServeHTTP (\<lambda>_ w _. w) (webhookMux False (Handle exampleReviewCodecs exampleCodecs realCache fcGet timesOut)
       exampleReviewCodecs) (NetWriter freshConn) (mutateRequest\<lparr>ContentType := ''text/plain''\<rparr>) exampleServer = (w', s', Returned) \<and>
     wireStatus w' = 415 \<and> map logStatus (accessLog s') = [415]"
  using mutate_route_serves [where n = freshConn and r = "mutateRequest\<lparr>ContentType := ''text/plain''\<rparr>" and
      redirect = "\<lambda>_ w _. w" and debug = False and rc = exampleReviewCodecs and codec = exampleCodecs and
      cm = realCache and ccGet = fcGet and wait = timesOut and s = exampleServer]
  by (auto simp: mutateRequest_def exampleServer_def split: prod.splits)

text \<open>
  C34. Nothing but \<open>/mutate\<close> reaches the modifier, and the debugging handlers are closed unless they are
  switched on. On both ports a request whose path is not clean is sent to the clean form, and
  changes nothing. On the webhook's port every other request that is not routed to \<open>/mutate\<close> returns
  and leaves the modifier with its cache and the pod counters alone: \<open>/healthz\<close> answers \<open>ok\<close>, the two
  debugging paths answer, if the flag is set, with status 500 and with the encoded refusal, and
  everything else is answered with 404 and changes no state at all. On the metrics port, apart
  from \<open>/metrics\<close>: with the flag set \<open>/debug/alpha/cache\<close> answers with the dump of the cache, and
  \<open>/debug/alpha/cache/clear\<close> empties the two tables of the cache and changes nothing else; everything
  else, and without the flag these two as well, is answered with 404 and leaves the state alone.
\<close>

theorem ports_isolated:
  assumes "unsent (NetWriter n)" and "Cache (modifier s) = Some c"
  shows "(routePath (EscapedPath r) \<noteq> Some ''/mutate'' \<longrightarrow>
      (case ServeHTTP redirect (webhookMux debug mutate rc) (NetWriter n) r s of (w', s', out) \<Rightarrow>
         out = Returned \<and> modifier s' = modifier s \<and> podCounters s' = podCounters s \<and>
         (if unclean r then s' = s \<and> w' = redirect (cleanPath (EscapedPath r)) (NetWriter n) r
          else if routePath (EscapedPath r) = Some ''/healthz'' then s' = s \<and> wireStatus w' = 200 \<and> sentBody (conn w') = ''ok''
          else if debug \<and> routePath (EscapedPath r) = Some ''/debug/alpha/500'' then formError r = None \<longrightarrow> wireStatus w' = 500
          else if debug \<and> routePath (EscapedPath r) = Some ''/debug/alpha/deny''
          then \<forall>bytes. formError r = None \<and> marshalReview rc denial = Inr bytes \<longrightarrow> wireStatus w' = 200 \<and> sentBody (conn w') = bytes
          else s' = s \<and> wireStatus w' = 404))) \<and>
    (routePath (EscapedPath r) \<noteq> Some ''/metrics'' \<longrightarrow>
      (case ServeHTTP redirect (metricsMux debug prom toJSON Clear) (NetWriter n) r s of (w', s', out) \<Rightarrow>
         out = Returned \<and>
         (if unclean r then s' = s \<and> w' = redirect (cleanPath (EscapedPath r)) (NetWriter n) r
          else if debug \<and> routePath (EscapedPath r) = Some ''/debug/alpha/cache/clear'' then s' = emptied s c
          else s' = s \<and>
            (if debug \<and> routePath (EscapedPath r) = Some ''/debug/alpha/cache'' then wireStatus w' = 200 \<and> sentBody (conn w') = toJSON c
             else wireStatus w' = 404))))"
  by (intro conjI impI webhook_port [OF assms(1)] metrics_port [OF assms])

text \<open>Emptying the example cache over the metrics port, and the same request without the flag.\<close>

theorem ports_isolated_witness:
  "(\<exists>w'. ServeHTTP (\<lambda>_ w _. w) (metricsMux True (\<lambda>w r s. (w, s, Returned)) ToJSON Clear) (NetWriter freshConn)
       (mutateRequest\<lparr>EscapedPath := ''/debug/alpha/cache/clear''\<rparr>) exampleServer = (w', emptied exampleServer exampleCache, Returned)) \<and>
   (\<exists>w'. ServeHTTP (\<lambda>_ w _. w) (metricsMux False (\<lambda>w r s. (w, s, Returned)) ToJSON Clear) (NetWriter freshConn)
       (mutateRequest\<lparr>EscapedPath := ''/debug/alpha/cache/clear''\<rparr>) exampleServer = (w', exampleServer, Returned) \<and> wireStatus w' = 404)"
proof
  let ?r = "mutateRequest\<lparr>EscapedPath := ''/debug/alpha/cache/clear''\<rparr>"
  have cache: "Cache (modifier exampleServer) = Some exampleCache"
    by (simp add: exampleServer_def)
  have route: "routePath (EscapedPath ?r) = Some ''/debug/alpha/cache/clear''" "cleanPath (EscapedPath ?r) = EscapedPath ?r"
    by (simp, code_simp)+
  then have clean: "\<not> unclean ?r"
    by (simp add: unclean_def)
  note all = ports_isolated [OF unsent_fresh cache, THEN conjunct2, rule_format, where r = ?r and redirect = "\<lambda>_ w _. w" and
      prom = "\<lambda>w r s. (w, s, Returned)" and toJSON = ToJSON]
  show "\<exists>w'. ServeHTTP (\<lambda>_ w _. w) (metricsMux True (\<lambda>w r s. (w, s, Returned)) ToJSON Clear) (NetWriter freshConn)
      ?r exampleServer = (w', emptied exampleServer exampleCache, Returned)"
    using all [where debug = True] route(1) clean by (auto split: prod.splits)
  show "\<exists>w'. ServeHTTP (\<lambda>_ w _. w) (metricsMux False (\<lambda>w r s. (w, s, Returned)) ToJSON Clear) (NetWriter freshConn)
      ?r exampleServer = (w', exampleServer, Returned) \<and> wireStatus w' = 404"
    using all [where debug = False] route(1) clean by (auto split: prod.splits)
qed

end
