(* ===== verification/Fetch.thy ===== *)
theory Fetch
  imports System
begin

text \<open>
  \<open>fetchFromAPI\<close> of \<open>pkg/cache/cache.go\<close> and the goroutine that calls it. The API server's answers to
  successive calls of \<open>Get\<close> are an argument, and so is \<open>retry.OnError\<close> of client-go, with its
  documentation as the hypothesis \<open>onError_contract\<close>: it calls the function again after an error
  that the predicate accepts, a limited number of times, and returns the last call's error. The
  context's timeout shows as an error of a call. The rate limiter only delays the goroutine.
\<close>

section \<open>The code\<close>







section \<open>The contract of the retries\<close>



section \<open>The reference\<close>









section \<open>Claims\<close>









end
