(* ===== verification/Shutdown.thy ===== *)
theory Shutdown
  imports GoStrings
begin

text \<open>
  \<open>pkg/handler/shutdown.go\<close> and the end of \<open>main.go\<close>. The goroutine of \<open>ShutdownFromContext\<close> is
  the list of its operations on the two channels, in the order it performs them (the deferred
  closes run last-in first-out); \<open>main\<close> first receives from the done channel and then from the
  error channel. The server's \<open>Shutdown\<close> and \<open>Close\<close> are given by the errors they return.
\<close>

section \<open>The goroutine\<close>

record shutdownChans =
  errBuf :: "string option list"
  errClosed :: bool
  doneClosed :: bool

definition newChans :: shutdownChans where
  "newChans = \<lparr>errBuf = [], errClosed = False, doneClosed = False\<rparr>"

datatype chanOp = SendErr "string option" | CloseErr | CloseDone

text \<open>The error channel has capacity one; sending on a full one does not return.\<close>

primrec do_op :: "chanOp \<Rightarrow> shutdownChans \<Rightarrow> shutdownChans go" where
  "do_op (SendErr e) c =
     (if errClosed c then Panic SendOnClosedChannel
      else if errBuf c = [] then Ok (c\<lparr>errBuf := [e]\<rparr>) else NoReturn)"
| "do_op CloseErr c = (if errClosed c then Panic CloseOfClosedChannel else Ok (c\<lparr>errClosed := True\<rparr>))"
| "do_op CloseDone c = (if doneClosed c then Panic CloseOfClosedChannel else Ok (c\<lparr>doneClosed := True\<rparr>))"

definition shutdownError :: "string option \<Rightarrow> string option \<Rightarrow> string option" where
  "shutdownError shutdownErr closeErr =
     (case shutdownErr of
        None \<Rightarrow> None
      | Some err \<Rightarrow>
          (case closeErr of
             Some ce \<Rightarrow> Some (''graceful server shutdown failed: '' @ err @ [CHR 0x0A] @
                              ''server force close failed: '' @ ce)
           | None \<Rightarrow> Some (''graceful server shutdown failed, server has been force closed: '' @ err)))"

text \<open>Until the context is cancelled the goroutine does nothing.\<close>

definition ShutdownFromContext :: "bool \<Rightarrow> string option \<Rightarrow> string option \<Rightarrow> chanOp list" where
  "ShutdownFromContext cancelled shutdownErr closeErr =
     (if cancelled then [SendErr (shutdownError shutdownErr closeErr), CloseErr, CloseDone] else [])"

section \<open>The receiver\<close>

text \<open>\<open><-serverDone\<close> and then \<open><-serverShutdownError\<close>: a closed empty channel delivers nil at once.\<close>

definition recvErr :: "shutdownChans \<Rightarrow> string option go" where
  "recvErr c = (case errBuf c of e # _ \<Rightarrow> Ok e | [] \<Rightarrow> if errClosed c then Ok None else NoReturn)"

definition awaitShutdown :: "shutdownChans \<Rightarrow> string option go" where
  "awaitShutdown c = (if doneClosed c then recvErr c else NoReturn)"

section \<open>The result is delivered\<close>

lemma prefix_of_three: "prefix xs [a, b, c] \<Longrightarrow> xs = [] \<or> xs = [a] \<or> xs = [a, b] \<or> xs = [a, b, c]"
  by (cases xs; cases "tl xs"; cases "tl (tl xs)") (auto simp: prefix_def)

text \<open>
  At every moment of the goroutine's run, nothing has panicked or blocked, and if the done channel
  is closed then the result of the shutdown is already in the error channel, so that the
  receive after it returns at once with it; before that the receiver goes on waiting. The
  result is nil exactly when the graceful shutdown succeeded.
\<close>

lemma shutdown_result_delivered:
  assumes "prefix ops (ShutdownFromContext cancelled shutdownErr closeErr)"
  shows "\<exists>c. go_fold do_op ops newChans = Ok c \<and>
    (if doneClosed c then awaitShutdown c = Ok (shutdownError shutdownErr closeErr) else awaitShutdown c = NoReturn) \<and>
    (doneClosed c \<longleftrightarrow> cancelled \<and> ops = ShutdownFromContext cancelled shutdownErr closeErr) \<and>
    (shutdownError shutdownErr closeErr = None \<longleftrightarrow> shutdownErr = None)"
proof (cases cancelled)
  case True
  then consider "ops = []" | "ops = [SendErr (shutdownError shutdownErr closeErr)]"
    | "ops = [SendErr (shutdownError shutdownErr closeErr), CloseErr]"
    | "ops = [SendErr (shutdownError shutdownErr closeErr), CloseErr, CloseDone]"
    using assms prefix_of_three unfolding ShutdownFromContext_def by force
  then show ?thesis
    using True
    by cases (simp_all add: newChans_def awaitShutdown_def recvErr_def ShutdownFromContext_def,
              auto simp: shutdownError_def split: option.split)
next
  case False
  with assms show ?thesis
    by (simp add: ShutdownFromContext_def newChans_def awaitShutdown_def) (auto simp: shutdownError_def split: option.split)
qed

end
