(* ===== verification/CertStore.thy ===== *)
theory CertStore
  imports Prelude
begin

text \<open>
  \<open>pkg/cert/store.go\<close>: a certificate store that keeps the TLS pair in a Kubernetes secret. The
  API server and the \<open>crypto\<close> packages are not part of the repository: the client's calls and
  the two parsers are arguments, and \<open>api_contract\<close> and \<open>parser_contract\<close> state what is relied on.
\<close>

section \<open>Data\<close>

record Secret =
  secretName :: string
  secretNamespace :: string
  Data :: "string \<rightharpoonup> string"
  SecretType :: string

record secretCertStore =
  storeNamespace :: string
  storeSecretName :: string

definition NewSecretCertStore :: "string \<Rightarrow> string \<Rightarrow> secretCertStore" where
  "NewSecretCertStore namespace name = \<lparr>storeNamespace = namespace, storeSecretName = name\<rparr>"

text \<open>The client: \<open>Get\<close>, \<open>Create\<close> and \<open>Update\<close> of secrets in a namespace.\<close>

record 'a secretsClient =
  secGet :: "'a \<Rightarrow> string \<Rightarrow> string \<Rightarrow> string + Secret"
  secCreate :: "'a \<Rightarrow> string \<Rightarrow> Secret \<Rightarrow> 'a \<times> string option"
  secUpdate :: "'a \<Rightarrow> string \<Rightarrow> Secret \<Rightarrow> 'a \<times> string option"

text \<open>\<open>tls.X509KeyPair\<close> gives the chain of DER blocks, \<open>x509.ParseCertificates\<close> the certificates of one.\<close>

record tlsCertificate =
  Certificate :: "string list"
  Leaf :: "string option"

record x509 =
  X509KeyPair :: "string \<Rightarrow> string \<Rightarrow> string + tlsCertificate"
  ParseCertificates :: "string \<Rightarrow> string + string list"

datatype storeError = NoCertKeyError | ApiError string | KeyPairError string | ParseError string

definition TLSCertKey :: string where "TLSCertKey = ''tls.crt''"
definition TLSPrivateKeyKey :: string where "TLSPrivateKeyKey = ''tls.key''"

section \<open>Operations\<close>

definition loadX509KeyPairData :: "x509 \<Rightarrow> string \<Rightarrow> string \<Rightarrow> (storeError + tlsCertificate) go" where
  "loadX509KeyPairData x cert key =
     (case X509KeyPair x cert key of
        Inl err \<Rightarrow> Ok (Inl (KeyPairError err))
      | Inr tlsCert \<Rightarrow>
          (case Certificate tlsCert of
             [] \<Rightarrow> Panic IndexOutOfRange
           | der # _ \<Rightarrow>
               (case ParseCertificates x der of
                  Inl err \<Rightarrow> Ok (Inl (ParseError err))
                | Inr [] \<Rightarrow> Panic IndexOutOfRange
                | Inr (leaf # _) \<Rightarrow> Ok (Inr (tlsCert\<lparr>Leaf := Some leaf\<rparr>)))))"

definition Current ::
  "x509 \<Rightarrow> 'a secretsClient \<Rightarrow> secretCertStore \<Rightarrow> 'a \<Rightarrow> (storeError + tlsCertificate) go" where
  "Current x cl s api =
     (case secGet cl api (storeNamespace s) (storeSecretName s) of
        Inl err \<Rightarrow> Ok (Inl NoCertKeyError)
      | Inr secret \<Rightarrow>
          (case Data secret TLSPrivateKeyKey of
             None \<Rightarrow> Ok (Inl NoCertKeyError)
           | Some keyBytes \<Rightarrow>
               (case Data secret TLSCertKey of
                  None \<Rightarrow> Ok (Inl NoCertKeyError)
                | Some certBytes \<Rightarrow> loadX509KeyPairData x certBytes keyBytes)))"

definition tlsData :: "string \<Rightarrow> string \<Rightarrow> string \<rightharpoonup> string" where
  "tlsData cert key = [TLSCertKey \<mapsto> cert, TLSPrivateKeyKey \<mapsto> key]"

definition Update ::
  "x509 \<Rightarrow> 'a secretsClient \<Rightarrow> secretCertStore \<Rightarrow> 'a \<Rightarrow> string \<Rightarrow> string
     \<Rightarrow> ('a \<times> (storeError + tlsCertificate)) go" where
  "Update x cl s api cert key =
     (let (api', err) =
        (case secGet cl api (storeNamespace s) (storeSecretName s) of
           Inl _ \<Rightarrow> secCreate cl api (storeNamespace s)
                     \<lparr>secretName = storeSecretName s, secretNamespace = storeNamespace s,
                      Data = tlsData cert key, SecretType = ''kubernetes.io/tls''\<rparr>
         | Inr secret \<Rightarrow> secUpdate cl api (storeNamespace s) (secret\<lparr>Data := tlsData cert key\<rparr>))
      in case err of
           Some e \<Rightarrow> Ok (api', Inl (ApiError e))
         | None \<Rightarrow> go_bind (loadX509KeyPairData x cert key) (\<lambda>r. Ok (api', r)))"

section \<open>Contracts\<close>

text \<open>
  A successful write is what the next read of that secret returns, and a read finds the secret
  under its own name. \<open>X509KeyPair\<close> parses the first block of the chain it returns, so there is one and
  it is not empty. \<open>ParseCertificates\<close> reads certificates until its input is used up: the empty
  input gives none, and every other input that parses gives at least one.
\<close>

definition api_contract :: "'a secretsClient \<Rightarrow> bool" where
  "api_contract cl \<longleftrightarrow>
     (\<forall>api ns sec api'. secCreate cl api ns sec = (api', None) \<longrightarrow> secGet cl api' ns (secretName sec) = Inr sec) \<and>
     (\<forall>api ns sec api'. secUpdate cl api ns sec = (api', None) \<longrightarrow> secGet cl api' ns (secretName sec) = Inr sec) \<and>
     (\<forall>api ns n sec. secGet cl api ns n = Inr sec \<longrightarrow> secretName sec = n)"

definition parser_contract :: "x509 \<Rightarrow> bool" where
  "parser_contract x \<longleftrightarrow>
     (\<forall>c k t. X509KeyPair x c k = Inr t \<longrightarrow> (\<exists>der ders. Certificate t = der # ders \<and> der \<noteq> [])) \<and>
     (\<forall>d. ParseCertificates x d = Inr [] \<longleftrightarrow> d = [])"

section \<open>Claims\<close>

lemma loadX509_returns: "parser_contract x \<Longrightarrow> \<exists>r. loadX509KeyPairData x cert key = Ok r"
  by (fastforce simp: loadX509KeyPairData_def parser_contract_def split: sum.split list.split)

text \<open>
  C37. What is stored is what is served: after an \<open>Update\<close> that the API server accepted, whether it
  created the secret or replaced the data of an existing one, \<open>Current\<close> gives the same
  result as \<open>Update\<close> did, the parsed pair or the parser's error. Neither panics.
\<close>

theorem Update_then_Current:
  assumes "api_contract cl" and "parser_contract x"
  shows "\<exists>api' r. Update x cl s api cert key = Ok (api', r) \<and>
    ((\<exists>e. r = Inl (ApiError e)) \<or> Current x cl s api' = Ok r)"
proof -
  obtain api' err where stored: "(case secGet cl api (storeNamespace s) (storeSecretName s) of
      Inl _ \<Rightarrow> secCreate cl api (storeNamespace s)
                \<lparr>secretName = storeSecretName s, secretNamespace = storeNamespace s,
                 Data = tlsData cert key, SecretType = ''kubernetes.io/tls''\<rparr>
    | Inr secret \<Rightarrow> secUpdate cl api (storeNamespace s) (secret\<lparr>Data := tlsData cert key\<rparr>)) = (api', err)"
    by fastforce
  show ?thesis
  proof (cases err)
    case (Some e)
    with stored show ?thesis by (simp add: Update_def)
  next
    case None
    have "\<exists>sec. secGet cl api' (storeNamespace s) (storeSecretName s) = Inr sec \<and> Data sec = tlsData cert key"
    proof (cases "secGet cl api (storeNamespace s) (storeSecretName s)")
      case (Inl e)
      with stored None assms(1) show ?thesis unfolding api_contract_def by fastforce
    next
      case (Inr sec)
      then have "secretName sec = storeSecretName s"
        using assms(1) unfolding api_contract_def by blast
      with Inr stored None assms(1) show ?thesis unfolding api_contract_def by fastforce
    qed
    then have "Current x cl s api' = loadX509KeyPairData x cert key"
      by (auto simp: Current_def tlsData_def TLSCertKey_def TLSPrivateKeyKey_def)
    moreover obtain r where "loadX509KeyPairData x cert key = Ok r"
      using loadX509_returns [OF assms(2)] by blast
    ultimately show ?thesis
      using stored None by (intro exI [of _ api'] exI [of _ r]) (simp add: Update_def)
  qed
qed

text \<open>An API server that keeps secrets in a table, for the witness.\<close>

definition tableClient :: "(string \<times> string \<rightharpoonup> Secret) secretsClient" where
  "tableClient =
     \<lparr>secGet = (\<lambda>api ns n. case api (ns, n) of
                  None \<Rightarrow> Inl ''not found''
                | Some sec \<Rightarrow> if secretName sec = n then Inr sec else Inl ''not found''),
      secCreate = (\<lambda>api ns sec. if api (ns, secretName sec) = None then (api((ns, secretName sec) \<mapsto> sec), None)
                                else (api, Some ''already exists'')),
      secUpdate = (\<lambda>api ns sec. (api((ns, secretName sec) \<mapsto> sec), None))\<rparr>"

definition plainX509 :: x509 where
  "plainX509 =
     \<lparr>X509KeyPair = (\<lambda>c k. if c = [] then Inl ''malformed certificate'' else Inr \<lparr>Certificate = [c], Leaf = None\<rparr>),
      ParseCertificates = (\<lambda>d. if d = [] then Inr [] else Inr [d])\<rparr>"

theorem Update_then_Current_witness:
  "\<exists>api'. Update plainX509 tableClient (NewSecretCertStore ''eks'' ''tls'') Map.empty ''C'' ''K'' =
       Ok (api', Inr \<lparr>Certificate = [''C''], Leaf = Some ''C''\<rparr>) \<and>
     Current plainX509 tableClient (NewSecretCertStore ''eks'' ''tls'') api' =
       Ok (Inr \<lparr>Certificate = [''C''], Leaf = Some ''C''\<rparr>)"
proof -
  have "api_contract tableClient" "parser_contract plainX509"
    by (auto simp: api_contract_def tableClient_def parser_contract_def plainX509_def
        split: option.splits if_splits)
  from Update_then_Current [OF this, of "NewSecretCertStore ''eks'' ''tls''" Map.empty "''C''" "''K''"]
  show ?thesis
    by (auto simp: Update_def tableClient_def NewSecretCertStore_def plainX509_def loadX509KeyPairData_def)
qed

end
