(* ===== verification/Certs.thy ===== *)
theory Certs
  imports CertStore
begin

text \<open>
  \<open>pkg/cert/request.go\<close>, and the metrics the program registers: \<open>init\<close> of \<open>pkg/cache/cache.go\<close> and of
  \<open>pkg/handler/middleware.go\<close>, and the histogram of the certificate manager. The Prometheus
  registry and \<open>certificate.NewManager\<close> of client-go are arguments.
\<close>

section \<open>Metrics\<close>

text \<open>The arguments of the library's bucket function are kept as they are; a summary has its window in nanoseconds.\<close>

datatype buckets = DefaultBuckets | ExponentialBuckets nat nat nat

datatype metricType = Gauge | Counter | Histogram buckets | Summary nat

record metricOpts =
  metricType :: metricType
  Subsystem :: string
  metricName :: string
  Help :: string
  metricLabels :: "string list"

definition webhookUsageOpts :: metricOpts where
  "webhookUsageOpts =
     \<lparr>metricType = Gauge, Subsystem = [], metricName = ''pod_identity_webhook_used'',
      Help = ''Indicator to know pod identity webhook is used'', metricLabels = []\<rparr>"

definition requestCounterOpts :: metricOpts where
  "requestCounterOpts =
     \<lparr>metricType = Counter, Subsystem = [], metricName = ''http_request_count'',
      Help = ''Counter of requests broken out for each verb, path, and response code.'',
      metricLabels = [''verb'', ''path'', ''code'']\<rparr>"

definition requestLatenciesOpts :: metricOpts where
  "requestLatenciesOpts =
     \<lparr>metricType = Histogram (ExponentialBuckets 125000 2 7), Subsystem = [], metricName = ''http_request_latencies'',
      Help = ''Response latency distribution in microseconds for each verb and path'',
      metricLabels = [''verb'', ''path'']\<rparr>"

definition requestLatenciesSummaryOpts :: metricOpts where
  "requestLatenciesSummaryOpts =
     \<lparr>metricType = Summary (60 * 60 * 10 ^ 9), Subsystem = [], metricName = ''http_request_duration_microseconds'',
      Help = ''Response latency summary in microseconds for each verb and path.'', metricLabels = [''verb'', ''path'']\<rparr>"

definition webhookPodCountOpts :: metricOpts where
  "webhookPodCountOpts =
     \<lparr>metricType = Counter, Subsystem = [], metricName = ''pod_identity_webhook_pod_count'',
      Help = ''Indicator to how many pods are using sts web identity or container credentials'',
      metricLabels = [''method'']\<rparr>"

definition missingSACounterOpts :: metricOpts where
  "missingSACounterOpts =
     \<lparr>metricType = Counter, Subsystem = [], metricName = ''pod_identity_webhook_missing_sa_count'',
      Help = ''Service account did not have the right annotations or was not found in the cache.'', metricLabels = []\<rparr>"

definition certificateRotationOpts :: metricOpts where
  "certificateRotationOpts =
     \<lparr>metricType = Histogram DefaultBuckets, Subsystem = ''certificate_manager'', metricName = ''server_rotation_seconds'',
      Help = ''Histogram of the lifetime of a certificate. The value is the time in seconds the certificate lived before getting rotated'',
      metricLabels = []\<rparr>"

text \<open>\<open>prometheus.MustRegister\<close> on the default registry.\<close>

type_synonym 'r mustRegister = "metricOpts \<Rightarrow> 'r \<Rightarrow> 'r go"

definition cacheInit :: "'r mustRegister \<Rightarrow> 'r \<Rightarrow> 'r go" where
  "cacheInit mustRegister r = mustRegister webhookUsageOpts r"

definition register :: "'r mustRegister \<Rightarrow> 'r \<Rightarrow> 'r go" where
  "register mustRegister r =
     go_fold mustRegister
       [requestCounterOpts, requestLatenciesOpts, requestLatenciesSummaryOpts, webhookPodCountOpts, missingSACounterOpts] r"

section \<open>The certificate manager\<close>

record certRequest =
  CommonName :: string
  DNSNames :: "string list"

text \<open>
  The configuration of the manager. The program has one clientset, which \<open>ClientsetFn\<close> returns whatever
  the current certificate is, and the model does not name it.
\<close>

datatype keyUsage = UsageDigitalSignature | UsageKeyEncipherment | UsageServerAuth

record managerConfig =
  Template :: certRequest
  Usages :: "keyUsage list"
  SignerName :: string
  CertificateStore :: secretCertStore
  CertificateRotation :: metricOpts

definition serverManagerConfig :: "string \<Rightarrow> string \<Rightarrow> certRequest \<Rightarrow> managerConfig" where
  "serverManagerConfig namespace name csr =
     \<lparr>Template = csr, Usages = [UsageDigitalSignature, UsageKeyEncipherment, UsageServerAuth],
      SignerName = ''kubernetes.io/legacy-unknown'', CertificateStore = NewSecretCertStore namespace name,
      CertificateRotation = certificateRotationOpts\<rparr>"

text \<open>\<open>newManager\<close> gives the error of \<open>certificate.NewManager\<close>; a manager stands for its configuration.\<close>

definition NewServerCertificateManager ::
  "'r mustRegister \<Rightarrow> (managerConfig \<Rightarrow> string option) \<Rightarrow> 'r \<Rightarrow> string \<Rightarrow> string \<Rightarrow> certRequest
     \<Rightarrow> ('r \<times> (string + managerConfig)) go" where
  "NewServerCertificateManager mustRegister newManager r namespace name csr =
     go_bind (mustRegister certificateRotationOpts r) (\<lambda>r'.
       let config = serverManagerConfig namespace name csr in
       case newManager config of
         Some err \<Rightarrow> Ok (r', Inl (''failed to initialize server certificate manager: '' @ err))
       | None \<Rightarrow> Ok (r', Inr config))"

section \<open>Registering never panics\<close>

text \<open>
  The documentation of the registry: the full name of a metric joins the non-empty parts with an
  underscore, and \<open>MustRegister\<close> panics if a metric of that name is registered. It also panics on
  descriptions that are not valid, of which nothing is assumed: names are made of ASCII letters, digits,
  underscores and colons, labels of the same without colons, and start with no digit; labels are
  distinct, none is reserved (\<open>le\<close>, \<open>quantile\<close> and those with two underscores in front), and
  exponential buckets have a positive start and count and a factor above one.
\<close>

definition fullName :: "metricOpts \<Rightarrow> string" where
  "fullName m = (if Subsystem m = [] then metricName m else Subsystem m @ ''_'' @ metricName m)"

definition in_range :: "char \<Rightarrow> char \<Rightarrow> char \<Rightarrow> bool" where
  "in_range a b c \<longleftrightarrow> (of_char a :: nat) \<le> of_char c \<and> of_char c \<le> (of_char b :: nat)"

definition name_char :: "char \<Rightarrow> bool" where
  "name_char c \<longleftrightarrow> c = CHR ''_'' \<or> in_range CHR ''a'' CHR ''z'' c \<or> in_range CHR ''A'' CHR ''Z'' c"

definition digit_char :: "char \<Rightarrow> bool" where
  "digit_char c \<longleftrightarrow> in_range CHR ''0'' CHR ''9'' c"

definition valid_name :: "(char \<Rightarrow> bool) \<Rightarrow> string \<Rightarrow> bool" where
  "valid_name extra s \<longleftrightarrow>
     s \<noteq> [] \<and> (name_char (hd s) \<or> extra (hd s)) \<and> list_all (\<lambda>c. name_char c \<or> digit_char c \<or> extra c) s"

fun valid_buckets :: "metricType \<Rightarrow> bool" where
  "valid_buckets (Histogram (ExponentialBuckets start factor count)) \<longleftrightarrow> 0 < start \<and> 1 < factor \<and> 0 < count"
| "valid_buckets _ \<longleftrightarrow> True"

definition valid_metric :: "metricOpts \<Rightarrow> bool" where
  "valid_metric m \<longleftrightarrow>
     valid_name (\<lambda>c. c = CHR '':'') (fullName m) \<and> distinct (metricLabels m) \<and> valid_buckets (metricType m) \<and>
     list_all (\<lambda>l. valid_name (\<lambda>_. False) l \<and> \<not> prefix ''__'' l \<and> l \<noteq> ''le'' \<and> l \<noteq> ''quantile'') (metricLabels m)"

definition registry_contract :: "'r mustRegister \<Rightarrow> ('r \<Rightarrow> string set) \<Rightarrow> bool" where
  "registry_contract mustRegister names \<longleftrightarrow>
     (\<forall>m r. valid_metric m \<longrightarrow>
           (if fullName m \<in> names r then \<exists>p. mustRegister m r = Panic p
            else \<exists>r'. mustRegister m r = Ok r' \<and> names r' = insert (fullName m) (names r)))"

definition webhookMetrics :: "metricOpts list" where
  "webhookMetrics =
     [webhookUsageOpts, requestCounterOpts, requestLatenciesOpts, requestLatenciesSummaryOpts, webhookPodCountOpts,
      missingSACounterOpts, certificateRotationOpts]"

lemmas metric_defs = webhookUsageOpts_def requestCounterOpts_def requestLatenciesOpts_def requestLatenciesSummaryOpts_def
  webhookPodCountOpts_def missingSACounterOpts_def certificateRotationOpts_def

lemma webhook_metrics_distinct: "distinct (map fullName webhookMetrics)"
  by (simp add: webhookMetrics_def metric_defs fullName_def)

lemma webhook_metrics_valid: "list_all valid_metric webhookMetrics"
  by (simp add: webhookMetrics_def metric_defs fullName_def valid_metric_def valid_name_def name_char_def digit_char_def in_range_def)

lemma certificateRotation_valid: "valid_metric certificateRotationOpts"
  using webhook_metrics_valid by (simp add: webhookMetrics_def)

lemma register_all:
  assumes "registry_contract mustRegister names" and "list_all valid_metric ms" and "distinct (map fullName ms)"
    and "set (map fullName ms) \<inter> names r = {}"
  shows "\<exists>r'. go_fold mustRegister ms r = Ok r' \<and> names r' = set (map fullName ms) \<union> names r"
  using assms(2-4)
proof (induction ms arbitrary: r)
  case (Cons m ms)
  then obtain r1 where "mustRegister m r = Ok r1" "names r1 = insert (fullName m) (names r)"
    using assms(1) [unfolded registry_contract_def, rule_format, of m r] by auto
  with Cons.IH [of r1] Cons.prems show ?case by auto
qed simp

end
