(* ===== verification/Wiring.thy ===== *)
theory Wiring
  imports MutateProps
begin

text \<open>
  \<open>main.go\<close>: the flags and their defaults, the partition of a region, the construction of the
  cache and of the modifier from the flags, the TLS settings, and the names in the certificate
  request. Talking to the API server, the metadata service and the network is not modelled; the
  region and the account come as the identity document the metadata service returned.
\<close>

section \<open>Flags\<close>

text \<open>Durations are in nanoseconds, as Go's are.\<close>

record flags =
  fPort :: int
  fMetricsPort :: int
  fKubeconfig :: string
  fKubeApi :: string
  fTlsKeyFile :: string
  fTlsCertFile :: string
  fTlsCipherSuites :: string
  fTlsMinVersion :: string
  fInCluster :: bool
  fServiceName :: string
  fNamespace :: string
  fTlsSecret :: string
  fAnnotationPrefix :: string
  fAudience :: string
  fMountPath :: string
  fTokenExpiration :: int64
  fRegion :: string
  fRegionalSTS :: bool
  fWatchConfigMap :: bool
  fComposeRoleArn :: bool
  fWatchContainerCredentialsConfig :: string
  fContainerCredentialsAudience :: string
  fContainerCredentialsMountPath :: string
  fContainerCredentialsVolumeName :: string
  fContainerCredentialsTokenPath :: string
  fContainerCredentialsFullUri :: string
  fVersion :: bool
  fDebug :: bool
  fSaLookupGracePeriod :: int64
  fResyncPeriod :: int64

definition defaultFlags :: flags where
  "defaultFlags =
     \<lparr>fPort = 443, fMetricsPort = 9999, fKubeconfig = [], fKubeApi = [],
      fTlsKeyFile = ''/etc/webhook/certs/tls.key'', fTlsCertFile = ''/etc/webhook/certs/tls.crt'', fTlsCipherSuites = [], fTlsMinVersion = [], fInCluster = True,
      fServiceName = ''pod-identity-webhook'', fNamespace = ''eks'', fTlsSecret = ''pod-identity-webhook'',
      fAnnotationPrefix = ''eks.amazonaws.com'', fAudience = ''sts.amazonaws.com'',
      fMountPath = ''/var/run/secrets/eks.amazonaws.com/serviceaccount'',
      fTokenExpiration = DefaultTokenExpiration, fRegion = [], fRegionalSTS = False,
      fWatchConfigMap = False, fComposeRoleArn = False, fWatchContainerCredentialsConfig = [],
      fContainerCredentialsAudience = ''pods.eks.amazonaws.com'',
      fContainerCredentialsMountPath = ''/var/run/secrets/pods.eks.amazonaws.com/serviceaccount'',
      fContainerCredentialsVolumeName = ''eks-pod-identity-token'',
      fContainerCredentialsTokenPath = ''eks-pod-identity-token'',
      fContainerCredentialsFullUri = ''http://169.254.170.23/v1/credentials'',
      fVersion = False, fDebug = False, fSaLookupGracePeriod = 0, fResyncPeriod = 60000000000\<rparr>"

section \<open>Construction\<close>

definition partition_of :: "string \<Rightarrow> string" where
  "partition_of region =
     (if HasPrefix region ''cn-'' then ''aws-cn''
      else if HasPrefix region ''us-gov-'' then ''aws-us-gov''
      else if HasPrefix region ''us-iso-'' then ''aws-iso''
      else if HasPrefix region ''us-isob-'' then ''aws-iso-b''
      else if HasPrefix region ''eusc-'' then ''aws-eusc''
      else ''aws'')"

record identityDocument =
  docRegion :: string
  docAccountID :: string

definition composeRoleArnOf :: "flags \<Rightarrow> identityDocument \<Rightarrow> ComposeRoleArn" where
  "composeRoleArnOf f doc =
     (if fComposeRoleArn f
      then \<lparr>Enabled = True, AccountID = docAccountID doc, Partition = partition_of (docRegion doc), arnRegion = docRegion doc\<rparr>
      else \<lparr>Enabled = False, AccountID = [], Partition = [], arnRegion = []\<rparr>)"

definition newCache :: "flags \<Rightarrow> identityDocument \<Rightarrow> serviceAccountCache" where
  "newCache f doc =
     New (fAudience f) (fAnnotationPrefix f) (fRegionalSTS f) (ValidateMinTokenExpiration (fTokenExpiration f))
       (composeRoleArnOf f doc)"

definition newContainerCredentials :: "flags \<Rightarrow> FileConfig" where
  "newContainerCredentials f =
     NewFileConfig (fContainerCredentialsAudience f) (fContainerCredentialsMountPath f)
       (fContainerCredentialsVolumeName f) (fContainerCredentialsTokenPath f) (fContainerCredentialsFullUri f)"

definition newModifier ::
  "flags \<Rightarrow> serviceAccountCache \<Rightarrow> FileConfig \<Rightarrow> int64 list \<Rightarrow> (serviceAccountCache, FileConfig) Modifier" where
  "newModifier f c k random =
     NewModifier random
       [WithAnnotationDomain (fAnnotationPrefix f), WithMountPath (fMountPath f),
        WithServiceAccountCache c,
        WithContainerCredentialsConfig k,
        WithRegion (fRegion f), WithSALookupGraceTime (fSaLookupGracePeriod f)]"

section \<open>TLS\<close>

record tlsConfig =
  CipherSuites :: "uint16 list"
  MinVersion :: uint16

text \<open>A validation error ends the program.\<close>

definition tlsSetup ::
  "(string \<times> uint16) list \<Rightarrow> (string \<times> uint16) list \<Rightarrow> flags \<Rightarrow> validation_error + tlsConfig" where
  "tlsSetup suites insecure f =
     (case (if fTlsCipherSuites f \<noteq> []
            then ValidateTLSCipherSuites suites insecure (Split COMMA (fTlsCipherSuites f)) else Inr []) of
        Inl err \<Rightarrow> Inl err
      | Inr ids \<Rightarrow>
          (case (if fTlsMinVersion f \<noteq> [] then ValidateTLSMinVersion (fTlsMinVersion f) else Inr 0) of
             Inl err \<Rightarrow> Inl err
           | Inr v \<Rightarrow> Inr \<lparr>CipherSuites = ids, MinVersion = v\<rparr>))"

definition csrCommonName :: "flags \<Rightarrow> string" where
  "csrCommonName f = fServiceName f @ ''.'' @ fNamespace f @ ''.svc''"

definition csrDNSNames :: "flags \<Rightarrow> string list" where
  "csrDNSNames f =
     [fServiceName f, fServiceName f @ ''.'' @ fNamespace f, fServiceName f @ ''.'' @ fNamespace f @ ''.svc'',
      fServiceName f @ ''.'' @ fNamespace f @ ''.svc.cluster.local'']"

section \<open>The initial state\<close>

lemma newModifier_sel:
  "Cache (newModifier f c k random) = Some c"
  "ContainerCredentialsConfig (newModifier f c k random) = Some k"
  "rand (newModifier f c k random) = random"
  "AnnotationDomain (newModifier f c k random) = fAnnotationPrefix f"
  by (simp_all add: newModifier_def NewModifier_def WithAnnotationDomain_def WithMountPath_def
      WithServiceAccountCache_def WithContainerCredentialsConfig_def WithRegion_def WithSALookupGraceTime_def)

text \<open>
  The program starts in a good state, whatever the flags are: the cache satisfies its invariant, its
  default lifetime is at least ten minutes, also for a negative flag, its annotation prefix is the
  flag's, no identity uses container credentials before a file was loaded, and the certificate
  request names the service itself.
\<close>

lemma startup_establishes_invariants:
  "annotationPrefix (newCache f doc) = fAnnotationPrefix f \<and> cache_inv (newCache f doc) \<and> expiration_inv (newCache f doc) \<and>
   identities_of (newContainerCredentials f) = {} \<and> csrCommonName f \<in> set (csrDNSNames f)"
proof -
  have "expiration_inv (newCache f doc)"
    using ValidateMin_lower [of "fTokenExpiration f"] by (simp add: expiration_inv_def newCache_def New_def)
  moreover have "cache_inv (newCache f doc)"
    unfolding newCache_def by (rule New_inv)
  moreover have "annotationPrefix (newCache f doc) = fAnnotationPrefix f"
    by (simp add: newCache_def New_def)
  moreover have "identities_of (newContainerCredentials f) = {}"
    by (simp add: newContainerCredentials_def identities_of_def getCacheItem_def NewFileConfig_def)
  ultimately show ?thesis
    by (simp add: csrCommonName_def csrDNSNames_def)
qed

end
