(* ===== verification/Startup.thy ===== *)
theory Startup
  imports Wiring Certs Shutdown WatchLoop CacheDump
begin

text \<open>
  \<open>main\<close> of \<open>main.go\<close> from the parsed flags to the running servers, and its end. The calls into the
  Kubernetes client, the metadata service, \<open>fsnotify\<close>, the certificate libraries and the
  registry are answered by a record \<open>world\<close>; what \<open>main\<close> sets in motion is a list of actions in the
  order it does so. \<open>klog.Fatalf\<close> ends the program with its message. The closures it installs, the
  goroutines of the listeners, and the wait for both servers follow.
\<close>

section \<open>Actions\<close>

datatype action =
    Print string
  | SetupSignalHandler
  | StartInformers int64
  | StartNamespacedInformers string int64
  | StartCache
  | WatchCredentials string
  | StartCertManager managerConfig
  | StartCertWatcher string string
  | ShutdownOnSignal string
  | ListenAndServeTLS string
  | ListenAndServe string

datatype exitReason = ExitCode int | FatalExit string | Crash go_panic | Hang

type_synonym 'a act = "action list \<times> (exitReason + 'a)"

definition act_bind :: "'a act \<Rightarrow> ('a \<Rightarrow> 'b act) \<Rightarrow> 'b act" where
  "act_bind x f =
     (case x of
        (tr, Inl e) \<Rightarrow> (tr, Inl e)
      | (tr, Inr a) \<Rightarrow> (case f a of (tr', r) \<Rightarrow> (tr @ tr', r)))"

abbreviation perform :: "action list \<Rightarrow> unit act" where
  "perform as \<equiv> (as, Inr ())"

abbreviation fatal :: "string \<Rightarrow> 'a act" where
  "fatal msg \<equiv> ([], Inl (FatalExit msg))"

section \<open>The verb q of fmt\<close>

text \<open>
  \<open>Fatalf\<close> with the verb q prints an error as a Go string literal (\<open>strconv.Quote\<close>). Which code points
  above ASCII are printable is a table of the Unicode package and an argument.
\<close>

definition decode_rune :: "string \<Rightarrow> nat" where
  "decode_rune s =
     (case map byte (take (rune_len s) s) of
        [a] \<Rightarrow> a
      | [a, b] \<Rightarrow> a mod 0x20 * 0x40 + b mod 0x40
      | [a, b, c] \<Rightarrow> a mod 0x10 * 0x1000 + b mod 0x40 * 0x40 + c mod 0x40
      | [a, b, c, d] \<Rightarrow> a mod 0x08 * 0x40000 + b mod 0x40 * 0x1000 + c mod 0x40 * 0x40 + d mod 0x40
      | _ \<Rightarrow> 0xFFFD)"

fun hex_digits :: "nat \<Rightarrow> nat \<Rightarrow> string" where
  "hex_digits 0 n = []"
| "hex_digits (Suc k) n = hex_digits k (n div 16) @ [hex_digit (n mod 16)]"

definition escape_rune :: "nat \<Rightarrow> string" where
  "escape_rune r =
     CHR 0x5C #
     (if r = 7 then ''a'' else if r = 8 then ''b'' else if r = 12 then ''f'' else if r = 10 then ''n''
      else if r = 13 then ''r'' else if r = 9 then ''t'' else if r = 11 then ''v''
      else if r < 0x20 \<or> r = 0x7F then CHR ''x'' # hex_digits 2 r
      else if r < 0x10000 then CHR ''u'' # hex_digits 4 r
      else CHR ''U'' # hex_digits 8 r)"

function quoted :: "(nat \<Rightarrow> bool) \<Rightarrow> string \<Rightarrow> string" where
  "quoted printable [] = []"
| "quoted printable (c # cs) =
     (let n = rune_len (c # cs); r = decode_rune (c # cs) in
      if n = 0 then CHR 0x5C # CHR ''x'' # hex_digits 2 (byte c) @ quoted printable cs
      else (if c = CHR 0x22 \<or> c = CHR 0x5C then [CHR 0x5C, c]
            else if (if r < 0x80 then 0x20 \<le> r \<and> r < 0x7F else printable r) then take n (c # cs)
            else escape_rune r) @ quoted printable (drop n (c # cs)))"
  by pat_completeness auto
termination
  by (relation "measure (length \<circ> snd)") auto

definition Quote :: "(nat \<Rightarrow> bool) \<Rightarrow> string \<Rightarrow> string" where
  "Quote printable s = CHR 0x22 # quoted printable s @ [CHR 0x22]"

section \<open>What main calls\<close>

record restConfig =
  clientServer :: string
  QPS :: int
  Burst :: int

record 'r world =
  BuildConfigFromFlags :: "string \<Rightarrow> string \<Rightarrow> string + restConfig"
  NewForConfig :: "restConfig \<Rightarrow> string option"
  GetInstanceIdentityDocument :: "string + identityDocument"
  watchOutcome :: "string \<Rightarrow> watchPhase"
  loadedFiles :: "string \<Rightarrow> fileState list"
  mustRegister :: "'r mustRegister"
  registry :: 'r
  newManager :: "managerConfig \<Rightarrow> string option"
  newCertWatcher :: "string \<Rightarrow> string \<Rightarrow> string option"
  secureSuites :: "(string \<times> uint16) list"
  insecureSuites :: "(string \<times> uint16) list"
  isPrint :: "nat \<Rightarrow> bool"

text \<open>
  \<open>Watch\<close> starts the worker before it returns: \<open>loadedFiles\<close> are the states of the watched file that the
  worker has processed by the time the servers start, in their order.
\<close>

definition webhookVersion :: string where
  "webhookVersion = ''v0.1.0''"

section \<open>The parts of main\<close>

definition connect :: "'r world \<Rightarrow> flags \<Rightarrow> restConfig act" where
  "connect W f =
     (case BuildConfigFromFlags W (fKubeApi f) (fKubeconfig f) of
        Inl err \<Rightarrow> fatal (''Error creating config: '' @ err)
      | Inr config \<Rightarrow>
          let config' = config\<lparr>QPS := 50, Burst := 50\<rparr> in
          (case NewForConfig W config' of
             Some err \<Rightarrow> fatal (''Error creating clientset: '' @ err)
           | None \<Rightarrow> ([], Inr config')))"

definition identity :: "'r world \<Rightarrow> flags \<Rightarrow> identityDocument act" where
  "identity W f =
     (if fComposeRoleArn f
      then (case GetInstanceIdentityDocument W of
              Inl err \<Rightarrow> fatal (''Error getting instance identity document: '' @ err)
            | Inr doc \<Rightarrow> ([], Inr doc))
      else ([], Inr \<lparr>docRegion = [], docAccountID = []\<rparr>))"

definition startCaches :: "flags \<Rightarrow> unit act" where
  "startCaches f =
     perform ([StartInformers (fResyncPeriod f)] @
              (if fWatchConfigMap f then [StartNamespacedInformers (fNamespace f) (fResyncPeriod f)] else []) @
              [StartCache])"

definition watchCredentials :: "'r world \<Rightarrow> flags \<Rightarrow> FileConfig \<Rightarrow> FileConfig act" where
  "watchCredentials W f credentials =
     (let file = fWatchContainerCredentialsConfig f in
      if file = [] then ([], Inr credentials)
      else (case watchOutcome W file of
              WatchError err \<Rightarrow> fatal (''Error starting watcher on file '' @ file @ '': '' @ err)
            | Exited err \<Rightarrow> fatal err
            | _ \<Rightarrow> ([WatchCredentials file], Inr (fst (watch_config (loadedFiles W file) credentials)))))"

fun tlsMessage :: "validation_error \<Rightarrow> string" where
  "tlsMessage (UnsupportedCipherSuite name) = ''invalid tls-cipher-suites: unsupported cipher suite: '' @ name"
| "tlsMessage (UnsupportedVersion v) = ''Invalid value for tls-min-version unsupported version '' @ v"

definition tlsSettings :: "'r world \<Rightarrow> flags \<Rightarrow> tlsConfig act" where
  "tlsSettings W f =
     (case tlsSetup (secureSuites W) (insecureSuites W) f of
        Inl err \<Rightarrow> fatal (tlsMessage err)
      | Inr cfg \<Rightarrow> ([], Inr cfg))"

datatype certSource = FromManager managerConfig | FromFiles string string

definition certificateRequest :: "flags \<Rightarrow> certRequest" where
  "certificateRequest f = \<lparr>CommonName = csrCommonName f, DNSNames = csrDNSNames f\<rparr>"

definition certificates :: "'r world \<Rightarrow> flags \<Rightarrow> certSource act" where
  "certificates W f =
     (if fInCluster f then
        (case NewServerCertificateManager (mustRegister W) (newManager W) (registry W) (fNamespace f) (fTlsSecret f)
                (certificateRequest f) of
           Panic p \<Rightarrow> ([], Inl (Crash p))
         | NoReturn \<Rightarrow> ([], Inl Hang)
         | Ok (_, Inl err) \<Rightarrow> fatal (''failed to initialize certificate manager: '' @ err)
         | Ok (_, Inr m) \<Rightarrow> ([StartCertManager m], Inr (FromManager m)))
      else
        (case newCertWatcher W (fTlsCertFile f) (fTlsKeyFile f) of
           Some err \<Rightarrow> fatal (''Error initializing certwatcher: '' @ Quote (isPrint W) err)
         | None \<Rightarrow> ([StartCertWatcher (fTlsCertFile f) (fTlsKeyFile f)], Inr (FromFiles (fTlsCertFile f) (fTlsKeyFile f)))))"

definition listenAddr :: "int \<Rightarrow> string" where
  "listenAddr port = CHR '':'' # Itoa port"

definition serve :: "flags \<Rightarrow> unit act" where
  "serve f =
     perform [ShutdownOnSignal (listenAddr (fPort f)), ShutdownOnSignal (listenAddr (fMetricsPort f)),
              ListenAndServeTLS (listenAddr (fPort f)), ListenAndServe (listenAddr (fMetricsPort f))]"

record running =
  rClient :: restConfig
  rModifier :: "(serviceAccountCache, FileConfig) Modifier"
  rTLS :: tlsConfig
  rCerts :: certSource

text \<open>
  Up to the creation of the servers. The modifier shares its cache and its container credentials with
  goroutines that are running by then: the credentials have what the worker has loaded so far, the
  cache is the one \<open>New\<close> made, on which the informers' events act (\<open>on_event\<close>).
\<close>

definition prepare :: "'r world \<Rightarrow> flags \<Rightarrow> int64 list \<Rightarrow> running act" where
  "prepare W f random =
     act_bind (perform [SetupSignalHandler]) (\<lambda>_.
     act_bind (connect W f) (\<lambda>client.
     act_bind (identity W f) (\<lambda>doc.
     act_bind (startCaches f) (\<lambda>_.
     act_bind (watchCredentials W f (newContainerCredentials f)) (\<lambda>credentials.
     act_bind (tlsSettings W f) (\<lambda>tls.
     act_bind (certificates W f) (\<lambda>certs.
     ([], Inr \<lparr>rClient = client, rModifier = newModifier f (newCache f doc) credentials random,
               rTLS = tls, rCerts = certs\<rparr>))))))))"

definition main :: "'r world \<Rightarrow> flags \<Rightarrow> int64 list \<Rightarrow> running act" where
  "main W f random =
     (if fVersion f then ([Print webhookVersion], Inl (ExitCode 0))
      else act_bind (prepare W f random) (\<lambda>run. act_bind (serve f) (\<lambda>_. ([], Inr run))))"

section \<open>The closures and goroutines main leaves behind\<close>

text \<open>\<open>GetCertificate\<close> of the in-cluster configuration, on the manager's current certificate.\<close>

definition GetCertificate :: "'c option \<Rightarrow> string + 'c" where
  "GetCertificate current =
     (case current of
        None \<Rightarrow> Inl ''no serving certificate available for the webhook, is the CSR approved?''
      | Some certificate \<Rightarrow> Inr certificate)"

text \<open>What a listener's goroutine does with the error it gets: \<open>http.ErrServerClosed\<close> ends it quietly.\<close>

datatype serveError = ErrServerClosed | ServeError string

definition listener :: "(nat \<Rightarrow> bool) \<Rightarrow> serveError \<Rightarrow> exitReason option" where
  "listener printable err =
     (case err of
        ErrServerClosed \<Rightarrow> None
      | ServeError e \<Rightarrow> Some (FatalExit (''Error listening: '' @ Quote printable e)))"

text \<open>The goroutine of the certificate watcher, on the result of its \<open>Start\<close>.\<close>

definition certWatcherRoutine :: "(nat \<Rightarrow> bool) \<Rightarrow> string option \<Rightarrow> exitReason option" where
  "certWatcherRoutine printable started =
     map_option (\<lambda>err. FatalExit (''Error starting certwatcher: '' @ Quote printable err)) started"

text \<open>\<open>hasSynced\<close> of the cache; \<open>start\<close> is fatal if the stop channel is closed before that.\<close>

definition hasSynced :: "bool option \<Rightarrow> bool \<Rightarrow> bool" where
  "hasSynced cmSynced saSynced = (case cmSynced of Some cm \<Rightarrow> saSynced \<and> cm | None \<Rightarrow> saSynced)"

definition cacheStart :: "bool \<Rightarrow> exitReason option" where
  "cacheStart waitForCacheSync = (if waitForCacheSync then None else Some (FatalExit ''unable to sync serviceaccount cache!''))"

text \<open>The end of \<open>main\<close>: the webhook server first, then the metrics server; the lines it logs.\<close>

definition shutdownLine :: "string \<Rightarrow> string option \<Rightarrow> string" where
  "shutdownLine server err =
     (case err of
        Some e \<Rightarrow> server @ '' server shutdown error: '' @ e
      | None \<Rightarrow> server @ '' server shutdown gracefully'')"

datatype deferred = CertManagerStop | CloseStop

text \<open>
  The deferred calls: \<open>close(stop)\<close> once the caches were started, then \<open>certManager.Stop\<close> for a
  certificate from the manager. They run in the opposite order when \<open>main\<close> returns.
\<close>

definition stopDefer :: "deferred list" where
  "stopDefer = [CloseStop]"

definition certDefer :: "certSource \<Rightarrow> deferred list" where
  "certDefer certs = (case certs of FromManager _ \<Rightarrow> [CertManagerStop] | FromFiles _ _ \<Rightarrow> [])"

abbreviation mainDefers :: "certSource \<Rightarrow> deferred list" where
  "mainDefers certs \<equiv> rev (stopDefer @ certDefer certs)"

definition awaitServers :: "certSource \<Rightarrow> shutdownChans \<Rightarrow> shutdownChans \<Rightarrow> (string list \<times> deferred list) go" where
  "awaitServers certs w m =
     go_bind (awaitShutdown w) (\<lambda>we. go_bind (awaitShutdown m) (\<lambda>me.
       Ok ([shutdownLine ''Webhook'' we, shutdownLine ''Metrics'' me], mainDefers certs)))"

section \<open>Traces\<close>

definition listens :: "action \<Rightarrow> bool" where
  "listens a \<longleftrightarrow> (\<exists>addr. a = ListenAndServeTLS addr \<or> a = ListenAndServe addr)"

lemma act_bind_Inr:
  "act_bind x f = (tr, Inr b) \<longleftrightarrow> (\<exists>tr1 a tr2. x = (tr1, Inr a) \<and> f a = (tr2, Inr b) \<and> tr = tr1 @ tr2)"
  by (auto simp: act_bind_def split: prod.splits sum.splits)

lemma act_bind_Inl:
  "act_bind x f = (tr, Inl e) \<longleftrightarrow>
     x = (tr, Inl e) \<or> (\<exists>tr1 a tr2. x = (tr1, Inr a) \<and> f a = (tr2, Inl e) \<and> tr = tr1 @ tr2)"
  by (auto simp: act_bind_def split: prod.splits sum.splits)

text \<open>A part of \<open>main\<close> that opens no listener and, if it stops, stops with a message.\<close>

definition orderly :: "'a act \<Rightarrow> bool" where
  "orderly x \<longleftrightarrow> list_all (\<lambda>a. \<not> listens a) (fst x) \<and> (\<forall>e. snd x = Inl e \<longrightarrow> (\<exists>msg. e = FatalExit msg))"

lemma orderly_parts:
  "orderly (perform [SetupSignalHandler])" "orderly (connect W f)" "orderly (identity W f)" "orderly (startCaches f)"
  "orderly (watchCredentials W f k)" "orderly (tlsSettings W f)"
  by (auto simp: orderly_def listens_def connect_def identity_def startCaches_def watchCredentials_def tlsSettings_def
      Let_def split: sum.split option.split watchPhase.split)

lemma orderly_bind:
  assumes "orderly x" and "\<And>a. orderly (f a)"
  shows "orderly (act_bind x f)"
proof (cases x)
  case (Pair tr r)
  show ?thesis
  proof (cases r)
    case (Inr a)
    then show ?thesis
      using assms(1) assms(2) [of a] Pair by (cases "f a") (simp add: act_bind_def orderly_def)
  qed (use assms(1) Pair in \<open>simp add: act_bind_def orderly_def\<close>)
qed

lemma certificates_orderly:
  assumes "registry_contract (mustRegister W) names" and "fullName certificateRotationOpts \<notin> names (registry W)"
  shows "orderly (certificates W f)"
proof -
  obtain r where "mustRegister W certificateRotationOpts (registry W) = Ok r"
    using assms certificateRotation_valid unfolding registry_contract_def by metis
  then show ?thesis
    by (auto simp: orderly_def listens_def certificates_def NewServerCertificateManager_def Let_def split: option.split)
qed

lemma prepare_orderly:
  assumes "registry_contract (mustRegister W) names" and "fullName certificateRotationOpts \<notin> names (registry W)"
  shows "orderly (prepare W f random)"
  unfolding prepare_def
  by (intro orderly_bind orderly_parts certificates_orderly [OF assms]) (simp add: orderly_def)

text \<open>What a successful preparation has established.\<close>

definition certAction :: "certSource \<Rightarrow> action" where
  "certAction certs = (case certs of FromManager m \<Rightarrow> StartCertManager m | FromFiles cert key \<Rightarrow> StartCertWatcher cert key)"

lemma certificates_action: "certificates W f = (tr, Inr certs) \<Longrightarrow> tr = [certAction certs]"
  by (auto simp: certificates_def certAction_def split: if_splits go.splits sum.splits option.splits prod.splits)

definition loaded_by :: "'r world \<Rightarrow> flags \<Rightarrow> fileState list" where
  "loaded_by W f = (if fWatchContainerCredentialsConfig f = [] then [] else loadedFiles W (fWatchContainerCredentialsConfig f))"

lemma prepare_Inr:
  assumes "prepare W f random = (tr, Inr run)"
  shows "\<exists>doc. rModifier run = newModifier f (newCache f doc) (fst (watch_config (loaded_by W f) (newContainerCredentials f))) random" and "tlsSetup (secureSuites W) (insecureSuites W) f = Inr (rTLS run)"
    and "certAction (rCerts run) \<in> set tr" and "StartCache \<in> set tr" and "QPS (rClient run) = 50 \<and> Burst (rClient run) = 50"
proof -
  obtain tr1 client tr2 doc tr3 tr4 k tls certs tr5 tr6 where parts: "connect W f = (tr1, Inr client)" "identity W f = (tr2, Inr doc)"
    "startCaches f = (tr3, Inr ())" "watchCredentials W f (newContainerCredentials f) = (tr4, Inr k)" "tlsSettings W f = (tr5, Inr tls)"
    "certificates W f = (tr6, Inr certs)"
    and tr: "tr = SetupSignalHandler # tr1 @ tr2 @ tr3 @ tr4 @ tr5 @ tr6"
    and run: "run = \<lparr>rClient = client, rModifier = newModifier f (newCache f doc) k random, rTLS = tls, rCerts = certs\<rparr>"
    using assms unfolding prepare_def act_bind_Inr by auto
  have "k = fst (watch_config (loaded_by W f) (newContainerCredentials f))"
    using parts(4) by (auto simp: watchCredentials_def loaded_by_def Let_def processNextWorkItem_def split: if_splits watchPhase.splits)
  then show "\<exists>doc. rModifier run = newModifier f (newCache f doc) (fst (watch_config (loaded_by W f) (newContainerCredentials f))) random"
    using run by auto
  show "tlsSetup (secureSuites W) (insecureSuites W) f = Inr (rTLS run)"
    using parts(5) run by (auto simp: tlsSettings_def split: sum.splits)
  show "certAction (rCerts run) \<in> set tr"
    using certificates_action [OF parts(6)] tr run by simp
  show "StartCache \<in> set tr"
    using parts(3) tr by (auto simp: startCaches_def)
  show "QPS (rClient run) = 50 \<and> Burst (rClient run) = 50"
    using parts(1) run by (auto simp: connect_def Let_def split: sum.splits option.splits)
qed

text \<open>Everything that \<open>main\<close> asks for succeeds, and the TLS flags are valid.\<close>

definition all_well :: "'r world \<Rightarrow> flags \<Rightarrow> bool" where
  "all_well W f \<longleftrightarrow> \<not> fVersion f \<and>
     (\<exists>cfg. BuildConfigFromFlags W (fKubeApi f) (fKubeconfig f) = Inr cfg \<and> NewForConfig W (cfg\<lparr>QPS := 50, Burst := 50\<rparr>) = None) \<and>
     (fComposeRoleArn f \<longrightarrow> \<not> isl (GetInstanceIdentityDocument W)) \<and>
     (fWatchContainerCredentialsConfig f \<noteq> [] \<longrightarrow> watchOutcome W (fWatchContainerCredentialsConfig f) = Watching) \<and>
     \<not> isl (tlsSetup (secureSuites W) (insecureSuites W) f) \<and>
     (if fInCluster f then newManager W (serverManagerConfig (fNamespace f) (fTlsSecret f) (certificateRequest f)) = None
      else newCertWatcher W (fTlsCertFile f) (fTlsKeyFile f) = None)"

lemma all_well_certificates:
  assumes "all_well W f" and "registry_contract (mustRegister W) names"
    and "fullName certificateRotationOpts \<notin> names (registry W)"
  shows "\<exists>tr certs. certificates W f = (tr, Inr certs)"
proof -
  obtain r where "mustRegister W certificateRotationOpts (registry W) = Ok r"
    using assms(2,3) certificateRotation_valid unfolding registry_contract_def by metis
  then show ?thesis
    using assms(1) by (auto simp: all_well_def certificates_def NewServerCertificateManager_def Let_def)
qed

definition succeeds :: "'a act \<Rightarrow> bool" where
  "succeeds x \<longleftrightarrow> (\<exists>tr a. x = (tr, Inr a))"

lemma all_well_parts:
  assumes "all_well W f"
  shows "succeeds (connect W f)" "succeeds (identity W f)" "succeeds (watchCredentials W f k)" "succeeds (tlsSettings W f)"
    "succeeds (startCaches f)"
proof -
  show "succeeds (connect W f)"
    using assms by (auto simp: all_well_def connect_def succeeds_def Let_def)
  show "succeeds (identity W f)"
    using assms by (auto simp: all_well_def identity_def succeeds_def split: sum.split)
  show "succeeds (watchCredentials W f k)"
    using assms by (auto simp: all_well_def watchCredentials_def succeeds_def Let_def)
  show "succeeds (tlsSettings W f)"
    using assms by (auto simp: all_well_def tlsSettings_def succeeds_def split: sum.split)
  show "succeeds (startCaches f)"
    by (simp add: startCaches_def succeeds_def)
qed

lemma succeeds_bind: "succeeds x \<Longrightarrow> (\<And>a. succeeds (f a)) \<Longrightarrow> succeeds (act_bind x f)"
  unfolding succeeds_def by (metis act_bind_Inr)

lemma all_well_prepare:
  assumes "all_well W f" and "registry_contract (mustRegister W) names"
    and "fullName certificateRotationOpts \<notin> names (registry W)"
  shows "succeeds (prepare W f random)"
proof -
  have "succeeds (certificates W f)"
    using all_well_certificates [OF assms] by (simp add: succeeds_def)
  then show ?thesis
    unfolding prepare_def by (intro succeeds_bind all_well_parts [OF assms(1)]) (simp_all add: succeeds_def)
qed

lemma main_eq:
  assumes "\<not> fVersion f"
  shows "prepare W f random = (tr, Inl e) \<Longrightarrow> main W f random = (tr, Inl e)"
    and "prepare W f random = (tr, Inr run) \<Longrightarrow> main W f random = (tr @ fst (serve f), Inr run)"
  using assms by (simp_all add: main_def act_bind_def serve_def)

text \<open>The state in which the servers are started.\<close>

definition serving :: "'r world \<Rightarrow> flags \<Rightarrow> action list \<Rightarrow> running \<Rightarrow> bool" where
  "serving W f tr run \<longleftrightarrow>
     (\<exists>pre c k. tr = pre @ [ListenAndServeTLS (listenAddr (fPort f)), ListenAndServe (listenAddr (fMetricsPort f))] \<and>
        list_all (\<lambda>a. \<not> listens a) pre \<and>
        {StartCache, certAction (rCerts run), ShutdownOnSignal (listenAddr (fPort f)),
         ShutdownOnSignal (listenAddr (fMetricsPort f))} \<subseteq> set pre \<and>
        tlsSetup (secureSuites W) (insecureSuites W) f = Inr (rTLS run) \<and>
        QPS (rClient run) = 50 \<and> Burst (rClient run) = 50 \<and>
        Cache (rModifier run) = Some c \<and> AnnotationDomain (rModifier run) = annotationPrefix c \<and>
        (\<forall>ord evs c'. go_fold (\<lambda>ev c. on_event ord c ev) evs c = Ok c' \<longrightarrow> cache_inv c' \<and> expiration_inv c') \<and>
        ContainerCredentialsConfig (rModifier run) = Some k \<and> fc_settings k = fc_settings (newContainerCredentials f) \<and>
        identities_of k = foldl (\<lambda>before st. file_identities st before) {} (loaded_by W f))"

lemma informed_cache:
  assumes "go_fold (\<lambda>ev c. on_event ord c ev) evs (newCache f doc) = Ok c'"
  shows "cache_inv c' \<and> expiration_inv c'"
  using startup_establishes_invariants [of f doc] go_fold_invariant [OF assms, where P = cache_inv]
    go_fold_invariant [OF assms, where P = expiration_inv] on_event_inv on_event_expiration by blast

lemma prepared_serving:
  assumes "prepare W f random = (tr, Inr run)" and "orderly (prepare W f random)"
  shows "serving W f (tr @ fst (serve f)) run"
proof -
  note prepared = prepare_Inr [OF assms(1)]
  let ?k = "fst (watch_config (loaded_by W f) (newContainerCredentials f))"
  obtain doc where doc: "rModifier run = newModifier f (newCache f doc) ?k random"
    using prepared(1) by blast
  have k: "fc_settings ?k = fc_settings (newContainerCredentials f)"
    "identities_of ?k = foldl (\<lambda>before st. file_identities st before) {} (loaded_by W f)"
    using watched_file_in_force [of "loaded_by W f" "newContainerCredentials f"] startup_establishes_invariants [of f doc] by simp_all
  let ?pre = "tr @ [ShutdownOnSignal (listenAddr (fPort f)), ShutdownOnSignal (listenAddr (fMetricsPort f))]"
  have "tr @ fst (serve f) = ?pre @ [ListenAndServeTLS (listenAddr (fPort f)), ListenAndServe (listenAddr (fMetricsPort f))]"
    by (simp add: serve_def)
  moreover have "list_all (\<lambda>a. \<not> listens a) ?pre"
    using assms by (simp add: orderly_def listens_def)
  moreover have "{StartCache, certAction (rCerts run), ShutdownOnSignal (listenAddr (fPort f)),
      ShutdownOnSignal (listenAddr (fMetricsPort f))} \<subseteq> set ?pre"
    using prepared(3,4) by simp
  ultimately show ?thesis
    using prepared(2,5) startup_establishes_invariants [of f doc] k informed_cache [of _ _ f doc]
    unfolding serving_def doc newModifier_sel
    by (intro exI [of _ ?pre] exI [of _ "newCache f doc"] exI [of _ ?k] conjI allI impI; (assumption | simp | blast))
qed

text \<open>The \<open>init\<close> functions leave the name of the remaining metric free.\<close>

lemma init_registers:
  assumes "registry_contract reg names" and "fullName ` set webhookMetrics \<inter> names r0 = {}"
  shows "\<exists>r. go_bind (cacheInit reg r0) (register reg) = Ok r \<and> fullName certificateRotationOpts \<notin> names r"
proof -
  let ?init = "[webhookUsageOpts, requestCounterOpts, requestLatenciesOpts, requestLatenciesSummaryOpts,
    webhookPodCountOpts, missingSACounterOpts]"
  have metrics: "webhookMetrics = ?init @ [certificateRotationOpts]"
    by (simp add: webhookMetrics_def)
  obtain r where r: "go_fold reg ?init r0 = Ok r" and names: "names r = set (map fullName ?init) \<union> names r0"
    using register_all [OF assms(1), of ?init r0] webhook_metrics_distinct webhook_metrics_valid assms(2) unfolding metrics by auto
  have "go_bind (cacheInit reg r0) (register reg) = Ok r"
    using r by (simp add: cacheInit_def register_def [abs_def])
  moreover have "fullName certificateRotationOpts \<notin> names r"
    using names webhook_metrics_distinct assms(2) unfolding metrics by auto
  ultimately show ?thesis by blast
qed

lemma main_cases:
  assumes "registry_contract (mustRegister W) names" and "fullName certificateRotationOpts \<notin> names (registry W)"
  shows "case main W f random of
      (tr, Inl e) \<Rightarrow>
        (if fVersion f then tr = [Print webhookVersion] \<and> e = ExitCode 0 else \<exists>msg. e = FatalExit msg) \<and>
        list_all (\<lambda>a. \<not> listens a) tr \<and> \<not> all_well W f
    | (tr, Inr run) \<Rightarrow> \<not> fVersion f \<and> serving W f tr run"
proof (cases "fVersion f")
  case True
  then show ?thesis by (simp add: main_def listens_def all_well_def)
next
  case False
  note orderly = prepare_orderly [OF assms, of f random]
  obtain tr x where p: "prepare W f random = (tr, x)"
    by fastforce
  show ?thesis
  proof (cases x)
    case (Inl e)
    have "\<not> all_well W f"
      using all_well_prepare [OF _ assms, of f random] p Inl by (auto simp: succeeds_def)
    then show ?thesis
      using main_eq(1) [OF False p [unfolded Inl]] orderly False by (auto simp: orderly_def p Inl)
  next
    case (Inr run)
    then show ?thesis
      using main_eq(2) [OF False p [unfolded Inr]] prepared_serving [OF p [unfolded Inr] orderly] False by simp
  qed
qed

section \<open>Claims\<close>

text \<open>
  C17. How the program starts. Let the registry hold no metric of the webhook's names. Then the
  packages' \<open>init\<close> functions register their metrics without a panic, and with the registry they
  leave \<open>main\<close> does not panic either. With \<open>--version\<close> it prints the version, does nothing else
  and exits with 0. Otherwise it either stops with a message before any port is opened, or it
  opens the TLS port and the metrics port as its last actions, after the cache, the source of the
  serving certificate and both shutdown hooks were started. In that case (\<open>serving\<close>) the TLS
  settings are those the flags validly ask for, the client is limited to 50 requests a second,
  the modifier agrees with its cache on the annotation prefix, the cache satisfies its invariants
  after whatever events the informers have delivered to it, and the container credentials have the
  flags' settings and the identities of the watched file as far as the worker has loaded it, so none
  without a watched file. It does start when every call it makes succeeds and the TLS flags are
  valid (\<open>all_well\<close>).
\<close>

theorem main_outcome:
  assumes "registry_contract (mustRegister W) names" and "fullName ` set webhookMetrics \<inter> names r0 = {}"
  shows "\<exists>r. go_bind (cacheInit (mustRegister W) r0) (register (mustRegister W)) = Ok r \<and>
    (registry W = r \<longrightarrow>
      (case main W f random of
         (tr, Inl e) \<Rightarrow>
           (if fVersion f then tr = [Print webhookVersion] \<and> e = ExitCode 0 else \<exists>msg. e = FatalExit msg) \<and>
           list_all (\<lambda>a. \<not> listens a) tr \<and> \<not> all_well W f
       | (tr, Inr run) \<Rightarrow> \<not> fVersion f \<and> serving W f tr run))"
proof -
  obtain r where r: "go_bind (cacheInit (mustRegister W) r0) (register (mustRegister W)) = Ok r"
    "fullName certificateRotationOpts \<notin> names r"
    using init_registers [OF assms] by blast
  show ?thesis
  proof (intro exI [of _ r] conjI impI r(1))
    assume "registry W = r"
    with r(2) show "case main W f random of
        (tr, Inl e) \<Rightarrow>
          (if fVersion f then tr = [Print webhookVersion] \<and> e = ExitCode 0 else \<exists>msg. e = FatalExit msg) \<and>
          list_all (\<lambda>a. \<not> listens a) tr \<and> \<not> all_well W f
      | (tr, Inr run) \<Rightarrow> \<not> fVersion f \<and> serving W f tr run"
      by (intro main_cases [OF assms(1)]) simp
  qed
qed

definition listRegister :: "string list mustRegister" where
  "listRegister m r = (if fullName m \<in> set r then Panic InvalidArgument else Ok (fullName m # r))"

lemma listRegister_contract: "registry_contract listRegister set"
  by (simp add: registry_contract_def listRegister_def)

definition exampleRegistry :: "string list" where
  "exampleRegistry =
     [''pod_identity_webhook_missing_sa_count'', ''pod_identity_webhook_pod_count'', ''http_request_duration_microseconds'',
      ''http_request_latencies'', ''http_request_count'', ''pod_identity_webhook_used'', ''go_goroutines'']"

lemma exampleRegistry_init: "go_bind (cacheInit listRegister [''go_goroutines'']) (register listRegister) = Ok exampleRegistry"
  by (simp add: cacheInit_def register_def listRegister_def fullName_def metric_defs exampleRegistry_def)

definition exampleWorld :: "string list world" where
  "exampleWorld =
     \<lparr>BuildConfigFromFlags = (\<lambda>url cfg. Inr \<lparr>clientServer = ''https://10.0.0.1'', QPS = 5, Burst = 10\<rparr>),
      NewForConfig = (\<lambda>_. None), GetInstanceIdentityDocument = Inl ''no metadata'', watchOutcome = (\<lambda>_. Watching), loadedFiles = (\<lambda>_. []),
      mustRegister = listRegister, registry = exampleRegistry, newManager = (\<lambda>_. None),
      newCertWatcher = (\<lambda>_ _. Some ''no such file''), secureSuites = [], insecureSuites = [], isPrint = (\<lambda>_. False)\<rparr>"

theorem main_outcome_witness:
  "\<exists>tr run. main exampleWorld defaultFlags [] = (tr, Inr run) \<and> serving exampleWorld defaultFlags tr run"
proof -
  have sel: "mustRegister exampleWorld = listRegister" "registry exampleWorld = exampleRegistry"
    by (simp_all add: exampleWorld_def)
  have fresh: "fullName ` set webhookMetrics \<inter> set [''go_goroutines''] = {}"
    by (simp add: webhookMetrics_def fullName_def metric_defs)
  have well: "all_well exampleWorld defaultFlags"
    by (simp add: all_well_def exampleWorld_def defaultFlags_def tlsSetup_def)
  have "case main exampleWorld defaultFlags [] of
      (tr, Inl e) \<Rightarrow> \<not> all_well exampleWorld defaultFlags
    | (tr, Inr run) \<Rightarrow> serving exampleWorld defaultFlags tr run"
    using main_outcome [of exampleWorld set "[''go_goroutines'']" defaultFlags "[]"]
      listRegister_contract fresh exampleRegistry_init
    by (auto simp: sel split: prod.splits sum.splits)
  with well show ?thesis
    by (auto split: prod.splits sum.splits)
qed

text \<open>
  C36. \<open>main\<close> returns when both servers have shut down, and not before. Let the two shutdown
  goroutines have got as far as they like. Nothing has panicked or blocked; if both have
  finished, \<open>main\<close> logs the result of each server's shutdown, gracefully exactly for the servers
  that shut down within their time, then stops the certificate manager where there is one and
  closes the stop channel; if either has not finished, \<open>main\<close> keeps waiting.
\<close>

theorem main_waits_for_both:
  assumes "prefix wops (ShutdownFromContext cancelled wErr wClose)"
    and "prefix mops (ShutdownFromContext cancelled mErr mClose)"
  shows "\<exists>w m. go_fold do_op wops newChans = Ok w \<and> go_fold do_op mops newChans = Ok m \<and>
    awaitServers certs w m =
      (if cancelled \<and> wops = ShutdownFromContext cancelled wErr wClose \<and> mops = ShutdownFromContext cancelled mErr mClose
       then Ok ([shutdownLine ''Webhook'' (shutdownError wErr wClose), shutdownLine ''Metrics'' (shutdownError mErr mClose)],
                mainDefers certs)
       else NoReturn) \<and>
    (shutdownLine ''Webhook'' (shutdownError wErr wClose) = ''Webhook server shutdown gracefully'' \<longleftrightarrow> wErr = None) \<and>
    (shutdownLine ''Metrics'' (shutdownError mErr mClose) = ''Metrics server shutdown gracefully'' \<longleftrightarrow> mErr = None)"
proof -
  obtain w where w: "go_fold do_op wops newChans = Ok w"
    "if doneClosed w then awaitShutdown w = Ok (shutdownError wErr wClose) else awaitShutdown w = NoReturn"
    "doneClosed w \<longleftrightarrow> cancelled \<and> wops = ShutdownFromContext cancelled wErr wClose" "shutdownError wErr wClose = None \<longleftrightarrow> wErr = None"
    using shutdown_result_delivered [OF assms(1)] by (elim exE conjE) (rule that)
  obtain m where m: "go_fold do_op mops newChans = Ok m"
    "if doneClosed m then awaitShutdown m = Ok (shutdownError mErr mClose) else awaitShutdown m = NoReturn"
    "doneClosed m \<longleftrightarrow> cancelled \<and> mops = ShutdownFromContext cancelled mErr mClose" "shutdownError mErr mClose = None \<longleftrightarrow> mErr = None"
    using shutdown_result_delivered [OF assms(2)] by (elim exE conjE) (rule that)
  have "awaitServers certs w m =
      (if doneClosed w \<and> doneClosed m
       then Ok ([shutdownLine ''Webhook'' (shutdownError wErr wClose), shutdownLine ''Metrics'' (shutdownError mErr mClose)],
                mainDefers certs)
       else NoReturn)"
    using w(2) m(2) by (auto simp: awaitServers_def split: if_splits)
  moreover have "shutdownLine ''Webhook'' e = ''Webhook server shutdown gracefully'' \<longleftrightarrow> e = None"
    "shutdownLine ''Metrics'' e = ''Metrics server shutdown gracefully'' \<longleftrightarrow> e = None" for e
    by (cases e; simp add: shutdownLine_def)+
  ultimately show ?thesis
    using w(1,3,4) m(1,3,4) by auto
qed

theorem main_waits_for_both_witness:
  "\<exists>w m lines. go_fold do_op (ShutdownFromContext True (Some ''context deadline exceeded'') None) newChans = Ok w \<and>
     go_fold do_op (ShutdownFromContext True None None) newChans = Ok m \<and>
     awaitServers (FromFiles ''tls.crt'' ''tls.key'') w m = Ok (lines, [CloseStop]) \<and>
     lines ! 1 = ''Metrics server shutdown gracefully''"
  using main_waits_for_both [OF prefix_order.refl prefix_order.refl, of True "Some ''context deadline exceeded''" None None None
      "FromFiles ''tls.crt'' ''tls.key''"]
  by (auto simp: stopDefer_def certDefer_def shutdownError_def shutdownLine_def)

end
