(* ===== verification/Sha256.thy ===== *)
theory Sha256
  imports Prelude
begin

text \<open>
  SHA-256 (FIPS 180-4), which the key tool uses through Go's \<open>crypto\<close> package, on 32 bit words with
  wrap-around addition. Bytes are characters.
\<close>

unbundle bit_operations_syntax

type_synonym uint32 = "32 word"

text \<open>
  The standard defines its constants as the first 32 bits of the fractional parts of roots of the
  first primes: of the cube roots of 64 primes for the rounds, of the square roots of 8 primes for
  the initial value. \<open>root_digits\<close> finds the integer part of a root bit by bit.
\<close>

primrec root_digits :: "nat \<Rightarrow> nat \<Rightarrow> int \<Rightarrow> int \<Rightarrow> int" where
  "root_digits k 0 x acc = acc"
| "root_digits k (Suc n) x acc = root_digits k n x (if (acc + 2 ^ n) ^ k \<le> x then acc + 2 ^ n else acc)"

definition fraction_of_root :: "nat \<Rightarrow> int \<Rightarrow> uint32" where
  "fraction_of_root k p = of_int (root_digits k 37 (p * 2 ^ (32 * k)) 0)"

definition primes_below :: "int \<Rightarrow> int list" where
  "primes_below n = filter (\<lambda>p. list_all (\<lambda>d. p mod d \<noteq> 0) [2..p - 1]) [2..n - 1]"

definition sha_k :: "uint32 list" where
  "sha_k = map (fraction_of_root 3) (primes_below 312)"

definition sha_init :: "uint32 list" where
  "sha_init = map (fraction_of_root 2) (primes_below 20)"

lemma primes_below_20: "primes_below 20 = [2, 3, 5, 7, 11, 13, 17, 19]"
  by code_simp

lemma length_sha_init: "length sha_init = 8"
  by (simp add: sha_init_def primes_below_20)

definition rotr :: "nat \<Rightarrow> uint32 \<Rightarrow> uint32" where
  "rotr n x = drop_bit n x OR push_bit (32 - n) x"

definition sigma0 :: "uint32 \<Rightarrow> uint32" where
  "sigma0 x = rotr 7 x XOR rotr 18 x XOR drop_bit 3 x"

definition sigma1 :: "uint32 \<Rightarrow> uint32" where
  "sigma1 x = rotr 17 x XOR rotr 19 x XOR drop_bit 10 x"

definition Sigma0 :: "uint32 \<Rightarrow> uint32" where
  "Sigma0 x = rotr 2 x XOR rotr 13 x XOR rotr 22 x"

definition Sigma1 :: "uint32 \<Rightarrow> uint32" where
  "Sigma1 x = rotr 6 x XOR rotr 11 x XOR rotr 25 x"

definition Ch :: "uint32 \<Rightarrow> uint32 \<Rightarrow> uint32 \<Rightarrow> uint32" where
  "Ch x y z = (x AND y) XOR (NOT x AND z)"

definition Maj :: "uint32 \<Rightarrow> uint32 \<Rightarrow> uint32 \<Rightarrow> uint32" where
  "Maj x y z = (x AND y) XOR (x AND z) XOR (y AND z)"

text \<open>The message schedule, most recent word first.\<close>

primrec schedule :: "nat \<Rightarrow> uint32 list \<Rightarrow> uint32 list" where
  "schedule 0 ws = ws"
| "schedule (Suc n) ws =
     schedule n ((sigma1 (ws ! 1) + ws ! 6 + sigma0 (ws ! 14) + ws ! 15) # ws)"

fun sha_round :: "uint32 list \<Rightarrow> uint32 \<times> uint32 \<Rightarrow> uint32 list" where
  "sha_round [a, b, c, d, e, f, g, h] (k, w) =
     (let t1 = h + Sigma1 e + Ch e f g + k + w; t2 = Sigma0 a + Maj a b c
      in [t1 + t2, a, b, c, d + t1, e, f, g])"
| "sha_round st kw = st"

definition compress :: "uint32 list \<Rightarrow> uint32 list \<Rightarrow> uint32 list" where
  "compress h block =
     map2 (+) h (foldl sha_round h (zip sha_k (rev (schedule 48 (rev block)))))"

fun words_of :: "string \<Rightarrow> uint32 list" where
  "words_of (a # b # c # d # s) =
     (of_char a * 0x1000000 + of_char b * 0x10000 + of_char c * 0x100 + of_char d) # words_of s"
| "words_of s = []"

definition be_bytes :: "nat \<Rightarrow> nat \<Rightarrow> string" where
  "be_bytes n x = map (\<lambda>i. char_of (x div 256 ^ i)) (rev [0..<n])"

definition pad :: "string \<Rightarrow> string" where
  "pad m = m @ CHR 0x80 # replicate ((119 - length m mod 64) mod 64) (char_of (0 :: nat)) @ be_bytes 8 (8 * length m)"

function blocks :: "'a list \<Rightarrow> 'a list list" where
  "blocks xs = (if xs = [] then [] else take 16 xs # blocks (drop 16 xs))"
  by pat_completeness auto
termination
  by (relation "measure length") auto

declare blocks.simps [simp del]

definition sha256 :: "string \<Rightarrow> string" where
  "sha256 m = concat (map (\<lambda>w. be_bytes 4 (unat w)) (foldl compress sha_init (blocks (words_of (pad m)))))"


section \<open>The length of the digest\<close>

lemma length_sha_round: "length (sha_round st kw) = length st"
  by (cases "(st, kw)" rule: sha_round.cases) (simp_all add: Let_def)

lemma length_compress:
  assumes "length h = 8"
  shows "length (compress h b) = 8"
proof -
  have "length (foldl sha_round h kws) = length h" for kws
    by (induction kws arbitrary: h) (simp_all add: length_sha_round)
  then show ?thesis
    by (simp add: compress_def assms)
qed

lemma length_sha256: "length (sha256 m) = 32"
proof -
  have "length (foldl compress h bs) = 8" if "length h = 8" for h bs
    using that by (induction bs arbitrary: h) (simp_all add: length_compress)
  then have "length (foldl compress sha_init (blocks (words_of (pad m)))) = 8"
    by (simp add: length_sha_init)
  moreover have "length (concat (map (\<lambda>w. be_bytes 4 (unat w)) ws)) = 4 * length ws" for ws :: "uint32 list"
    by (induction ws) (simp_all add: be_bytes_def)
  ultimately show ?thesis
    by (simp add: sha256_def)
qed

end
