(* ===== verification/KeyTool.thy ===== *)
theory KeyTool
  imports Sha256 JsonEncode
begin

text \<open>
  \<open>hack/self-hosted/main.go\<close>: the tool that turns a public key into the key set document of a
  self-hosted cluster. SHA-256 and the unpadded URL-safe base64 are defined here; reading the
  file, PEM and X.509, and the encoding of a key by go-jose are arguments. An error is its
  message.
\<close>

section \<open>Base64\<close>

text \<open>\<open>base64.RawURLEncoding\<close>: six bits per character, no padding.\<close>

definition b64_char :: "nat \<Rightarrow> char" where
  "b64_char n =
     (if n < 26 then char_of (65 + n) else if n < 52 then char_of (71 + n)
      else if n < 62 then char_of (n - 4) else if n = 62 then CHR ''-'' else CHR ''_'')"

fun RawURLEncode :: "string \<Rightarrow> string" where
  "RawURLEncode (a # b # c # s) =
     (let v = (byte a * 256 + byte b) * 256 + byte c
      in b64_char (v div 0x40000) # b64_char (v div 0x1000 mod 0x40) #
         b64_char (v div 0x40 mod 0x40) # b64_char (v mod 0x40) # RawURLEncode s)"
| "RawURLEncode [a, b] =
     (let v = (byte a * 256 + byte b) * 256
      in [b64_char (v div 0x40000), b64_char (v div 0x1000 mod 0x40), b64_char (v div 0x40 mod 0x40)])"
| "RawURLEncode [a] =
     (let v = byte a * 256 * 256 in [b64_char (v div 0x40000), b64_char (v div 0x1000 mod 0x40)])"
| "RawURLEncode [] = []"

section \<open>The tool\<close>

record 'k JSONWebKey =
  Key :: 'k
  KeyID :: string
  Algorithm :: string
  Use :: string

record 'k keyLib =
  libReadFile :: "string \<Rightarrow> string + string"
  pemDecode :: "string \<Rightarrow> string option"
  ParsePKIXPublicKey :: "string \<Rightarrow> string + 'k"
  isRSA :: "'k \<Rightarrow> bool"
  MarshalPKIXPublicKey :: "'k \<Rightarrow> string + string"
  marshalJWK :: "'k JSONWebKey \<Rightarrow> string + json"

definition keyIDFromPublicKey :: "'k keyLib \<Rightarrow> 'k \<Rightarrow> string + string" where
  "keyIDFromPublicKey lib publicKey =
     (case MarshalPKIXPublicKey lib publicKey of
        Inl err \<Rightarrow> Inl (''failed to serialize public key to DER format: '' @ err)
      | Inr publicKeyDERBytes \<Rightarrow> Inr (RawURLEncode (sha256 publicKeyDERBytes)))"

fun marshalKeys :: "'k keyLib \<Rightarrow> 'k JSONWebKey list \<Rightarrow> string + json list" where
  "marshalKeys lib [] = Inr []"
| "marshalKeys lib (k # ks) =
     (case marshalJWK lib k of
        Inl err \<Rightarrow> Inl err
      | Inr j \<Rightarrow> (case marshalKeys lib ks of Inl err \<Rightarrow> Inl err | Inr js \<Rightarrow> Inr (j # js)))"

text \<open>\<open>KeyResponse\<close> has the one field \<open>keys\<close>.\<close>

definition marshalKeyResponse :: "'k keyLib \<Rightarrow> 'k JSONWebKey list \<Rightarrow> string + string" where
  "marshalKeyResponse lib keys =
     (case marshalKeys lib keys of
        Inl err \<Rightarrow> Inl err
      | Inr js \<Rightarrow> Inr (MarshalIndent ''    '' (JObj [(''keys'', JArr js)])))"

definition readKey :: "'k keyLib \<Rightarrow> string \<Rightarrow> string + string" where
  "readKey lib filename =
     (case libReadFile lib filename of
        Inl err \<Rightarrow> Inl (''error reading file: '' @ err)
      | Inr content \<Rightarrow>
          (case pemDecode lib content of
             None \<Rightarrow> Inl (''Error decoding PEM file '' @ filename)
           | Some block \<Rightarrow>
               (case ParsePKIXPublicKey lib block of
                  Inl err \<Rightarrow> Inl (''Error parsing key content of '' @ filename @ '': '' @ err)
                | Inr pubKey \<Rightarrow>
                    if \<not> isRSA lib pubKey then Inl ''Public key was not RSA''
                    else (case keyIDFromPublicKey lib pubKey of
                            Inl err \<Rightarrow> Inl err
                          | Inr kid \<Rightarrow>
                              marshalKeyResponse lib
                                [\<lparr>Key = pubKey, KeyID = kid, Algorithm = ''RS256'', Use = ''sig''\<rparr>]))))"

text \<open>What \<open>main\<close> prints, and the exit code.\<close>

definition keyMain :: "'k keyLib \<Rightarrow> string \<Rightarrow> string \<times> int" where
  "keyMain lib keyFile =
     (case readKey lib keyFile of
        Inl err \<Rightarrow> (err @ [CHR 0x0A], 1)
      | Inr output \<Rightarrow> (output @ [CHR 0x0A], 0))"

section \<open>The encoding can be undone\<close>

definition b64_val :: "char \<Rightarrow> nat option" where
  "b64_val c =
     (if cont 65 90 c then Some (byte c - 65) else if cont 97 122 c then Some (byte c - 71)
      else if cont 48 57 c then Some (byte c + 4) else if c = CHR ''-'' then Some 62
      else if c = CHR ''_'' then Some 63 else None)"

fun b64_decode :: "string \<Rightarrow> string option" where
  "b64_decode (p # q # r # s # t) =
     (case (b64_val p, b64_val q, b64_val r, b64_val s, b64_decode t) of
        (Some w, Some x, Some y, Some z, Some rest) \<Rightarrow>
          let v = ((w * 64 + x) * 64 + y) * 64 + z
          in Some (char_of (v div 0x10000) # char_of (v div 0x100 mod 256) # char_of (v mod 256) # rest)
      | _ \<Rightarrow> None)"
| "b64_decode [p, q, r] =
     (case (b64_val p, b64_val q, b64_val r) of
        (Some w, Some x, Some y) \<Rightarrow>
          let v = ((w * 64 + x) * 64 + y) * 64 in Some [char_of (v div 0x10000), char_of (v div 0x100 mod 256)]
      | _ \<Rightarrow> None)"
| "b64_decode [p, q] =
     (case (b64_val p, b64_val q) of
        (Some w, Some x) \<Rightarrow> Some [char_of (((w * 64 + x) * 64) * 64 div 0x10000)]
      | _ \<Rightarrow> None)"
| "b64_decode [] = Some []"
| "b64_decode [p] = None"

lemma b64_val_char: "n < 64 \<Longrightarrow> b64_val (b64_char n) = Some n"
  by (auto simp: b64_val_def b64_char_def cont_def byte_def)

lemma shift_out: "(c :: nat) < m \<Longrightarrow> (n * m + c) div m = n" "(c :: nat) < m \<Longrightarrow> (n * m + c) mod m = c"
  by simp_all

lemma b64_digits:
  fixes v :: nat
  shows "((v div 0x40000 * 64 + v div 0x1000 mod 0x40) * 64 + v div 0x40 mod 0x40) * 64 + v mod 0x40 = v"
proof -
  have "v div 0x1000 div 64 = v div 0x40000" "v div 0x40 div 64 = v div 0x1000"
    by (simp_all add: div_mult2_eq [symmetric])
  then show ?thesis
    by (metis div_mult_mod_eq)
qed

lemma b64_bytes:
  assumes "v = (byte a * 256 + byte b) * 256 + byte c"
  shows "char_of (v div 0x10000) = a" "char_of (v div 0x100 mod 256) = b" "char_of (v mod 256) = c"
    and "v div 0x40000 < 64"
proof -
  have low: "v div 256 = byte a * 256 + byte b" "v mod 256 = byte c"
    unfolding assms by (simp_all only: shift_out byte_less)
  then have "v div 256 div 256 = byte a" "v div 256 mod 256 = byte b"
    by (simp_all only: shift_out byte_less)
  moreover have "v div 0x10000 = v div 256 div 256" "v div 0x40000 = v div 0x10000 div 4"
    by (simp_all add: div_mult2_eq [symmetric])
  ultimately show "char_of (v div 0x10000) = a" "char_of (v div 0x100 mod 256) = b" "char_of (v mod 256) = c"
    and "v div 0x40000 < 64"
    using low byte_less [of a] by (simp_all del: char_of_mod_256)
qed

lemma b64_decode_digits:
  assumes "v div 0x40000 < 64"
  shows "b64_decode t = Some rest \<Longrightarrow>
      b64_decode (b64_char (v div 0x40000) # b64_char (v div 0x1000 mod 0x40) # b64_char (v div 0x40 mod 0x40) #
        b64_char (v mod 0x40) # t) =
      Some (char_of (v div 0x10000) # char_of (v div 0x100 mod 256) # char_of (v mod 256) # rest)"
    and "v mod 0x40 = 0 \<Longrightarrow>
      b64_decode [b64_char (v div 0x40000), b64_char (v div 0x1000 mod 0x40), b64_char (v div 0x40 mod 0x40)] =
      Some [char_of (v div 0x10000), char_of (v div 0x100 mod 256)]"
    and "v mod 0x40 = 0 \<Longrightarrow> v div 0x40 mod 0x40 = 0 \<Longrightarrow>
      b64_decode [b64_char (v div 0x40000), b64_char (v div 0x1000 mod 0x40)] = Some [char_of (v div 0x10000)]"
  using assms b64_digits [of v] by (simp_all only: b64_decode.simps b64_val_char mod_less_divisor zero_less_numeral
      prod.case option.case Let_def add_0_right)

lemma b64_roundtrip: "b64_decode (RawURLEncode s) = Some s"
proof (induction s rule: RawURLEncode.induct)
  case (1 a b c s)
  from b64_bytes [OF refl, of a b c] b64_decode_digits(1) [OF b64_bytes(4) [OF refl, of a b c] 1]
  show ?case by (simp only: RawURLEncode.simps Let_def)
next
  case (2 a b)
  let ?v = "(byte a * 256 + byte b) * 256"
  have v: "?v = (byte a * 256 + byte b) * 256 + byte (CHR 0x00)" "?v mod 0x40 = 0"
    by (simp_all add: byte_def mod_mult_right_eq)
  from b64_bytes [OF v(1)] b64_decode_digits(2) [OF b64_bytes(4) [OF v(1)] v(2)]
  show ?case by (simp only: RawURLEncode.simps Let_def)
next
  case (3 a)
  let ?v = "byte a * 256 * 256"
  have v: "?v = (byte a * 256 + byte (CHR 0x00)) * 256 + byte (CHR 0x00)" "?v mod 0x40 = 0" "?v div 0x40 mod 0x40 = 0"
    by (simp_all add: byte_def)
  from b64_bytes [OF v(1)] b64_decode_digits(3) [OF b64_bytes(4) [OF v(1)] v(2,3)]
  show ?case by (simp only: RawURLEncode.simps Let_def)
qed simp

lemma length_RawURLEncode: "length (RawURLEncode s) = (4 * length s + 2) div 3"
  by (induction s rule: RawURLEncode.induct) (simp_all add: Let_def)

definition url_safe :: "char \<Rightarrow> bool" where
  "url_safe c \<longleftrightarrow> cont 65 90 c \<or> cont 97 122 c \<or> cont 48 57 c \<or> c = CHR ''-'' \<or> c = CHR ''_''"

lemma b64_char_safe: "url_safe (b64_char n)"
  by (auto simp: url_safe_def b64_char_def cont_def byte_def)

lemma RawURLEncode_safe: "list_all url_safe (RawURLEncode s)"
  by (induction s rule: RawURLEncode.induct) (simp_all add: Let_def b64_char_safe)

section \<open>Claims\<close>

definition webKey :: "'k \<Rightarrow> string \<Rightarrow> 'k JSONWebKey" where
  "webKey key der = \<lparr>Key = key, KeyID = RawURLEncode (sha256 der), Algorithm = ''RS256'', Use = ''sig''\<rparr>"

lemma readKey_Inr:
  assumes "readKey lib file = Inr out"
  obtains content block key der j where "libReadFile lib file = Inr content" "pemDecode lib content = Some block"
    "ParsePKIXPublicKey lib block = Inr key" "isRSA lib key" "MarshalPKIXPublicKey lib key = Inr der"
    "marshalJWK lib (webKey key der) = Inr j" "out = MarshalIndent ''    '' (JObj [(''keys'', JArr [j])])"
  using assms
  by (auto simp: readKey_def keyIDFromPublicKey_def marshalKeyResponse_def webKey_def
      split: sum.splits option.splits if_splits)

lemma valid_keys: "valid_utf8 ''keys''"
  by code_simp

text \<open>
  C40. The key tool publishes exactly the key it was given, or nothing. If it exits with 0, the file
  held a PEM block with an RSA public key, and what it printed parses as a JSON object whose
  only member \<open>keys\<close> has one element: the encoding of that key, for RS256 signatures, with
  the key identifier that Kubernetes computes (provided the encoding of a key by the library is
  a valid tree of reasonable depth). The identifier has 43 characters, all of them safe in a URL,
  and determines the SHA-256 hash of the key. If a step fails, the tool prints the reason and
  exits with 1.
\<close>

theorem key_tool_output:
  assumes "\<forall>k j. marshalJWK lib k = Inr j \<longrightarrow> json_ok 1000 j"
  shows "(case readKey lib file of
      Inl err \<Rightarrow> keyMain lib file = (err @ [CHR 0x0A], 1)
    | Inr out \<Rightarrow> keyMain lib file = (out @ [CHR 0x0A], 0) \<and>
        (\<exists>content block key der j. libReadFile lib file = Inr content \<and> pemDecode lib content = Some block \<and>
          ParsePKIXPublicKey lib block = Inr key \<and> isRSA lib key \<and> MarshalPKIXPublicKey lib key = Inr der \<and>
          marshalJWK lib (webKey key der) = Inr j \<and> json_parse out = Some (JObj [(''keys'', JArr [j])]) \<and>
          length (KeyID (webKey key der)) = 43 \<and> list_all url_safe (KeyID (webKey key der)) \<and>
          b64_decode (KeyID (webKey key der)) = Some (sha256 der)))"
proof (cases "readKey lib file")
  case (Inl err)
  then show ?thesis by (simp add: keyMain_def)
next
  case (Inr out)
  then obtain content block key der j where parts: "libReadFile lib file = Inr content" "pemDecode lib content = Some block"
    "ParsePKIXPublicKey lib block = Inr key" "isRSA lib key" "MarshalPKIXPublicKey lib key = Inr der"
    "marshalJWK lib (webKey key der) = Inr j" and out: "out = MarshalIndent ''    '' (JObj [(''keys'', JArr [j])])"
    by (rule readKey_Inr)
  have "json_ok 1000 j"
    using assms parts(6) by blast
  then have "json_ok max_depth (JObj [(''keys'', JArr [j])])"
    using json_ok_mono [of 1000 j 9998] by (simp add: max_depth_def valid_keys)
  then have "json_parse out = Some (JObj [(''keys'', JArr [j])])"
    unfolding out by (intro parse_marshal) (simp_all add: is_ws_def)
  moreover have "length (KeyID (webKey key der)) = 43" "list_all url_safe (KeyID (webKey key der))"
    "b64_decode (KeyID (webKey key der)) = Some (sha256 der)"
    by (simp_all add: webKey_def length_RawURLEncode length_sha256 RawURLEncode_safe b64_roundtrip)
  ultimately show ?thesis
    using parts Inr by (simp add: keyMain_def)
qed

definition exampleLib :: "string keyLib" where
  "exampleLib =
     \<lparr>libReadFile = (\<lambda>f. if f = ''sa.pub'' then Inr ''PEM'' else Inl ''no such file or directory''),
      pemDecode = (\<lambda>c. if c = ''PEM'' then Some ''DER'' else None), ParsePKIXPublicKey = Inr, isRSA = (\<lambda>k. k = ''DER''),
      MarshalPKIXPublicKey = Inr, marshalJWK = (\<lambda>k. Inr (JObj [(''use'', JStr ''sig'')]))\<rparr>"

theorem key_tool_output_witness:
  "keyMain exampleLib ''nothing'' = (''error reading file: no such file or directory'' @ [CHR 0x0A], 1) \<and>
   (\<exists>out. readKey exampleLib ''sa.pub'' = Inr out \<and>
      json_parse out = Some (JObj [(''keys'', JArr [JObj [(''use'', JStr ''sig'')]])]))"
proof -
  have valid: "valid_utf8 ''use''" "valid_utf8 ''sig''"
    by code_simp+
  then have ok: "\<forall>k j. marshalJWK exampleLib k = Inr j \<longrightarrow> json_ok 1000 j"
    by (simp add: exampleLib_def)
  have "readKey exampleLib ''nothing'' = Inl ''error reading file: no such file or directory''"
    by (simp add: readKey_def exampleLib_def)
  moreover obtain out where "readKey exampleLib ''sa.pub'' = Inr out"
    by (simp add: readKey_def exampleLib_def keyIDFromPublicKey_def marshalKeyResponse_def)
  ultimately show ?thesis
    using key_tool_output [OF ok, of "''nothing''"] key_tool_output [OF ok, of "''sa.pub''"]
    by (auto simp: exampleLib_def)
qed

end
