(* ===== verification/Spec2Isabelle.thy ===== *)
theory Spec2Isabelle
  imports Prelude GoStrings Strconv Csv Json JsonEncode Pkg Notifications Cache CacheProps ConfigMapProps
    FakeCache CacheDump ContainerCredentials FileWatcher WatchLoop Handler HandlerProps PodProps PatchTypes
    PatchJson Grace Routes
    Mutate MutateProps AdmissionProps System Fetch Http Server ServerProps Shutdown CertStore Certs Wiring
    Startup Sha256 KeyTool
begin

text \<open>
  The EKS pod identity webhook (\<open>amazon-eks-pod-identity-webhook\<close>), modelled from its Go sources.

  The program. The webhook is called by the Kubernetes API server for every pod that is created. It
  looks up the pod's service account and, if the account is configured for AWS credentials,
  answers with a JSON patch that adds environment variables and a projected token volume. What is
  known of accounts comes from three places: annotations of the service accounts, reported by an
  informer or fetched on demand; a ConfigMap; and a file that lists identities for the
  container credentials method. A lookup of an unknown account may register for a notification
  and wait for a grace period while the account is fetched.

  The theories, bottom up, with the sources they model (under \<open>src/\<close>).
  \<^item> \<open>Prelude\<close>: outcomes of Go functions (\<open>Ok\<close>, \<open>Panic\<close>, \<open>NoReturn\<close>), 64 bit integers as words,
    the collections \<open>frame\<close> and \<open>inv_intros\<close>.
  \<^item> \<open>GoStrings\<close>, \<open>Strconv\<close>, \<open>Csv\<close>, \<open>Json\<close>: what is used of the Go library, as executable functions:
    \<open>strings\<close>, \<open>path/filepath\<close>, \<open>strconv\<close> (with its overflow checks at 64 bit), the first record
    of \<open>encoding/csv\<close>, and \<open>encoding/json\<close> with Go's rules for decoding into structs and maps.
    \<open>JsonEncode\<close> is its encoder, with the round trip through the scanner. Go strings are byte
    strings, as is the type \<open>string\<close>.
  \<^item> \<open>Pkg\<close> (\<open>pkg/annotations.go\<close>, \<open>pkg/constants.go\<close>, \<open>pkg/validation.go\<close>).
  \<^item> \<open>Notifications\<close> (\<open>pkg/cache/notifications.go\<close>): the registry of waiting requests; the interface
    \<open>notifier\<close> is what the cache relies on.
  \<^item> \<open>Cache\<close> (\<open>pkg/cache/cache.go\<close>) with \<open>CacheProps\<close> (the interface \<open>account_table\<close>, lookups,
    additions) and \<open>ConfigMapProps\<close> (ConfigMap events against a reference table); \<open>FakeCache\<close>
    (\<open>pkg/cache/fake.go\<close>), which is another \<open>account_table\<close>; \<open>CacheDump\<close>, the \<open>ToJSON\<close> of both.
  \<^item> \<open>System\<close>: the goroutines around the cache as a step relation over critical sections, with
    reachable states and their invariant; the receiver and its fetches are a relation of their own
    (\<open>fetcher_step\<close>), of which progress is shown without help from the informer, and \<open>unlocked_step\<close>
    has the steps that need no lock a blocked lookup holds. \<open>Fetch\<close>: \<open>fetchFromAPI\<close>
    and its goroutine, with the retries, as a refinement of the fetch steps of \<open>System\<close>. \<open>Grace\<close>: the
    wait of an admission request inside that system, and what a failed fetch leaves behind.
  \<^item> \<open>ContainerCredentials\<close> (\<open>pkg/containercredentials\<close>) with the interface \<open>identity_config\<close>, and
    \<open>FileWatcher\<close> (\<open>pkg/filesystem/file_watcher.go\<close>: event filter, worker rounds, loading);
    \<open>WatchLoop\<close>: the queue, \<open>NewFileWatcher\<close>, \<open>StartWatcher\<close> and \<open>Watch\<close> with its two goroutines, as a
    step relation beside changes of the file.
  \<^item> \<open>Handler\<close> (\<open>pkg/handler/handler.go\<close>: modifier, pod annotations, container and pod patches) with
    \<open>HandlerProps\<close>, \<open>PodProps\<close> and \<open>PatchTypes\<close> (the patch under the pod's schema) and
    \<open>PatchJson\<close> (its bytes, against the JSON document of the pod); \<open>Mutate\<close> (the rest of \<open>handler.go\<close>: jitter,
    \<open>buildPodPatchConfig\<close>, \<open>MutatePod\<close>) with \<open>MutateProps\<close> (over the interface
    \<open>service_account_cache\<close>, interpreted for the real cache and the fake) and \<open>AdmissionProps\<close>.
  \<^item> \<open>Http\<close> (\<open>pkg/handler/middleware.go\<close> and what is used of \<open>net/http\<close>), \<open>Server\<close> (\<open>Handle\<close>,
    \<open>pkg/cache/debug/debug.go\<close>, the routes of \<open>main.go\<close>) and \<open>ServerProps\<close> (over the interface
    \<open>honest_handler\<close>); \<open>Routes\<close>: \<open>http.ServeMux\<close> over the routes of both ports.
  \<^item> \<open>Shutdown\<close> (\<open>pkg/handler/shutdown.go\<close>), \<open>CertStore\<close> (\<open>pkg/cert/store.go\<close>), \<open>Certs\<close>
    (\<open>pkg/cert/request.go\<close> and the metrics that are registered), \<open>Wiring\<close> (what \<open>main.go\<close> builds from
    the flags), \<open>Startup\<close> (\<open>main\<close> itself: its actions in order, its fatal exits, the goroutines and
    closures it leaves behind, and its end).
  \<^item> \<open>Sha256\<close> and \<open>KeyTool\<close> (\<open>hack/self-hosted/main.go\<close>).
  \<^item> This theory: the path of an account from the informer to the patched pod.

  How state and operations correspond. A struct is a record with the fields of the source, prefixed
  where Isabelle's name space requires it; a method that changes its receiver returns the new
  record; a nil pointer, map or interface is \<open>None\<close>. A panic and a call that does not come back are
  outcomes of their own. Go's order of iteration over maps is an argument, and theorems hold for
  every order. The random source is the list of numbers it is going to deliver. What other
  goroutines do while a request waits in its \<open>select\<close> is an argument \<open>wait\<close> of
  \<open>buildPodPatchConfig\<close>; the theory \<open>System\<close> says which states they can lead to, and \<open>Grace\<close> puts
  the two together.

  Parameters. Code outside the repository is an argument with its documented behaviour as a
  hypothesis: the API server's application of a patch to the typed pod (\<open>rfc6902_add\<close>; on JSON documents it is
  defined, \<open>json_patch\<close>), the codecs of the Kubernetes types (\<open>codecs\<close> and \<open>kubeJson\<close>, \<open>faithful\<close> where a
  value has to survive them), what the multiplexer writes for a path that is not clean, the secrets API and the certificate parsers (\<open>api_contract\<close>,
  \<open>parser_contract\<close>), the tables of cipher suites, the work queue (\<open>workqueue_contract\<close>), the
  retries of client-go (\<open>onError_contract\<close>), the metrics registry (\<open>registry_contract\<close>, for valid descriptions), PEM, X.509
  and go-jose (\<open>keyLib\<close>), and the answers to the calls \<open>main\<close> makes (\<open>world\<close>, with the states
  of the watched file that its worker has loaded before the servers start). No recursion uses
  fuel: every loop is structural or has a termination proof, except the rejection loop of the
  jitter, which runs over the given draws and is shown to return as soon as one is accepted.

  What is shown, by group. Accounts and lookups: the annotation cache is a table indexed by namespace
  and name (C6), the order of precedence (C7), lifetimes stay at or above the minimum (C20, C21), the
  dump reads back (C19). ConfigMap: the cache follows the successive versions (C2), and what
  happens outside well-formed versions (C26, C27). Concurrency: no wakeup is lost (C3), pending
  fetches (C28), fetches with retries (C18), no deadlock on the queue (C29), the registry (C32), the
  grace period in the running system (C30). Patches: only appended, complete, idempotent, well typed,
  skipped containers, the changed flag and the log (C4, C5, C9, C11, C23, C24), and the effect of
  the bytes on the pod's document (C12). Admission: end to end (C1), no panic (C8), responses (C14),
  returning (C15), namespace (C25), one method (C10), counters (C13), jitter (C22), the fake (C31).
  HTTP: the mutation route (C33), the isolation of the ports (C34), metrics off the wire (C35). The
  watched file: a change takes effect (C16), and one that is lost (C39). Around it: start-up (C17),
  shutdown (C36), the certificate store (C37), cipher suites (C38), the key tool (C40).

  Not modelled: log texts other than the access log, \<open>logContext\<close> with the line on a pod's outcome, and
  the lines \<open>main\<close> ends with; the values of the latency histograms, the informers (their events are
  arguments) and the rate limiter (it delays steps), the registration of the Kubernetes types with
  the scheme (the codecs are arguments), and the parsing of the command line by pflag: \<open>main\<close>
  starts from the record of flag values.
\<close>

section \<open>From the service account to the pod\<close>

lemma entry_of_SA_role:
  assumes "saAnnotations sa (annotationPrefix c @ ''/'' @ ''role-arn'') = Some arn" and "arn \<noteq> []"
  shows "eRoleARN (entry_of_SA c sa) = composeArn (composeRoleArn c) arn" and "eRoleARN (entry_of_SA c sa) \<noteq> []"
  using assms
  by (simp_all add: entry_of_SA_def annotation_key_def annotation_defs)
     (simp add: composeArn_def)

lemma webIdentityConfig_sel [simp]:
  "WebIdentityPatchConfig (webIdentityConfig m pod e) = Some (eRoleARN e)"
  "ContainerCredentialsPatchConfig (webIdentityConfig m pod e) = None"
  "Audience (webIdentityConfig m pod e) = eAudience e"
  "TokenExpiration (webIdentityConfig m pod e) = fst (parsePodAnnotations m pod (eTokenExpiration e))"
  "ContainersToSkip (webIdentityConfig m pod e) = snd (parsePodAnnotations m pod (eTokenExpiration e))"
  by (simp_all add: webIdentityConfig_def split: prod.split)

lemma patched_web_env:
  assumes "i < length (Containers pod)" and "ContainersToSkip cfg (cName (Containers pod ! i)) = None"
    and "\<not> defines_any (Containers pod ! i) webIdentityKeys"
    and "WebIdentityPatchConfig cfg = Some role" and "ContainerCredentialsPatchConfig cfg = None"
  shows "{mkEnv ''AWS_ROLE_ARN'' role, mkEnv ''AWS_WEB_IDENTITY_TOKEN_FILE'' (tokenFilePath pod cfg)} \<subseteq>
      set (Env (Containers (mutated m pod cfg) ! i))"
    and "mounts_volume (Containers (mutated m pod cfg) ! i) cfg"
  using patched_credentials [OF assms(2), where m = m and path = "tokenFilePath pod cfg"] assms
  by (simp_all add: mutated_def mutatedContainers_def satisfied_def credentialEnv_def)

text \<open>
  C1. The webhook does what it is for. Let the informer (or a fetch) have reported a service
  account whose annotation names a role, and let a pod that uses the account, in the
  account's namespace, come in for admission, with the account not listed for container
  credentials, and let the codec of the Kubernetes types encode the values of the patch faithfully.
  Then, whatever goes on while the request is handled, the pod is admitted with a JSON patch and
  counted as a web identity pod. The bytes of the patch apply to the JSON document of the pod and
  change nothing but the four members the patch is about; the document they lead to is that of a pod
  which has the projected token volume in front (unless a volume of that name was there) and in
  which every container that is not skipped and defines neither of the two variables has the
  account's role (completed to an ARN where that is switched on) and the path of the token
  file, and mounts the volume.
\<close>

theorem annotated_account_mutated:
  assumes "addSA c0 sa = Ok c" and "Cache m = Some c" and "ContainerCredentialsConfig m = Some k"
    and "saAnnotations sa (annotationPrefix c0 @ ''/'' @ ''role-arn'') = Some arn" and "arn \<noteq> []"
    and "\<lparr>Namespace = saNamespace sa, ServiceAccountName = saName sa\<rparr> \<notin> identities_of k"
    and "reviewed_pod codec ar = Some pod" and "podNamespace pod = saNamespace sa"
    and "podServiceAccountName pod = saName sa"
    and "cfg = webIdentityConfig m pod (entry_of_SA c0 sa)" and "marshalPatch codec = marshalOps lib"
    and "faithful (encVolume lib) (decVolume lib) (tokenVolume cfg)"
    and "list_all (faithful (encContainer lib) (decContainer lib)) (Containers (mutated m pod cfg) @ InitContainers (mutated m pod cfg))"
    and "pod_doc lib doc pod"
  shows "\<exists>bytes doc' q. MutatePod codec realCache fcGet wait m g ar =
      Ok (m, g\<lparr>podCountStsWebIdentity := Suc (podCountStsWebIdentity g)\<rparr>,
          \<lparr>respUID = [], Allowed = True, Result = None, Patch = Some bytes, PatchType = Some ''JSONPatch''\<rparr>) \<and>
    json_patch bytes doc = Some doc' \<and> same_elsewhere doc doc' \<and> pod_doc lib doc' q \<and>
    volumeExists q cfg \<and> (\<not> volumeExists pod cfg \<longrightarrow> (\<exists>vs. Volumes q = Some (tokenVolume cfg # vs))) \<and>
    (\<forall>i < length (Containers pod).
      ContainersToSkip cfg (cName (Containers pod ! i)) = None \<and> \<not> defines_any (Containers pod ! i) webIdentityKeys \<longrightarrow>
      {mkEnv ''AWS_ROLE_ARN'' (composeArn (composeRoleArn c0) arn),
       mkEnv ''AWS_WEB_IDENTITY_TOKEN_FILE'' (tokenFilePath pod cfg)} \<subseteq> set (Env (Containers q ! i)) \<and>
      mounts_volume (Containers q ! i) cfg)"
proof -
  note role = entry_of_SA_role [OF assms(4,5)]
  have stored: "saCache c (cache_key (podNamespace pod) (podServiceAccountName pod)) = Some (entry_of_SA c0 sa)"
    using assms(1,8,9) by (auto elim!: addSA_Ok)
  obtain bytes doc' where bytes: "marshalOps lib (fst (getPodSpecPatch m pod cfg)) = Inr bytes" "json_patch bytes doc = Some doc'"
    "pod_doc lib doc' (mutated m pod cfg)" "same_elsewhere doc doc'"
    using patch_bytes [OF assms(12-14)] by blast
  have "MutatePod codec realCache fcGet wait m g ar =
      Ok (m, g\<lparr>podCountStsWebIdentity := Suc (podCountStsWebIdentity g)\<rparr>,
          \<lparr>respUID = [], Allowed = True, Result = None, Patch = Some bytes, PatchType = Some ''JSONPatch''\<rparr>)"
    using build_annotated [OF assms(2,3) _ stored role(2), of fcGet wait g] assms(6,8-11) bytes(1)
    by (simp add: MutatePod_pod [OF assms(7)] fc.get_eq patch_response_def allowAll_def)
  moreover have "volumeExists (mutated m pod cfg) cfg \<and>
      (\<not> volumeExists pod cfg \<longrightarrow> (\<exists>vs. Volumes (mutated m pod cfg) = Some (tokenVolume cfg # vs)))"
    using volumeExists_mutated [of m pod cfg] by (simp add: mutated_def mutatedVolumes_def)
  moreover have "\<forall>i < length (Containers pod).
      ContainersToSkip cfg (cName (Containers pod ! i)) = None \<and> \<not> defines_any (Containers pod ! i) webIdentityKeys \<longrightarrow>
      {mkEnv ''AWS_ROLE_ARN'' (composeArn (composeRoleArn c0) arn),
       mkEnv ''AWS_WEB_IDENTITY_TOKEN_FILE'' (tokenFilePath pod cfg)} \<subseteq> set (Env (Containers (mutated m pod cfg) ! i)) \<and>
      mounts_volume (Containers (mutated m pod cfg) ! i) cfg"
    using patched_web_env [of _ pod cfg "eRoleARN (entry_of_SA c0 sa)" m] role(1) assms(10) by simp
  ultimately show ?thesis
    using bytes by blast
qed

definition plainCodecs :: "kubeJson \<Rightarrow> codecs" where
  "plainCodecs lib = \<lparr>unmarshalPod = (\<lambda>s. Inr plainPod), marshalPatch = marshalOps lib\<rparr>"

theorem annotated_account_mutated_witness:
  "\<exists>c lib m' g' resp bytes doc'. addSA exampleCache annotatedAccount = Ok c \<and>
     MutatePod (plainCodecs lib) realCache fcGet timesOut (exampleModifier\<lparr>Cache := Some c\<rparr>) zeroMetrics exampleReview =
       Ok (m', g', resp) \<and> Patch resp = Some bytes \<and> json_patch bytes plainDoc = Some doc'"
proof -
  obtain c where c: "addSA exampleCache annotatedAccount = Ok c"
    using addSA_total New_inv unfolding exampleCache_def by blast
  let ?k = "NewFileConfig ''aud'' ''/mnt'' ''vol'' ''tok'' ''http://169.254.170.23/v1/credentials''"
  let ?m = "exampleModifier\<lparr>Cache := Some c\<rparr>"
  let ?cfg = "webIdentityConfig ?m plainPod (entry_of_SA exampleCache annotatedAccount)"
  let ?lib = "plainCodec ?m ?cfg"
  have pre: "Cache ?m = Some c" "ContainerCredentialsConfig ?m = Some ?k"
    "saAnnotations annotatedAccount (annotationPrefix exampleCache @ ''/'' @ ''role-arn'') =
       Some ''arn:aws:iam::111122223333:role/s3-reader''"
    "''arn:aws:iam::111122223333:role/s3-reader'' \<noteq> []"
    "\<lparr>Namespace = saNamespace annotatedAccount, ServiceAccountName = saName annotatedAccount\<rparr> \<notin> identities_of ?k"
    "reviewed_pod (plainCodecs ?lib) exampleReview = Some plainPod"
    "podNamespace plainPod = saNamespace annotatedAccount" "podServiceAccountName plainPod = saName annotatedAccount"
    by (simp_all add: annotatedAccount_def exampleCache_def New_def identities_of_def getCacheItem_def NewFileConfig_def
        reviewed_pod_def exampleReview_def plainCodecs_def plainPod_def examplePod_def)
  have lib: "marshalPatch (plainCodecs ?lib) = marshalOps ?lib"
    by (simp add: plainCodecs_def)
  have "VolumeName ?cfg = ''aws-iam-token''"
    by (simp add: webIdentityConfig_def split: prod.split)
  then have "valid_utf8 (VolumeName ?cfg)"
    by simp code_simp
  from annotated_account_mutated [OF c pre refl lib plainCodec_ok(1) [OF this] plainCodec_ok(2,3), of timesOut zeroMetrics] c
  show ?thesis by fastforce
qed

end
